theory Spec2Isabelle
  imports Complex_Main "HOL-Library.AList"
begin

section \<open>Numbers, strings and errors\<close>

text \<open>
  The program is TypeScript. A JavaScript number is an IEEE double; this development
  reads every number as an exact \<open>real\<close>, so rounding is not modelled and the values
  NaN and \<open>\<plusminus>Infinity\<close> do not exist. Where the source divides by a quantity that can
  be zero, the model says so explicitly (\<open>None\<close> for a non-finite result) instead of
  using HOL's \<open>x / 0 = 0\<close>.

  A JavaScript string is a \<open>string\<close> (a list of 8-bit characters); letter case and
  white space are those of ASCII.
\<close>

type_synonym num = real

text \<open>The only exception the modelled functions raise on their own: a method call
  (\<open>.trim()\<close>, \<open>.toLowerCase()\<close>) on a value that is not a string. \<open>NotModelled\<close> is no
  exception of the source: it marks a run that leaves the number model, because the
  outcome depends on a number that the model of \<open>parseInt\<close> does not read (see
  \<open>parseInt\<close> below). No statement is made about such a run.\<close>

datatype error = TypeError | FileNotFound string | InvalidSvg | NotModelled

section \<open>Grid layout (panelLayout)\<close>

record PanelLayoutSettings =
  panelWidthMm :: num
  panelHeightMm :: num
  cellSizeMm :: num
  marginMm :: num
  gutterMm :: num

record Placement =
  indexInPanel :: nat
  cellX :: num
  cellY :: num
  cellSize :: num

record GridLayout =
  cols :: int
  rows :: int
  capacityPerPanel :: int
  placements :: "Placement list"

text \<open>
  \<open>computeGridLayout\<close>. Both quotients have the denominator \<open>cellSizeMm + gutterMm\<close>;
  when it is zero JavaScript yields NaN or an infinity for \<open>cols\<close> and \<open>rows\<close>, which is
  outside the number model: the result is \<open>None\<close> there. The two nested \<open>for\<close> loops
  run \<open>r\<close> over \<open>0..rows-1\<close> and \<open>c\<close> over \<open>0..cols-1\<close>.
\<close>

definition computeGridLayout :: "PanelLayoutSettings \<Rightarrow> GridLayout option" where
  "computeGridLayout settings =
     (let usableW = panelWidthMm settings - marginMm settings * 2;
          usableH = panelHeightMm settings - marginMm settings * 2;
          pitch = cellSizeMm settings + gutterMm settings
      in if pitch = 0 then None
         else
           let cs = \<lfloor>(usableW + gutterMm settings) / pitch\<rfloor>;
               rs = \<lfloor>(usableH + gutterMm settings) / pitch\<rfloor>;
               capacity = max 0 (cs * rs);
               ps = (if cs > 0 \<and> rs > 0
                     then concat (map (\<lambda>r. map (\<lambda>c.
                            \<lparr> indexInPanel = r * nat cs + c,
                              cellX = marginMm settings + of_nat c * pitch,
                              cellY = marginMm settings + of_nat r * pitch,
                              cellSize = cellSizeMm settings \<rparr>) [0 ..< nat cs]) [0 ..< nat rs])
                     else [])
           in Some \<lparr> cols = cs, rows = rs, capacityPerPanel = capacity, placements = ps \<rparr>)"

definition computePanelCount :: "nat \<Rightarrow> int \<Rightarrow> int" where
  "computePanelCount itemCount capacity =
     (if capacity \<le> 0 then 0 else \<lceil>(of_nat itemCount :: real) / of_int capacity\<rceil>)"

section \<open>Text fit (textFit)\<close>

record Box =
  boxX :: num
  boxY :: num
  boxWidth :: num
  boxHeight :: num

record TextMetrics =
  tmWidth :: num
  tmHeight :: num
  tmAscent :: num
  tmDescent :: num

record TextFit =
  fontSize :: num
  fitX :: num
  fitY :: num

text \<open>
  \<open>measureTextSvg\<close> renders the text off screen and asks the browser for its bounding
  box. The browser is the parameter \<open>textBBox\<close>: the box of the text in the given font
  family at the given size. Everything after \<open>getBBox()\<close> is the source's own code.
\<close>

definition measureTextSvg :: "(string \<Rightarrow> string \<Rightarrow> num \<Rightarrow> Box) \<Rightarrow> string \<Rightarrow> string \<Rightarrow> num \<Rightarrow> TextMetrics" where
  "measureTextSvg textBBox str fontFamily fsize =
     (let bbox = textBBox str fontFamily fsize
      in if boxWidth bbox \<le> 0 \<or> boxHeight bbox \<le> 0
         then \<lparr> tmWidth = of_nat (length str) * fsize * 0.6,
                tmHeight = fsize * 1.2,
                tmAscent = fsize * 0.8,
                tmDescent = fsize * 0.2 \<rparr>
         else
           let ascent = - boxY bbox;
               descent = boxHeight bbox - ascent
           in \<lparr> tmWidth = boxWidth bbox, tmHeight = boxHeight bbox,
                tmAscent = ascent, tmDescent = descent \<rparr>)"

definition calculateTextFit :: "(string \<Rightarrow> string \<Rightarrow> num \<Rightarrow> Box) \<Rightarrow> string \<Rightarrow> string \<Rightarrow> Box \<Rightarrow> TextFit" where
  "calculateTextFit textBBox str fontFamily box =
     (if str = [] \<or> boxWidth box \<le> 0 \<or> boxHeight box \<le> 0
      then \<lparr> fontSize = 12, fitX = boxX box + boxWidth box / 2, fitY = boxY box + boxHeight box \<rparr>
      else
        let refSize = 100;
            measured = measureTextSvg textBBox str fontFamily refSize;
            measuredHeight = (if tmHeight measured > 0 then tmHeight measured else refSize * 1.2);
            measuredWidth = (if tmWidth measured > 0 then tmWidth measured
                             else of_nat (length str) * refSize * 0.6);
            heightScale = (boxHeight box * 0.99) / measuredHeight;
            widthScale = (boxWidth box * 0.99) / measuredWidth;
            scale = min heightScale widthScale;
            fsize = max 1 (min (refSize * scale) 2000);
            final = measureTextSvg textBBox str fontFamily fsize;
            x = boxX box + boxWidth box / 2;
            boxBottom = boxY box + boxHeight box;
            y = boxBottom - tmDescent final
        in \<lparr> fontSize = fsize, fitX = x, fitY = y \<rparr>)"

section \<open>Strings\<close>

text \<open>
  The string operations of JavaScript that the source uses, on ASCII: \<open>\s\<close> and
  \<open>trim()\<close> take the six ASCII white-space characters, \<open>toLowerCase()\<close> and the
  \<open>i\<close> flag fold \<open>A-Z\<close>, \<open>\d\<close> is \<open>0-9\<close> and \<open>\w\<close> is \<open>[A-Za-z0-9_]\<close>.
\<close>

definition isSpace :: "char \<Rightarrow> bool" where
  "isSpace c \<longleftrightarrow> (let n = (of_char c :: nat) in n = 32 \<or> (9 \<le> n \<and> n \<le> 13))"

definition isDigit :: "char \<Rightarrow> bool" where
  "isDigit c \<longleftrightarrow> (let n = (of_char c :: nat) in 48 \<le> n \<and> n \<le> 57)"

definition isUpper :: "char \<Rightarrow> bool" where
  "isUpper c \<longleftrightarrow> (let n = (of_char c :: nat) in 65 \<le> n \<and> n \<le> 90)"

definition isLower :: "char \<Rightarrow> bool" where
  "isLower c \<longleftrightarrow> (let n = (of_char c :: nat) in 97 \<le> n \<and> n \<le> 122)"

definition isWordChar :: "char \<Rightarrow> bool" where
  "isWordChar c \<longleftrightarrow> isDigit c \<or> isUpper c \<or> isLower c \<or> c = CHR ''_''"

definition lowerChar :: "char \<Rightarrow> char" where
  "lowerChar c = (if isUpper c then char_of ((of_char c :: nat) + 32) else c)"

definition toLowerCase :: "string \<Rightarrow> string" where
  "toLowerCase s = map lowerChar s"

definition trim :: "string \<Rightarrow> string" where
  "trim s = rev (dropWhile isSpace (rev (dropWhile isSpace s)))"

text \<open>\<open>s.split(/P+/)\<close> for a set \<open>P\<close> of separator characters: a run of separators
  splits once; a leading or trailing run leaves an empty first or last piece.\<close>

fun splitRuns :: "(char \<Rightarrow> bool) \<Rightarrow> string \<Rightarrow> string list" where
  "splitRuns P [] = [[]]"
| "splitRuns P (c # cs) =
     (if P c then (if cs \<noteq> [] \<and> P (hd cs) then splitRuns P cs else [] # splitRuns P cs)
      else (case splitRuns P cs of [] \<Rightarrow> [[c]] | w # ws \<Rightarrow> (c # w) # ws))"

text \<open>A pattern of lower-case letters matched at the start of a string under the
  \<open>i\<close> flag.\<close>

definition startsWithCI :: "string \<Rightarrow> string \<Rightarrow> bool" where
  "startsWithCI pat s \<longleftrightarrow> length pat \<le> length s \<and> toLowerCase (take (length pat) s) = pat"

text \<open>
  The tail \<open>\s*:\s*([^;]+)\<close> of the three declaration patterns, matched right after
  the property name; the result is the capture group. Both \<open>\s*\<close> are greedy. When
  nothing but a semicolon (or the end) follows the white space after the colon, the
  matcher backtracks by one character and the group is the last white-space character.
\<close>

definition declValue :: "string \<Rightarrow> string option" where
  "declValue rest =
     (case dropWhile isSpace rest of
        [] \<Rightarrow> None
      | c # r2 \<Rightarrow>
          if c \<noteq> CHR '':'' then None
          else
            let ws = takeWhile isSpace r2; r3 = dropWhile isSpace r2
            in if r3 \<noteq> [] \<and> hd r3 \<noteq> CHR '';'' then Some (takeWhile (\<lambda>x. x \<noteq> CHR '';'') r3)
               else if ws \<noteq> [] then Some [last ws]
               else None)"

text \<open>
  \<open>s.match(/name\s*:\s*([^;]+)/i)\<close>: the capture group of the leftmost match. With
  \<open>guarded\<close> the pattern is \<open>(?:^|[^-])name...\<close>: the name must stand at the start of
  the string or after a character other than a hyphen; \<open>ok\<close> says whether the current
  position is such a place.
\<close>

fun findDecl :: "string \<Rightarrow> bool \<Rightarrow> bool \<Rightarrow> string \<Rightarrow> string option" where
  "findDecl name guarded ok [] = None"
| "findDecl name guarded ok (c # cs) =
     (case (if (\<not> guarded \<or> ok) \<and> startsWithCI name (c # cs)
            then declValue (drop (length name) (c # cs)) else None) of
        Some v \<Rightarrow> Some v
      | None \<Rightarrow> findDecl name guarded (c \<noteq> CHR ''-'') cs)"

definition matchFill :: "string \<Rightarrow> string option" where
  "matchFill s = findDecl ''fill'' False True s"

definition matchStroke :: "string \<Rightarrow> string option" where
  "matchStroke s = findDecl ''stroke'' True True s"

definition matchStrokeWidth :: "string \<Rightarrow> string option" where
  "matchStrokeWidth s = findDecl ''stroke-width'' False True s"

text \<open>A value in a condition: \<open>null\<close> and the empty string are falsy.\<close>

definition truthy :: "string option \<Rightarrow> bool" where
  "truthy v \<longleftrightarrow> (case v of None \<Rightarrow> False | Some s \<Rightarrow> s \<noteq> [])"

section \<open>Colours\<close>

text \<open>
  \<open>normalizeColorToHex\<close> is typed \<open>string \<rightarrow> string\<close>, but its table of named colours is
  an object literal read with \<open>namedColors[c]\<close>: for the keys \<open>constructor\<close> and
  \<open>__proto__\<close> (the only all-lower-case members of \<open>Object.prototype\<close>) the lookup
  finds the inherited member, which is truthy and is returned. So the values that flow
  where the source says \<open>string\<close> are strings or one of these two objects. \<open>Beyond\<close>
  stands for a string \<open>#...\<close> built from an \<open>rgb(...)\<close> channel that the model of
  \<open>parseInt\<close> does not read: the model does not say which string it is.
\<close>

datatype jsval = Str string | Proto string | Beyond

definition namedColors :: "string \<Rightarrow> jsval option" where
  "namedColors c =
     (case map_of [(''black'', ''#000000''), (''white'', ''#ffffff''), (''red'', ''#ff0000''),
                   (''green'', ''#00ff00''), (''blue'', ''#0000ff''), (''lime'', ''#00ff00''),
                   (''none'', ''none''), (''transparent'', ''none'')] c of
        Some v \<Rightarrow> Some (Str v)
      | None \<Rightarrow> if c = ''constructor'' \<or> c = ''__proto__'' then Some (Proto c) else None)"

text \<open>
  \<open>parseInt\<close> of a run of decimal digits, and \<open>toString(16).padStart(2, '0')\<close>. The
  result of \<open>parseInt\<close> is a double: below \<open>2^53\<close> it is the integer that the digits denote,
  and \<open>toString(16)\<close> writes it in lower-case hexadecimal digits. From \<open>2^53\<close> on the
  integer is rounded (past 20 significant digits in a way the language leaves to the
  implementation) and from about \<open>2^1024\<close> on it is \<open>Infinity\<close>, which \<open>toString(16)\<close>
  writes as \<open>Infinity\<close>. The model reads a number only where the digits alone show that
  it is exact: a run with at most 15 significant digits denotes an integer below
  \<open>10^15 < 2^53\<close>. For a longer run \<open>parseInt\<close> is \<open>None\<close>.
\<close>

definition digitVal :: "char \<Rightarrow> nat" where
  "digitVal c = (of_char c :: nat) - 48"

definition decimalValue :: "string \<Rightarrow> nat" where
  "decimalValue ds = foldl (\<lambda>acc c. acc * 10 + digitVal c) 0 ds"

definition parseInt :: "string \<Rightarrow> nat option" where
  "parseInt ds = (if length (dropWhile (\<lambda>c. c = CHR ''0'') ds) \<le> 15
                  then Some (decimalValue ds) else None)"

definition hexDigit :: "nat \<Rightarrow> char" where
  "hexDigit d = (if d < 10 then char_of (48 + d) else char_of (87 + d))"

fun toHex :: "nat \<Rightarrow> string" where
  "toHex n = (if n < 16 then [hexDigit n] else toHex (n div 16) @ [hexDigit (n mod 16)])"

definition padStart2 :: "string \<Rightarrow> string" where
  "padStart2 s = replicate (2 - length s) (CHR ''0'') @ s"

text \<open>The pattern \<open>rgb\s*\(\s*(\d+)\s*,\s*(\d+)\s*,\s*(\d+)\s*\)\<close> at the start of a
  string, and its leftmost match in a string.\<close>

definition rgbNumber :: "string \<Rightarrow> (nat option \<times> string) option" where
  "rgbNumber s =
     (let s1 = dropWhile isSpace s; ds = takeWhile isDigit s1
      in if ds = [] then None else Some (parseInt ds, dropWhile isSpace (dropWhile isDigit s1)))"

definition expectChar :: "char \<Rightarrow> string \<Rightarrow> string option" where
  "expectChar c s = (case s of [] \<Rightarrow> None | x # r \<Rightarrow> if x = c then Some r else None)"

definition rgbAt :: "string \<Rightarrow> (nat option \<times> nat option \<times> nat option) option" where
  "rgbAt s =
     (if take 3 s \<noteq> ''rgb'' then None
      else case expectChar (CHR ''('') (dropWhile isSpace (drop 3 s)) of
        None \<Rightarrow> None
      | Some s1 \<Rightarrow>
         (case rgbNumber s1 of None \<Rightarrow> None | Some (r, s2) \<Rightarrow>
          (case expectChar (CHR '','') s2 of None \<Rightarrow> None | Some s3 \<Rightarrow>
           (case rgbNumber s3 of None \<Rightarrow> None | Some (g, s4) \<Rightarrow>
            (case expectChar (CHR '','') s4 of None \<Rightarrow> None | Some s5 \<Rightarrow>
             (case rgbNumber s5 of None \<Rightarrow> None | Some (b, s6) \<Rightarrow>
              (case expectChar (CHR '')'') s6 of None \<Rightarrow> None | Some s7 \<Rightarrow> Some (r, g, b))))))))"

fun matchRgb :: "string \<Rightarrow> (nat option \<times> nat option \<times> nat option) option" where
  "matchRgb [] = None"
| "matchRgb (c # cs) = (case rgbAt (c # cs) of Some v \<Rightarrow> Some v | None \<Rightarrow> matchRgb cs)"

definition normalizeString :: "string \<Rightarrow> jsval" where
  "normalizeString colour =
     (let c = toLowerCase (trim colour)
      in if take 1 c = ''#'' then
           (if length c = 4
            then Str (CHR ''#'' # [c ! 1, c ! 1, c ! 2, c ! 2, c ! 3, c ! 3])
            else Str c)
         else case namedColors c of
           Some v \<Rightarrow> v
         | None \<Rightarrow>
            (case matchRgb c of
               Some (r, g, b) \<Rightarrow>
                 if r \<noteq> None \<and> g \<noteq> None \<and> b \<noteq> None
                 then Str (CHR ''#'' # padStart2 (toHex (the r)) @ padStart2 (toHex (the g))
                             @ padStart2 (toHex (the b)))
                 else Beyond
             | None \<Rightarrow> Str c))"

text \<open>\<open>normalizeColorToHex\<close> on a run-time value: \<open>color.trim()\<close> throws on an object.
  The result is a value the model knows, or the run leaves the model.\<close>

definition normalizeColorToHex :: "jsval \<Rightarrow> error + jsval" where
  "normalizeColorToHex colour =
     (case colour of
        Str s \<Rightarrow> (case normalizeString s of Beyond \<Rightarrow> Inl NotModelled | v \<Rightarrow> Inr v)
      | Proto k \<Rightarrow> Inl TypeError
      | Beyond \<Rightarrow> Inl NotModelled)"

text \<open>The inner \<open>parse\<close> of \<open>colorsMatch\<close>: \<open>/^#([0-9a-f]{2})([0-9a-f]{2})([0-9a-f]{2})$/i\<close>
  and \<open>parseInt(.., 16)\<close>.\<close>

definition isHexDigit :: "char \<Rightarrow> bool" where
  "isHexDigit c \<longleftrightarrow> isDigit c \<or> (let n = (of_char (lowerChar c) :: nat) in 97 \<le> n \<and> n \<le> 102)"

definition hexVal :: "char \<Rightarrow> nat" where
  "hexVal c = (if isDigit c then digitVal c else (of_char (lowerChar c) :: nat) - 87)"

definition parseHexColour :: "string \<Rightarrow> (nat \<times> nat \<times> nat) option" where
  "parseHexColour h =
     (if length h = 7 \<and> hd h = CHR ''#'' \<and> list_all isHexDigit (tl h)
      then Some (hexVal (h ! 1) * 16 + hexVal (h ! 2),
                 hexVal (h ! 3) * 16 + hexVal (h ! 4),
                 hexVal (h ! 5) * 16 + hexVal (h ! 6))
      else None)"

definition absDiff :: "nat \<Rightarrow> nat \<Rightarrow> nat" where
  "absDiff a b = (if a \<le> b then b - a else a - b)"

definition colorsMatch :: "jsval \<Rightarrow> jsval \<Rightarrow> error + bool" where
  "colorsMatch color1 color2 =
     (case normalizeColorToHex color1 of
        Inl e \<Rightarrow> Inl e
      | Inr c1 \<Rightarrow>
         (case normalizeColorToHex color2 of
            Inl e \<Rightarrow> Inl e
          | Inr c2 \<Rightarrow>
             if c1 = c2 then Inr True
             else (case (c1, c2) of
                (Str s1, Str s2) \<Rightarrow>
                  if toLowerCase s1 = toLowerCase s2 then Inr True
                  else (case (parseHexColour s1, parseHexColour s2) of
                     (Some (r1, g1, b1), Some (r2, g2, b2)) \<Rightarrow>
                       Inr (absDiff r1 r2 \<le> 10 \<and> absDiff g1 g2 \<le> 10 \<and> absDiff b1 b2 \<le> 10)
                   | _ \<Rightarrow> Inr False)
              | _ \<Rightarrow> Inl TypeError)))"

section \<open>Layer rules\<close>

datatype Visibility = Hidden | ShowBlack | ShowColor

datatype RenderMode = Fill | Stroke

record LayerConfig =
  color :: string
  visibility :: Visibility
  renderMode :: RenderMode
  outputColor :: "string option"

text \<open>The loop of \<open>findLayerConfig\<close>, and the function.\<close>

fun firstMatching :: "jsval \<Rightarrow> LayerConfig list \<Rightarrow> error + LayerConfig option" where
  "firstMatching normalized [] = Inr None"
| "firstMatching normalized (layer # layers) =
     (case colorsMatch normalized (Str (color layer)) of
        Inl e \<Rightarrow> Inl e
      | Inr True \<Rightarrow> Inr (Some layer)
      | Inr False \<Rightarrow> firstMatching normalized layers)"

definition findLayerConfig :: "string \<Rightarrow> LayerConfig list \<Rightarrow> error + LayerConfig option" where
  "findLayerConfig colour layers =
     (let normalized = normalizeString colour
      in if normalized = Str ''none'' \<or> normalized = Str [] then Inr None
         else firstMatching normalized layers)"

section \<open>Documents and style resolution\<close>

text \<open>
  A DOM tree: an element has a tag name, its attributes in document order and its
  children. Tag names carry no namespace prefix, so \<open>tagName\<close> and the local name that
  a selector matches are the same string.
\<close>

datatype node = Element string "(string \<times> string) list" "node list" | TextNode string

type_synonym attrs = "(string \<times> string) list"

definition getAttribute :: "attrs \<Rightarrow> string \<Rightarrow> string option" where
  "getAttribute a name = map_of a name"

definition setAttribute :: "string \<Rightarrow> string \<Rightarrow> attrs \<Rightarrow> attrs" where
  "setAttribute name v a = AList.update name v a"

definition removeAttribute :: "string \<Rightarrow> attrs \<Rightarrow> attrs" where
  "removeAttribute name a = AList.delete name a"

text \<open>All elements of a forest in document order: what \<open>querySelectorAll\<close> walks
  through. An element is identified by its position in this list.\<close>

fun elements :: "node list \<Rightarrow> node list" where
  "elements [] = []"
| "elements (TextNode s # ns) = elements ns"
| "elements (Element t a cs # ns) = Element t a cs # elements cs @ elements ns"

fun tagOf :: "node \<Rightarrow> string" where
  "tagOf (Element t a cs) = t"
| "tagOf (TextNode s) = []"

fun attrsOf :: "node \<Rightarrow> attrs" where
  "attrsOf (Element t a cs) = a"
| "attrsOf (TextNode s) = []"

fun childrenOf :: "node \<Rightarrow> node list" where
  "childrenOf (Element t a cs) = cs"
| "childrenOf (TextNode s) = []"

definition querySelectorAll :: "string list \<Rightarrow> node list \<Rightarrow> (nat \<times> node) list" where
  "querySelectorAll tags ns =
     filter (\<lambda>(i, n). tagOf n \<in> set tags) (zip [0 ..< length (elements ns)] (elements ns))"

definition querySelector :: "string \<Rightarrow> node list \<Rightarrow> node option" where
  "querySelector t ns = (case querySelectorAll [t] ns of [] \<Rightarrow> None | (i, n) # r \<Rightarrow> Some n)"

record ParsedStyleRule =
  ruleFill :: "string option"
  ruleStroke :: "string option"
  ruleStrokeWidth :: "string option"

type_synonym styleMap = "string \<Rightarrow> ParsedStyleRule option"

text \<open>
  \<open>parseSvgStyleBlock\<close>. The first \<open><style ...>...</style>\<close> of the text
  (\<open>/<style[^>]*>([\s\S]*?)<\/style>/i\<close>), then every rule
  \<open>/\.([a-zA-Z0-9_-]+)\s*\{([^}]+)\}/g\<close> in it, a later rule of the same class
  replacing an earlier one.
\<close>

fun lazyUntilClose :: "string \<Rightarrow> string option" where
  "lazyUntilClose [] = None"
| "lazyUntilClose (c # cs) =
     (if startsWithCI ''</style>'' (c # cs) then Some []
      else map_option ((#) c) (lazyUntilClose cs))"

definition styleBlockAt :: "string \<Rightarrow> string option" where
  "styleBlockAt s =
     (if startsWithCI ''<style'' s
      then (case dropWhile (\<lambda>x. x \<noteq> CHR ''>'') (drop 6 s) of
              [] \<Rightarrow> None
            | gt # content \<Rightarrow> lazyUntilClose content)
      else None)"

fun matchStyleBlock :: "string \<Rightarrow> string option" where
  "matchStyleBlock [] = None"
| "matchStyleBlock (c # cs) =
     (case styleBlockAt (c # cs) of Some css \<Rightarrow> Some css | None \<Rightarrow> matchStyleBlock cs)"

definition isClassChar :: "char \<Rightarrow> bool" where
  "isClassChar c \<longleftrightarrow> isWordChar c \<or> c = CHR ''-''"

text \<open>The rule pattern at a position: the class name, the declarations and the length
  of the whole match.\<close>

definition ruleAt :: "string \<Rightarrow> (string \<times> string \<times> nat) option" where
  "ruleAt s =
     (case s of
        [] \<Rightarrow> None
      | dot # r \<Rightarrow>
          if dot \<noteq> CHR ''.'' then None
          else
            let name = takeWhile isClassChar r;
                r1 = dropWhile isClassChar r;
                ws = takeWhile isSpace r1;
                r2 = dropWhile isSpace r1
            in if name = [] then None
               else (case r2 of
                  [] \<Rightarrow> None
                | brace # r3 \<Rightarrow>
                    if brace \<noteq> CHR ''{'' then None
                    else
                      let body = takeWhile (\<lambda>x. x \<noteq> CHR ''}'') r3;
                          r4 = dropWhile (\<lambda>x. x \<noteq> CHR ''}'') r3
                      in if body = [] \<or> r4 = [] then None
                         else Some (name, body, 1 + length name + length ws + 1 + length body + 1)))"

text \<open>The \<open>while ((match = ruleRegex.exec(cssText)) !== null)\<close> loop: after a match
  the search resumes behind it (\<open>skip\<close> counts the characters of the match still to
  pass).\<close>

fun scanRules :: "nat \<Rightarrow> string \<Rightarrow> (string \<times> string) list" where
  "scanRules skip [] = []"
| "scanRules skip (c # cs) =
     (if skip > 0 then scanRules (skip - 1) cs
      else (case ruleAt (c # cs) of
              Some (name, body, len) \<Rightarrow> (name, body) # scanRules (len - 1) cs
            | None \<Rightarrow> scanRules 0 cs))"

definition parseRule :: "string \<Rightarrow> ParsedStyleRule" where
  "parseRule declarations =
     \<lparr> ruleFill = map_option trim (matchFill declarations),
       ruleStroke = map_option trim (matchStroke declarations),
       ruleStrokeWidth = map_option trim (matchStrokeWidth declarations) \<rparr>"

definition parseSvgStyleBlock :: "string \<Rightarrow> styleMap" where
  "parseSvgStyleBlock svgText =
     (case matchStyleBlock svgText of
        None \<Rightarrow> Map.empty
      | Some cssText \<Rightarrow>
          map_of (rev (map (\<lambda>(name, body). (name, parseRule body)) (scanRules 0 cssText))))"

record ElementColors =
  ecFill :: "string option"
  ecStroke :: "string option"
  ecStrokeWidth :: "string option"

text \<open>\<open>getElementColors\<close>: the class rules in the order of the class list, then the
  inline style, then the plain attributes where nothing truthy was found.\<close>

definition applyClassRule :: "styleMap \<Rightarrow> string \<Rightarrow> ElementColors \<Rightarrow> ElementColors" where
  "applyClassRule sm cls c =
     (case sm cls of
        None \<Rightarrow> c
      | Some rule \<Rightarrow>
          \<lparr> ecFill = (if truthy (ruleFill rule) then ruleFill rule else ecFill c),
            ecStroke = (if truthy (ruleStroke rule) then ruleStroke rule else ecStroke c),
            ecStrokeWidth = (if truthy (ruleStrokeWidth rule) then ruleStrokeWidth rule
                             else ecStrokeWidth c) \<rparr>)"

definition orElse :: "string option \<Rightarrow> string option \<Rightarrow> string option" where
  "orElse found old = (case found of None \<Rightarrow> old | Some v \<Rightarrow> Some (trim v))"

definition orAttribute :: "string option \<Rightarrow> string option \<Rightarrow> string option" where
  "orAttribute cur attr = (if \<not> truthy cur \<and> truthy attr then attr else cur)"

definition getElementColors :: "styleMap \<Rightarrow> attrs \<Rightarrow> ElementColors" where
  "getElementColors sm a =
     (let c0 = \<lparr> ecFill = None, ecStroke = None, ecStrokeWidth = None \<rparr>;
          c1 = (case getAttribute a ''class'' of
                  None \<Rightarrow> c0
                | Some classAttr \<Rightarrow>
                    if classAttr = [] then c0
                    else fold (applyClassRule sm) (splitRuns isSpace classAttr) c0);
          c2 = (case getAttribute a ''style'' of
                  None \<Rightarrow> c1
                | Some styleAttr \<Rightarrow>
                    if styleAttr = [] then c1
                    else \<lparr> ecFill = orElse (matchFill styleAttr) (ecFill c1),
                           ecStroke = orElse (matchStroke styleAttr) (ecStroke c1),
                           ecStrokeWidth = orElse (matchStrokeWidth styleAttr) (ecStrokeWidth c1) \<rparr>)
      in \<lparr> ecFill = orAttribute (ecFill c2) (getAttribute a ''fill''),
           ecStroke = orAttribute (ecStroke c2) (getAttribute a ''stroke''),
           ecStrokeWidth = orAttribute (ecStrokeWidth c2) (getAttribute a ''stroke-width'') \<rparr>)"

text \<open>\<open>isClosedPath\<close>: \<open>/[zZ]\s*$/.test(d) || /[zZ]\b/.test(d)\<close>.\<close>

definition isZ :: "char \<Rightarrow> bool" where
  "isZ c \<longleftrightarrow> c = CHR ''z'' \<or> c = CHR ''Z''"

fun zBeforeEnd :: "string \<Rightarrow> bool" where
  "zBeforeEnd [] = False"
| "zBeforeEnd (c # cs) = ((isZ c \<and> list_all isSpace cs) \<or> zBeforeEnd cs)"

fun zAtWordBoundary :: "string \<Rightarrow> bool" where
  "zAtWordBoundary [] = False"
| "zAtWordBoundary (c # cs) = ((isZ c \<and> (cs = [] \<or> \<not> isWordChar (hd cs))) \<or> zAtWordBoundary cs)"

definition isClosedPath :: "string option \<Rightarrow> bool" where
  "isClosedPath d = (case d of None \<Rightarrow> False
                     | Some s \<Rightarrow> s \<noteq> [] \<and> (zBeforeEnd s \<or> zAtWordBoundary s))"

section \<open>The layer transform\<close>

text \<open>A resolved paint that is present and not \<open>none\<close>.\<close>

definition visiblePaint :: "string option \<Rightarrow> bool" where
  "visiblePaint v \<longleftrightarrow> (case v of None \<Rightarrow> False | Some s \<Rightarrow> s \<noteq> [] \<and> toLowerCase s \<noteq> ''none'')"

definition orDefault :: "string option \<Rightarrow> string \<Rightarrow> string" where
  "orDefault v d = (case v of None \<Rightarrow> d | Some s \<Rightarrow> if s = [] then d else s)"

definition canFill :: "string \<Rightarrow> attrs \<Rightarrow> bool" where
  "canFill t a \<longleftrightarrow> t = ''circle'' \<or> t = ''ellipse'' \<or> t = ''rect'' \<or> t = ''polygon''
                    \<or> (t = ''path'' \<and> isClosedPath (getAttribute a ''d''))"

text \<open>
  The two branches of "apply render mode" (lines 1026 to 1056 of exportPanels.ts), as
  the sequence of \<open>setAttribute\<close> calls each path performs. In fill mode the last call,
  \<open>el.setAttribute('stroke', 'none')\<close>, stands after the whole \<open>if / else if\<close> and so
  runs on every path, also after the branch that keeps an open shape as a stroke.
\<close>

definition applyRenderMode ::
  "RenderMode \<Rightarrow> string \<Rightarrow> bool \<Rightarrow> bool \<Rightarrow> ElementColors \<Rightarrow> string \<Rightarrow> attrs \<Rightarrow> attrs" where
  "applyRenderMode mode t hasFill hasStroke colors targetColor a =
     (case mode of
        Fill \<Rightarrow>
          setAttribute ''stroke'' ''none''
            (if hasFill then setAttribute ''fill'' targetColor a
             else if hasStroke then
               (if canFill (toLowerCase t) a then setAttribute ''fill'' targetColor a
                else setAttribute ''stroke-width'' (orDefault (ecStrokeWidth colors) ''0.5'')
                       (setAttribute ''stroke'' targetColor (setAttribute ''fill'' ''none'' a)))
             else a)
      | Stroke \<Rightarrow>
          if hasFill
          then setAttribute ''stroke-width'' (orDefault (ecStrokeWidth colors) ''1'')
                 (setAttribute ''stroke'' targetColor (setAttribute ''fill'' ''none'' a))
          else setAttribute ''stroke-width'' (orDefault (ecStrokeWidth colors) ''0.5'')
                 (setAttribute ''stroke'' targetColor (setAttribute ''fill'' ''none'' a)))"

text \<open>Passthrough: the resolved paints written back as plain attributes.\<close>

definition setIfTruthy :: "string \<Rightarrow> string option \<Rightarrow> attrs \<Rightarrow> attrs" where
  "setIfTruthy name v a = (case v of None \<Rightarrow> a | Some s \<Rightarrow> if s = [] then a else setAttribute name s a)"

definition inlineColors :: "ElementColors \<Rightarrow> attrs \<Rightarrow> attrs" where
  "inlineColors colors a =
     setIfTruthy ''stroke-width'' (ecStrokeWidth colors)
       (setIfTruthy ''stroke'' (ecStroke colors)
         (setIfTruthy ''fill'' (ecFill colors) a))"

text \<open>The rule lookup of rule mode: by the primary colour, then (when that found
  nothing and the element has a visible stroke) by the stroke colour, which then
  becomes the primary colour.\<close>

definition lookupLayer ::
  "string \<Rightarrow> bool \<Rightarrow> string option \<Rightarrow> LayerConfig list \<Rightarrow> error + (LayerConfig \<times> string) option" where
  "lookupLayer primaryColor hasStroke strokeColor layers =
     (case findLayerConfig primaryColor layers of
        Inl e \<Rightarrow> Inl e
      | Inr (Some cfg) \<Rightarrow> Inr (Some (cfg, primaryColor))
      | Inr None \<Rightarrow>
          (case (hasStroke, strokeColor) of
             (True, Some s) \<Rightarrow>
               (case findLayerConfig s layers of
                  Inl e \<Rightarrow> Inl e
                | Inr (Some cfg) \<Rightarrow> Inr (Some (cfg, s))
                | Inr None \<Rightarrow> Inr None)
           | _ \<Rightarrow> Inr None))"

definition targetColorOf :: "LayerConfig \<Rightarrow> string \<Rightarrow> error + string" where
  "targetColorOf cfg primaryColor =
     (if truthy (outputColor cfg) then Inr (the (outputColor cfg))
      else if visibility cfg = ShowBlack then Inr ''#000000''
      else (case normalizeString primaryColor of
              Str t \<Rightarrow> Inr t | Proto k \<Rightarrow> Inl TypeError | Beyond \<Rightarrow> Inl NotModelled))"

text \<open>
  The body of \<open>candidates.forEach\<close> for one element that is not a group: the new
  attribute list, or \<open>None\<close> when the element is pushed on \<open>elementsToRemove\<close>.
  (\<open>targetColorOf\<close> cannot fail here: a colour that matched a rule normalizes to a
  string, see \<open>findLayerConfig_Str\<close> below.)
\<close>

definition processElement ::
  "styleMap \<Rightarrow> LayerConfig list option \<Rightarrow> string \<Rightarrow> attrs \<Rightarrow> error + attrs option" where
  "processElement sm layers t a =
     (let colors = getElementColors sm a;
          a0 = removeAttribute ''style'' (removeAttribute ''class'' a)
      in case layers of
           None \<Rightarrow> Inr (Some (inlineColors colors a0))
         | Some ls \<Rightarrow>
            (let hasFill = visiblePaint (ecFill colors);
                 hasStroke = visiblePaint (ecStroke colors);
                 primaryColor = (if hasFill then ecFill colors
                                 else if hasStroke then ecStroke colors else None)
             in case primaryColor of
                  None \<Rightarrow> Inr (Some a0)
                | Some p \<Rightarrow>
                   (case lookupLayer p hasStroke (ecStroke colors) ls of
                      Inl e \<Rightarrow> Inl e
                    | Inr None \<Rightarrow> Inr None
                    | Inr (Some (cfg, primary)) \<Rightarrow>
                        if visibility cfg = Hidden then Inr None
                        else (case targetColorOf cfg primary of
                                Inl e \<Rightarrow> Inl e
                              | Inr targetColor \<Rightarrow>
                                  Inr (Some (applyRenderMode (renderMode cfg) t hasFill hasStroke
                                               colors targetColor a0))))))"

definition shapeTags :: "string list" where
  "shapeTags = [''path'', ''rect'', ''circle'', ''ellipse'', ''polygon'', ''polyline'',
                ''line'', ''text'', ''use'']"

definition candidateTags :: "string list" where
  "candidateTags = shapeTags @ [''g'']"

text \<open>
  \<open>candidates.forEach(...)\<close> followed by \<open>elementsToRemove.forEach(el => el.remove())\<close>,
  as one pass over the tree: every candidate that is not a group is processed (also
  inside an element that will be removed, since an exception there aborts the call),
  and a marked element goes with its subtree.
\<close>

fun processNode :: "styleMap \<Rightarrow> LayerConfig list option \<Rightarrow> node \<Rightarrow> error + node option"
  and processNodes :: "styleMap \<Rightarrow> LayerConfig list option \<Rightarrow> node list \<Rightarrow> error + node list" where
  "processNode sm layers (TextNode s) = Inr (Some (TextNode s))"
| "processNode sm layers (Element t a cs) =
     (case processNodes sm layers cs of
        Inl e \<Rightarrow> Inl e
      | Inr cs' \<Rightarrow>
          if t \<in> set candidateTags \<and> toLowerCase t \<noteq> ''g''
          then (case processElement sm layers t a of
                  Inl e \<Rightarrow> Inl e
                | Inr None \<Rightarrow> Inr None
                | Inr (Some a') \<Rightarrow> Inr (Some (Element t a' cs')))
          else Inr (Some (Element t a cs')))"
| "processNodes sm layers [] = Inr []"
| "processNodes sm layers (n # ns) =
     (case processNode sm layers n of
        Inl e \<Rightarrow> Inl e
      | Inr r \<Rightarrow>
         (case processNodes sm layers ns of
            Inl e \<Rightarrow> Inl e
          | Inr ns' \<Rightarrow> Inr (case r of None \<Rightarrow> ns' | Some n' \<Rightarrow> n' # ns')))"

text \<open>\<open>imported.querySelector('style')\<close> and \<open>styleEl.remove()\<close>: the first \<open>style\<close>
  element in document order goes, with its subtree.\<close>

fun removeFirst :: "string \<Rightarrow> node list \<Rightarrow> node list option" where
  "removeFirst t [] = None"
| "removeFirst t (TextNode s # ns) = map_option ((#) (TextNode s)) (removeFirst t ns)"
| "removeFirst t (Element t' a cs # ns) =
     (if t' = t then Some ns
      else (case removeFirst t cs of
              Some cs' \<Rightarrow> Some (Element t' a cs' # ns)
            | None \<Rightarrow> map_option ((#) (Element t' a cs)) (removeFirst t ns)))"

definition removeStyleElement :: "node list \<Rightarrow> node list" where
  "removeStyleElement ns = (case removeFirst ''style'' ns of None \<Rightarrow> ns | Some ns' \<Rightarrow> ns')"

text \<open>The clean-up of rule mode: every \<open>g\<close> without a shape among its descendants is
  removed.\<close>

fun containsShape :: "node list \<Rightarrow> bool" where
  "containsShape [] = False"
| "containsShape (TextNode s # ns) = containsShape ns"
| "containsShape (Element t a cs # ns) = (t \<in> set shapeTags \<or> containsShape cs \<or> containsShape ns)"

fun removeEmptyGroups :: "node list \<Rightarrow> node list" where
  "removeEmptyGroups [] = []"
| "removeEmptyGroups (TextNode s # ns) = TextNode s # removeEmptyGroups ns"
| "removeEmptyGroups (Element t a cs # ns) =
     (if t = ''g'' \<and> \<not> containsShape cs then removeEmptyGroups ns
      else Element t a (removeEmptyGroups cs) # removeEmptyGroups ns)"

text \<open>
  Lines 929 to 1069 of \<open>processLayersForPanel\<close>, the layer transform proper: drop the
  style block, process the candidates, remove the marked elements and, in rule mode,
  the groups left empty.
\<close>

definition layerTransform :: "styleMap \<Rightarrow> LayerConfig list option \<Rightarrow> node list \<Rightarrow> error + node list" where
  "layerTransform sm layers kids =
     (case processNodes sm layers (removeStyleElement kids) of
        Inl e \<Rightarrow> Inl e
      | Inr kids' \<Rightarrow> Inr (if layers \<noteq> None then removeEmptyGroups kids' else kids'))"

section \<open>The browser\<close>

text \<open>
  What the source asks of the browser, as parameters of the model:
  \<^item> \<open>domParse\<close>: \<open>new DOMParser().parseFromString(text, 'image/svg+xml')\<close>, the
    document element of the result (for malformed markup a document that contains a
    \<open>parsererror\<close> element);
  \<^item> \<open>toNumber\<close> and \<open>parseFloatJS\<close>: \<open>Number(s)\<close> and \<open>Number.parseFloat(s)\<close>, \<open>None\<close>
    for NaN and the infinities;
  \<^item> \<open>numberToString\<close>: \<open>String(x)\<close> of a number;
  \<^item> \<open>getBBox\<close>: the bounding box of an element as \<open>safeGetBBox\<close> returns it, \<open>None\<close>
    when \<open>getBBox()\<close> throws or a coordinate is not finite. The box is taken to
    depend on the element and its subtree only.
\<close>

record Browser =
  domParse :: "string \<Rightarrow> node"
  toNumber :: "string \<Rightarrow> num option"
  parseFloatJS :: "string \<Rightarrow> num option"
  numberToString :: "num \<Rightarrow> string"
  getBBox :: "node \<Rightarrow> Box option"

definition isNumberChar :: "char \<Rightarrow> bool" where
  "isNumberChar c \<longleftrightarrow> isDigit c \<or> c = CHR ''.'' \<or> c = CHR ''+'' \<or> c = CHR ''-''"

definition attrFloat :: "Browser \<Rightarrow> string option \<Rightarrow> num option" where
  "attrFloat br v = (if truthy v then parseFloatJS br (filter isNumberChar (the v)) else None)"

definition getSvgViewBox :: "Browser \<Rightarrow> attrs \<Rightarrow> Box option" where
  "getSvgViewBox br a =
     (let fromViewBox =
            (case getAttribute a ''viewBox'' of
               None \<Rightarrow> None
             | Some vb \<Rightarrow>
                 if vb = [] then None
                 else (case map (toNumber br) (splitRuns (\<lambda>c. isSpace c \<or> c = CHR '','') vb) of
                         [Some x, Some y, Some w, Some h] \<Rightarrow>
                           if w > 0 \<and> h > 0
                           then Some \<lparr> boxX = x, boxY = y, boxWidth = w, boxHeight = h \<rparr>
                           else None
                       | _ \<Rightarrow> None))
      in case fromViewBox of
           Some b \<Rightarrow> Some b
         | None \<Rightarrow>
            (case (attrFloat br (getAttribute a ''width''), attrFloat br (getAttribute a ''height'')) of
               (Some w, Some h) \<Rightarrow>
                 if w > 0 \<and> h > 0
                 then Some \<lparr> boxX = 0, boxY = 0, boxWidth = w, boxHeight = h \<rparr>
                 else None
             | _ \<Rightarrow> None))"

section \<open>Edits addressed by position\<close>

text \<open>
  The geometry heuristics pick elements out of a \<open>querySelectorAll\<close> list and then
  change or remove exactly those. An element is addressed by its index in
  \<open>elements\<close>; \<open>applyEdits\<close> walks the forest in the same order, counting.
\<close>

datatype edit = Keep | Remove | SetAttrs attrs

fun subtreeSize :: "node \<Rightarrow> nat" where
  "subtreeSize (TextNode s) = 0"
| "subtreeSize (Element t a cs) = Suc (sum_list (map subtreeSize cs))"

fun applyEdits :: "(nat \<Rightarrow> edit) \<Rightarrow> nat \<Rightarrow> node list \<Rightarrow> node list" where
  "applyEdits f i [] = []"
| "applyEdits f i (TextNode s # ns) = TextNode s # applyEdits f i ns"
| "applyEdits f i (Element t a cs # ns) =
     (case f i of
        Remove \<Rightarrow> applyEdits f (i + subtreeSize (Element t a cs)) ns
      | Keep \<Rightarrow> Element t a (applyEdits f (Suc i) cs)
                 # applyEdits f (i + subtreeSize (Element t a cs)) ns
      | SetAttrs a' \<Rightarrow> Element t a' (applyEdits f (Suc i) cs)
                 # applyEdits f (i + subtreeSize (Element t a cs)) ns)"

definition removeAt :: "nat list \<Rightarrow> node list \<Rightarrow> node list" where
  "removeAt is ns = applyEdits (\<lambda>j. if j \<in> set is then Remove else Keep) 0 ns"

section \<open>Ornament hole heuristics\<close>

text \<open>\<open>splitPathIntoSubpaths\<close>: \<open>d.trim().split(/(?=[Mm])/g).map(trim).filter(Boolean)\<close>.
  The split is before every \<open>M\<close> or \<open>m\<close> that is not the first character.\<close>

definition isMove :: "char \<Rightarrow> bool" where
  "isMove c \<longleftrightarrow> c = CHR ''M'' \<or> c = CHR ''m''"

fun splitBeforeM :: "string \<Rightarrow> string list" where
  "splitBeforeM [] = [[]]"
| "splitBeforeM (c # cs) =
     (if cs \<noteq> [] \<and> isMove (hd cs) then [c] # splitBeforeM cs
      else (case splitBeforeM cs of [] \<Rightarrow> [[c]] | w # ws \<Rightarrow> (c # w) # ws))"

definition splitPathIntoSubpaths :: "string \<Rightarrow> string list" where
  "splitPathIntoSubpaths d = filter (\<lambda>seg. seg \<noteq> []) (map trim (splitBeforeM (trim d)))"

definition measurePathBBoxForD :: "Browser \<Rightarrow> string \<Rightarrow> Box option" where
  "measurePathBBoxForD br d =
     getBBox br (Element ''path'' [(''d'', d), (''fill'', ''none''), (''stroke'', ''none'')] [])"

text \<open>
  The filters and the score of a subpath (method 1) and of a standalone element
  (method 2). \<open>None\<close>: the loop says \<open>continue\<close>. A box of height zero has no finite
  aspect ratio. Both are only called with a view box of positive width and height
  (\<open>getSvgViewBox\<close> returns no other).
\<close>

definition subpathScore :: "Box \<Rightarrow> Box \<Rightarrow> num option" where
  "subpathScore vb bbox =
     (let vbCx = boxX vb + boxWidth vb / 2;
          minDim = min (boxWidth vb) (boxHeight vb);
          maxDim = max (boxWidth bbox) (boxHeight bbox);
          sizeRatio = maxDim / minDim
      in if sizeRatio < 0.02 \<or> sizeRatio > 0.10 then None
         else if boxHeight bbox = 0 then None
         else
           let aspect = boxWidth bbox / boxHeight bbox
           in if aspect < 0.85 \<or> aspect > 1.18 then None
              else
                let cx = boxX bbox + boxWidth bbox / 2;
                    cy = boxY bbox + boxHeight bbox / 2;
                    dx = \<bar>cx - vbCx\<bar> / boxWidth vb;
                    dyTop = (cy - boxY vb) / boxHeight vb
                in if dx > 0.10 then None
                   else if dyTop < - 0.05 \<or> dyTop > 0.15 then None
                   else Some (dx * 2.0 + dyTop * 2.4 + \<bar>1 - aspect\<bar> * 1.2 + sizeRatio * 0.5))"

definition standaloneScore :: "Box \<Rightarrow> Box \<Rightarrow> num option" where
  "standaloneScore vb bbox =
     (let vbCx = boxX vb + boxWidth vb / 2;
          minDim = min (boxWidth vb) (boxHeight vb);
          d = max (boxWidth bbox) (boxHeight bbox)
      in if d \<le> 0 then None
         else
           let sizeRatio = d / minDim
           in if sizeRatio < 0.02 \<or> sizeRatio > 0.10 then None
              else if boxHeight bbox = 0 then None
              else
                let aspect = boxWidth bbox / boxHeight bbox
                in if aspect \<le> 0 then None
                   else if aspect < 0.85 \<or> aspect > 1.18 then None
                   else
                     let cx = boxX bbox + boxWidth bbox / 2;
                         cy = boxY bbox + boxHeight bbox / 2;
                         dx = \<bar>cx - vbCx\<bar> / boxWidth vb;
                         dyTop = (cy - boxY vb) / boxHeight vb
                     in if dx > 0.10 then None
                        else if dyTop < - 0.05 \<or> dyTop > 0.15 then None
                        else Some (dx * 2.0 + dyTop * 2.2 + \<bar>1 - aspect\<bar> * 1.2 + sizeRatio * 0.6))"

text \<open>Method 1. The candidates of one path: (path position, segment index, score).\<close>

definition subpathCandidates :: "Browser \<Rightarrow> Box \<Rightarrow> nat \<times> node \<Rightarrow> (nat \<times> nat \<times> num) list" where
  "subpathCandidates br vb p =
     (case getAttribute (attrsOf (snd p)) ''d'' of
        None \<Rightarrow> []
      | Some d \<Rightarrow>
          if d = [] then []
          else
            let segments = splitPathIntoSubpaths d
            in if length segments < 2 then []
               else concat (map (\<lambda>(k, seg).
                      if \<not> isClosedPath (Some seg) then []
                      else (case measurePathBBoxForD br seg of
                              None \<Rightarrow> []
                            | Some bbox \<Rightarrow>
                               (case subpathScore vb bbox of
                                  None \<Rightarrow> []
                                | Some score \<Rightarrow> [(fst p, k, score)])))
                    (zip [0 ..< length segments] segments)))"

text \<open>\<open>segments.splice(idx, 1)\<close> for the indices in descending order, and
  \<open>segments.join(' ')\<close>.\<close>

definition splice1 :: "nat \<Rightarrow> 'a list \<Rightarrow> 'a list" where
  "splice1 idx xs = (if idx < length xs then take idx xs @ drop (Suc idx) xs else xs)"

fun joinSpace :: "string list \<Rightarrow> string" where
  "joinSpace [] = []"
| "joinSpace [x] = x"
| "joinSpace (x # y # r) = x @ '' '' @ joinSpace (y # r)"

definition exciseSubpaths :: "nat list \<Rightarrow> attrs \<Rightarrow> edit" where
  "exciseSubpaths segIndices a =
     (case getAttribute a ''d'' of
        None \<Rightarrow> Keep
      | Some d \<Rightarrow>
          if d = [] then Keep
          else
            let segments = splitPathIntoSubpaths d
            in if length segments < 2 then Keep
               else SetAttrs (setAttribute ''d''
                      (joinSpace (fold splice1 (rev (sort segIndices)) segments)) a))"

definition removeOrnamentHoleFromPathSubpaths :: "Browser \<Rightarrow> node list \<Rightarrow> Box \<Rightarrow> node list" where
  "removeOrnamentHoleFromPathSubpaths br kids vb =
     (let paths = querySelectorAll [''path''] kids;
          allCandidates = concat (map (subpathCandidates br vb) paths);
          toRemove = take 3 (sort_key (\<lambda>(i, k, score). score) allCandidates)
      in applyEdits (\<lambda>j.
           (case map_of paths j of
              None \<Rightarrow> Keep
            | Some el \<Rightarrow>
               (case map (\<lambda>(i, k, score). k) (filter (\<lambda>(i, k, score). i = j) toRemove) of
                  [] \<Rightarrow> Keep
                | segIndices \<Rightarrow> exciseSubpaths segIndices (attrsOf el)))) 0 kids)"

text \<open>Method 2, and \<open>removeOrnamentHoleIfFound\<close>.\<close>

definition standaloneCandidates :: "Browser \<Rightarrow> Box \<Rightarrow> node list \<Rightarrow> (nat \<times> node \<times> num) list" where
  "standaloneCandidates br vb kids =
     concat (map (\<lambda>(i, el).
        if toLowerCase (tagOf el) = ''text'' then []
        else (case getBBox br el of
                None \<Rightarrow> []
              | Some bbox \<Rightarrow>
                 (case standaloneScore vb bbox of
                    None \<Rightarrow> []
                  | Some score \<Rightarrow> [(i, el, score)])))
       (querySelectorAll [''circle'', ''ellipse'', ''path'', ''rect'', ''use'', ''polygon''] kids))"

definition inTopHalf :: "Browser \<Rightarrow> Box \<Rightarrow> node \<Rightarrow> bool" where
  "inTopHalf br vb el =
     (case getBBox br el of
        None \<Rightarrow> False
      | Some bbox \<Rightarrow>
          \<not> ((boxY bbox + boxHeight bbox / 2 - boxY vb) / boxHeight vb > 0.5))"

definition removeOrnamentHoleIfFound :: "Browser \<Rightarrow> node list \<Rightarrow> Box \<Rightarrow> node list" where
  "removeOrnamentHoleIfFound br kids vb =
     (let kids1 = removeOrnamentHoleFromPathSubpaths br kids vb;
          scored = sort_key (\<lambda>(i, el, score). score) (standaloneCandidates br vb kids1);
          best = filter (\<lambda>(i, el, score). inTopHalf br vb el) (take 2 scored)
      in removeAt (map (\<lambda>(i, el, score). i) best) kids1)"

text \<open>\<open>coverOrnamentHoleWithBackground\<close>.\<close>

definition spansTopOfViewBox :: "Browser \<Rightarrow> Box \<Rightarrow> node \<Rightarrow> bool" where
  "spansTopOfViewBox br vb pathEl =
     (truthy (getAttribute (attrsOf pathEl) ''d'')
      \<and> visiblePaint (getAttribute (attrsOf pathEl) ''stroke'')
      \<and> (case getBBox br pathEl of
            None \<Rightarrow> False
          | Some bbox \<Rightarrow>
              \<not> (boxY bbox > boxY vb + boxHeight vb * 0.15)
              \<and> \<not> (max (boxWidth bbox) (boxHeight bbox) / min (boxWidth vb) (boxHeight vb) < 0.7)))"

definition coverCircle :: "Browser \<Rightarrow> Box \<Rightarrow> node" where
  "coverCircle br vb =
     Element ''circle''
       [(''cx'', numberToString br (boxX vb + boxWidth vb / 2)),
        (''cy'', numberToString br (boxY vb + boxHeight vb * 0.06)),
        (''r'', numberToString br (min (boxWidth vb) (boxHeight vb) * 0.05)),
        (''fill'', ''#ffffff''), (''stroke'', ''none''), (''data-hole-cover'', ''true'')] []"

definition coverOrnamentHoleWithBackground :: "Browser \<Rightarrow> node list \<Rightarrow> Box \<Rightarrow> node list" where
  "coverOrnamentHoleWithBackground br kids vb =
     (if list_ex (\<lambda>(i, pathEl). spansTopOfViewBox br vb pathEl) (querySelectorAll [''path''] kids)
      then kids @ [coverCircle br vb]
      else kids)"

section \<open>Round backer\<close>

text \<open>The stroke of an element as the three cut-line loops resolve it (class rules,
  inline style, then the attribute), and the test against the cut colour.\<close>

definition classStroke :: "styleMap \<Rightarrow> string \<Rightarrow> string option \<Rightarrow> string option" where
  "classStroke sm cls cur =
     (case sm cls of
        None \<Rightarrow> cur
      | Some rule \<Rightarrow> if truthy (ruleStroke rule) then ruleStroke rule else cur)"

definition resolveStroke :: "styleMap \<Rightarrow> attrs \<Rightarrow> string option" where
  "resolveStroke sm a =
     (let s1 = (case getAttribute a ''class'' of
                  None \<Rightarrow> None
                | Some classAttr \<Rightarrow>
                    if classAttr = [] then None
                    else fold (classStroke sm) (splitRuns isSpace classAttr) None);
          s2 = (case getAttribute a ''style'' of
                  None \<Rightarrow> s1
                | Some styleAttr \<Rightarrow>
                    if styleAttr = [] then s1 else orElse (matchStroke styleAttr) s1)
      in if \<not> truthy s2 then getAttribute a ''stroke'' else s2)"

definition hasCutColour :: "styleMap \<Rightarrow> attrs \<Rightarrow> error + bool" where
  "hasCutColour sm a =
     (let stroke = resolveStroke sm a
      in if \<not> truthy stroke then Inr False
         else colorsMatch (normalizeString (the stroke)) (Str ''#0000ff''))"

fun findCutLine ::
  "Browser \<Rightarrow> styleMap \<Rightarrow> (nat \<times> node) list \<Rightarrow> (nat \<times> Box) option \<Rightarrow> error + (nat \<times> Box) option" where
  "findCutLine br sm [] best = Inr best"
| "findCutLine br sm (p # r) best =
     (case hasCutColour sm (attrsOf (snd p)) of
        Inl e \<Rightarrow> Inl e
      | Inr False \<Rightarrow> findCutLine br sm r best
      | Inr True \<Rightarrow>
         (case getBBox br (snd p) of
            None \<Rightarrow> findCutLine br sm r best
          | Some bbox \<Rightarrow>
              if boxWidth bbox \<le> 0 then findCutLine br sm r best
              else if (case best of None \<Rightarrow> True | Some (i, b) \<Rightarrow> boxWidth bbox > boxWidth b)
                   then findCutLine br sm r (Some (fst p, bbox))
                   else findCutLine br sm r best))"

definition detectCutLineBbox :: "Browser \<Rightarrow> styleMap \<Rightarrow> node list \<Rightarrow> error + Box option" where
  "detectCutLineBbox br sm kids =
     (case findCutLine br sm (querySelectorAll [''circle'', ''ellipse'', ''path''] kids) None of
        Inl e \<Rightarrow> Inl e
      | Inr best \<Rightarrow> Inr (map_option snd best))"

text \<open>The loop over \<open>allBlueElements\<close>: every \<open>circle\<close>, \<open>ellipse\<close>, \<open>path\<close> or \<open>line\<close>
  whose stroke matches the cut colour is removed.\<close>

fun removeBlue :: "styleMap \<Rightarrow> node list \<Rightarrow> error + node list" where
  "removeBlue sm [] = Inr []"
| "removeBlue sm (TextNode s # ns) =
     (case removeBlue sm ns of Inl e \<Rightarrow> Inl e | Inr ns' \<Rightarrow> Inr (TextNode s # ns'))"
| "removeBlue sm (Element t a cs # ns) =
     (case removeBlue sm cs of
        Inl e \<Rightarrow> Inl e
      | Inr cs' \<Rightarrow>
         (case removeBlue sm ns of
            Inl e \<Rightarrow> Inl e
          | Inr ns' \<Rightarrow>
              if t \<in> set [''circle'', ''ellipse'', ''path'', ''line'']
              then (case hasCutColour sm a of
                      Inl e \<Rightarrow> Inl e
                    | Inr True \<Rightarrow> Inr ns'
                    | Inr False \<Rightarrow> Inr (Element t a cs' # ns'))
              else Inr (Element t a cs' # ns')))"

definition backerCircle :: "Browser \<Rightarrow> num \<Rightarrow> num \<Rightarrow> num \<Rightarrow> num \<Rightarrow> node" where
  "backerCircle br cx cy diameter strokeWidth =
     Element ''circle''
       [(''cx'', numberToString br cx), (''cy'', numberToString br cy),
        (''r'', numberToString br (diameter / 2)),
        (''fill'', ''none''), (''stroke'', ''#000000''),
        (''stroke-width'', numberToString br strokeWidth)] []"

text \<open>The cut line that \<open>addRoundBackerOutline\<close> works with: the box handed in, or
  else the widest element of cut colour found now, with its position.\<close>

definition cutLineOf ::
  "Browser \<Rightarrow> styleMap \<Rightarrow> node list \<Rightarrow> Box option \<Rightarrow> error + (Box \<times> nat option) option" where
  "cutLineOf br sm kids preCalculatedBbox =
     (case preCalculatedBbox of
        Some b \<Rightarrow> Inr (Some (b, None))
      | None \<Rightarrow>
         (case findCutLine br sm (querySelectorAll [''circle'', ''ellipse'', ''path''] kids) None of
            Inl e \<Rightarrow> Inl e
          | Inr None \<Rightarrow> Inr None
          | Inr (Some (i, b)) \<Rightarrow> Inr (Some (b, Some i))))"

definition addRoundBackerOutline ::
  "Browser \<Rightarrow> node list \<Rightarrow> Box \<Rightarrow> styleMap \<Rightarrow> num \<Rightarrow> Box option \<Rightarrow> error + node list" where
  "addRoundBackerOutline br kids vb sm strokeWidth preCalculatedBbox =
     (case cutLineOf br sm kids preCalculatedBbox of
        Inl e \<Rightarrow> Inl e
      | Inr None \<Rightarrow>
          (let diameter = min (boxWidth vb) (boxHeight vb) * 0.95;
               cx = boxX vb + boxWidth vb / 2;
               cy = boxY vb + boxHeight vb / 2
           in Inr (kids @ [backerCircle br cx cy diameter strokeWidth]))
      | Inr (Some (cutBbox, cutElement)) \<Rightarrow>
          (let diameter = boxWidth cutBbox;
               cx = boxX cutBbox + boxWidth cutBbox / 2;
               cy = boxY cutBbox + boxHeight cutBbox - diameter / 2;
               kids1 = (case cutElement of None \<Rightarrow> kids | Some i \<Rightarrow> removeAt [i] kids)
           in case removeBlue sm kids1 of
                Inl e \<Rightarrow> Inl e
              | Inr kids2 \<Rightarrow> Inr (kids2 @ [backerCircle br cx cy diameter strokeWidth])))"

section \<open>processLayersForPanel\<close>

record ProcessingOptions =
  removeOrnamentHole :: "bool option"
  addRoundBacker :: "bool option"
  roundBackerStrokeWidth :: "num option"

text \<open>The result: the input text itself (the two early returns), or the serialization
  \<open>imported.innerHTML\<close> of a list of nodes.\<close>

datatype markup = Source string | InnerHTML "node list"

text \<open>The part of the function between the early returns and the cover circle:
  "all other processing".\<close>

definition transformChildren ::
  "Browser \<Rightarrow> styleMap \<Rightarrow> Box option \<Rightarrow> LayerConfig list option \<Rightarrow> bool \<Rightarrow> bool \<Rightarrow> num
     \<Rightarrow> node list \<Rightarrow> error + node list" where
  "transformChildren br sm viewBox layers removeHole roundBacker backerStroke kids =
     (let kids1 = (if removeHole \<and> viewBox \<noteq> None
                   then removeOrnamentHoleIfFound br kids (the viewBox) else kids)
      in case (if roundBacker \<and> viewBox \<noteq> None then detectCutLineBbox br sm kids1 else Inr None) of
           Inl e \<Rightarrow> Inl e
         | Inr savedCutLineBbox \<Rightarrow>
            (case layerTransform sm layers kids1 of
               Inl e \<Rightarrow> Inl e
             | Inr kids2 \<Rightarrow>
                 if roundBacker \<and> viewBox \<noteq> None
                 then addRoundBackerOutline br kids2 (the viewBox) sm backerStroke savedCutLineBbox
                 else Inr kids2))"

definition processLayersForPanel ::
  "Browser \<Rightarrow> string \<Rightarrow> LayerConfig list option \<Rightarrow> ProcessingOptions \<Rightarrow> error + markup" where
  "processLayersForPanel br svgText layers options =
     (let removeHole = (case removeOrnamentHole options of None \<Rightarrow> False | Some b \<Rightarrow> b);
          roundBacker = (case addRoundBacker options of None \<Rightarrow> False | Some b \<Rightarrow> b);
          backerStroke = (case roundBackerStrokeWidth options of None \<Rightarrow> 0.5 | Some w \<Rightarrow> w);
          doc = domParse br svgText
      in if querySelector ''parsererror'' [doc] \<noteq> None then Inr (Source svgText)
         else (case querySelector ''svg'' [doc] of
                 None \<Rightarrow> Inr (Source svgText)
               | Some svg \<Rightarrow>
                  (let sm = parseSvgStyleBlock svgText;
                       viewBox = getSvgViewBox br (attrsOf svg)
                   in case transformChildren br sm viewBox layers removeHole roundBacker backerStroke
                             (childrenOf svg) of
                        Inl e \<Rightarrow> Inl e
                      | Inr kids \<Rightarrow>
                          Inr (InnerHTML
                            (if removeHole \<and> \<not> roundBacker \<and> viewBox \<noteq> None
                             then coverOrnamentHoleWithBackground br kids (the viewBox)
                             else kids)))))"

section \<open>Panel composition (buildPanelSvgs)\<close>

record ScannedSvgFile =
  filePath :: string
  fileName :: string
  parentFolder :: string

record PanelBuildSettings = PanelLayoutSettings +
  artWidthMm :: "num option"
  artHeightMm :: "num option"
  labelHeightMm :: num
  paddingMm :: num
  showCellBorders :: bool
  removeOrnamentHoleSetting :: "bool option"
  addRoundBackerSetting :: "bool option"
  roundBackerStrokeWidthSetting :: "num option"
  layerSettings :: "LayerConfig list option"

text \<open>
  One rendered cell of a panel: the item, its grid placement, the art box and the label
  box, whether the border rectangle is drawn, the processed content of the item and the
  label text when a label is drawn. (The zoom transform and the fitted label position
  depend on measured bounds and are not part of the record.) A panel document is the
  list of its cells in the order in which they are written.
\<close>

record Cell =
  cellFile :: ScannedSvgFile
  cellPlacement :: Placement
  artBox :: Box
  labelBox :: Box
  cellBorder :: bool
  cellContent :: markup
  cellLabel :: "string option"

record BuiltPanels =
  panelSvgs :: "Cell list list"
  builtCols :: int
  builtRows :: int
  builtCapacityPerPanel :: int

text \<open>\<open>readFileFromMap\<close> and \<open>parseSvgString\<close>, as far as they can throw.\<close>

definition readFileFromMap :: "(string \<Rightarrow> string option) \<Rightarrow> string \<Rightarrow> error + string" where
  "readFileFromMap fileMap p = (case fileMap p of None \<Rightarrow> Inl (FileNotFound p) | Some t \<Rightarrow> Inr t)"

definition parseSvgString :: "Browser \<Rightarrow> string \<Rightarrow> error + node" where
  "parseSvgString br svgContent =
     (let doc = domParse br svgContent
      in if querySelector ''parsererror'' [doc] \<noteq> None then Inl InvalidSvg
         else (case querySelector ''svg'' [doc] of None \<Rightarrow> Inl InvalidSvg | Some svg \<Rightarrow> Inr svg))"

definition renderCell ::
  "Browser \<Rightarrow> (string \<Rightarrow> string option) \<Rightarrow> PanelBuildSettings \<Rightarrow> Placement \<Rightarrow> ScannedSvgFile
     \<Rightarrow> error + Cell" where
  "renderCell br fileMap settings placement file =
     (let cx = cellX placement; cy = cellY placement; cellS = cellSize placement;
          labelHeight = labelHeightMm settings;
          padding = paddingMm settings;
          artRegion = \<lparr> boxX = cx, boxY = cy, boxWidth = cellS,
                        boxHeight = max 0 (cellS - labelHeight) \<rparr>;
          labelRegion = \<lparr> boxX = cx, boxY = cy + cellS - labelHeight, boxWidth = cellS,
                          boxHeight = max 0 labelHeight \<rparr>;
          exactArtW = (case artWidthMm settings of
                         None \<Rightarrow> boxWidth artRegion - padding * 2 | Some w \<Rightarrow> w);
          exactArtH = (case artHeightMm settings of
                         None \<Rightarrow> boxHeight artRegion - padding * 2 | Some h \<Rightarrow> h);
          artBoxW = max 0 exactArtW;
          artBoxH = max 0 exactArtH;
          art = \<lparr> boxX = boxX artRegion + (boxWidth artRegion - artBoxW) / 2,
                  boxY = boxY artRegion + (boxHeight artRegion - artBoxH) / 2,
                  boxWidth = artBoxW, boxHeight = artBoxH \<rparr>;
          labelPadV = min 1 (boxHeight labelRegion * 0.1);
          lbl = \<lparr> boxX = boxX labelRegion + padding, boxY = boxY labelRegion + labelPadV,
                  boxWidth = max 0 (boxWidth labelRegion - padding * 2),
                  boxHeight = max 0 (boxHeight labelRegion - labelPadV * 2) \<rparr>
      in case readFileFromMap fileMap (filePath file) of
           Inl e \<Rightarrow> Inl e
         | Inr svgText \<Rightarrow>
            (case parseSvgString br svgText of
               Inl e \<Rightarrow> Inl e
             | Inr svg \<Rightarrow>
                (case processLayersForPanel br svgText (layerSettings settings)
                        \<lparr> removeOrnamentHole = Some (case removeOrnamentHoleSetting settings of
                                                        None \<Rightarrow> False | Some b \<Rightarrow> b),
                          addRoundBacker = Some (case addRoundBackerSetting settings of
                                                    None \<Rightarrow> False | Some b \<Rightarrow> b),
                          roundBackerStrokeWidth = Some (case roundBackerStrokeWidthSetting settings of
                                                            None \<Rightarrow> 0.5 | Some w \<Rightarrow> w) \<rparr> of
                   Inl e \<Rightarrow> Inl e
                 | Inr processed \<Rightarrow>
                     Inr \<lparr> cellFile = file, cellPlacement = placement, artBox = art,
                           labelBox = lbl, cellBorder = showCellBorders settings,
                           cellContent = processed,
                           cellLabel = (if boxWidth lbl > 0 \<and> boxHeight lbl > 0
                                           \<and> parentFolder file \<noteq> []
                                        then Some (parentFolder file) else None) \<rparr>)))"

text \<open>The inner loop: item \<open>i\<close> takes \<open>grid.placements[i]\<close>; the loop breaks at the
  first item without a placement, and an exception ends the whole build.\<close>

fun renderCells ::
  "Browser \<Rightarrow> (string \<Rightarrow> string option) \<Rightarrow> PanelBuildSettings \<Rightarrow> Placement list
     \<Rightarrow> ScannedSvgFile list \<Rightarrow> error + Cell list" where
  "renderCells br fileMap settings ps [] = Inr []"
| "renderCells br fileMap settings [] (f # fs) = Inr []"
| "renderCells br fileMap settings (p # ps) (f # fs) =
     (case renderCell br fileMap settings p f of
        Inl e \<Rightarrow> Inl e
      | Inr c \<Rightarrow>
         (case renderCells br fileMap settings ps fs of
            Inl e \<Rightarrow> Inl e
          | Inr cs \<Rightarrow> Inr (c # cs)))"

text \<open>\<open>selected.slice(start, end)\<close> for \<open>0 \<le> start\<close>.\<close>

definition slice :: "'a list \<Rightarrow> nat \<Rightarrow> nat \<Rightarrow> 'a list" where
  "slice xs start end' = take (end' - start) (drop start xs)"

fun buildPanels ::
  "Browser \<Rightarrow> (string \<Rightarrow> string option) \<Rightarrow> PanelBuildSettings \<Rightarrow> GridLayout
     \<Rightarrow> ScannedSvgFile list \<Rightarrow> nat list \<Rightarrow> error + Cell list list" where
  "buildPanels br fileMap settings grid selected [] = Inr []"
| "buildPanels br fileMap settings grid selected (panelIndex # rest) =
     (let start = panelIndex * nat (capacityPerPanel grid);
          end' = min (length selected) (start + nat (capacityPerPanel grid));
          items = slice selected start end'
      in case renderCells br fileMap settings (placements grid) items of
           Inl e \<Rightarrow> Inl e
         | Inr cells \<Rightarrow>
            (case buildPanels br fileMap settings grid selected rest of
               Inl e \<Rightarrow> Inl e
             | Inr panels \<Rightarrow> Inr (cells # panels)))"

text \<open>\<open>buildPanelSvgs\<close>. The outer \<open>None\<close> is the non-finite grid of
  \<open>computeGridLayout\<close>; \<open>Inl\<close> is a rejected promise.\<close>

definition buildPanelSvgs ::
  "Browser \<Rightarrow> ScannedSvgFile list \<Rightarrow> PanelBuildSettings \<Rightarrow> (string \<Rightarrow> string option)
     \<Rightarrow> (error + BuiltPanels) option" where
  "buildPanelSvgs br selected settings fileMap =
     (case computeGridLayout (PanelLayoutSettings.truncate settings) of
        None \<Rightarrow> None
      | Some grid \<Rightarrow>
          (let panelCount = computePanelCount (length selected) (capacityPerPanel grid)
           in if panelCount \<le> 0
              then Some (Inr \<lparr> panelSvgs = [], builtCols = cols grid, builtRows = rows grid,
                               builtCapacityPerPanel = capacityPerPanel grid \<rparr>)
              else (case buildPanels br fileMap settings grid selected [0 ..< nat panelCount] of
                      Inl e \<Rightarrow> Some (Inl e)
                    | Inr panels \<Rightarrow>
                        Some (Inr \<lparr> panelSvgs = panels, builtCols = cols grid,
                                    builtRows = rows grid,
                                    builtCapacityPerPanel = capacityPerPanel grid \<rparr>))))"

section \<open>Predicates used in the statements\<close>

text \<open>A canonical colour: \<open>#\<close> and six digits from \<open>0-9a-f\<close>.\<close>

definition isLowerHexDigit :: "char \<Rightarrow> bool" where
  "isLowerHexDigit c \<longleftrightarrow> isDigit c \<or> (let n = (of_char c :: nat) in 97 \<le> n \<and> n \<le> 102)"

definition hashDigits :: "nat \<Rightarrow> string \<Rightarrow> bool" where
  "hashDigits k h \<longleftrightarrow> length h = Suc k \<and> take 1 h = ''#'' \<and> list_all isLowerHexDigit (drop 1 h)"

definition canonicalHex :: "string \<Rightarrow> bool" where
  "canonicalHex h \<longleftrightarrow> hashDigits 6 h"

definition namedSet :: "string list" where
  "namedSet = [''black'', ''white'', ''red'', ''green'', ''blue'', ''lime'', ''none'', ''transparent'']"

definition inByte :: "nat option \<Rightarrow> bool" where
  "inByte v \<longleftrightarrow> (case v of None \<Rightarrow> False | Some n \<Rightarrow> n \<le> 255)"

definition channelsInRange :: "(nat option \<times> nat option \<times> nat option) option \<Rightarrow> bool" where
  "channelsInRange m \<longleftrightarrow>
     (case m of None \<Rightarrow> False | Some (r, g, b) \<Rightarrow> inByte r \<and> inByte g \<and> inByte b)"

text \<open>The shape nodes of a forest (the selector of the candidates without \<open>g\<close>), each
  as its tag and attributes, and the test "has a visible resolved paint".\<close>

definition shapeNodes :: "node list \<Rightarrow> node list" where
  "shapeNodes ns = filter (\<lambda>n. tagOf n \<in> set shapeTags) (elements ns)"

definition shapeSigs :: "node list \<Rightarrow> (string \<times> attrs) list" where
  "shapeSigs ns = map (\<lambda>n. (tagOf n, attrsOf n)) (shapeNodes ns)"

definition painted :: "styleMap \<Rightarrow> attrs \<Rightarrow> bool" where
  "painted sm a \<longleftrightarrow> visiblePaint (ecFill (getElementColors sm a))
                     \<or> visiblePaint (ecStroke (getElementColors sm a))"

definition stripScoping :: "attrs \<Rightarrow> attrs" where
  "stripScoping a = removeAttribute ''style'' (removeAttribute ''class'' a)"

definition disabled :: "bool option \<Rightarrow> bool" where
  "disabled b \<longleftrightarrow> (case b of None \<Rightarrow> True | Some v \<Rightarrow> \<not> v)"

text \<open>Passthrough writes the resolved paints of a shape into its attributes.\<close>

definition inlined :: "styleMap \<Rightarrow> string \<times> attrs \<Rightarrow> string \<times> attrs" where
  "inlined sm p = (fst p, inlineColors (getElementColors sm (snd p)) (stripScoping (snd p)))"

text \<open>\<open>survivor sm orig p\<close>: the shape \<open>p\<close> of an output is a shape of \<open>orig\<close> that had no
  visible resolved paint, with its \<open>class\<close> and \<open>style\<close> attributes taken off.\<close>

definition survivor :: "styleMap \<Rightarrow> (string \<times> attrs) list \<Rightarrow> string \<times> attrs \<Rightarrow> bool" where
  "survivor sm orig p \<longleftrightarrow>
     list_ex (\<lambda>q. fst q = fst p \<and> \<not> painted sm (snd q) \<and> snd p = stripScoping (snd q)) orig"

text \<open>An item of the selection renders: its file is in the map, parses to a document
  with an \<open>svg\<close> element, and processing it raises no exception.\<close>

definition itemRenders ::
  "Browser \<Rightarrow> (string \<Rightarrow> string option) \<Rightarrow> PanelBuildSettings \<Rightarrow> ScannedSvgFile \<Rightarrow> bool" where
  "itemRenders br fileMap settings file \<longleftrightarrow>
     (case readFileFromMap fileMap (filePath file) of
        Inl e \<Rightarrow> False
      | Inr svgText \<Rightarrow>
         (case parseSvgString br svgText of
            Inl e \<Rightarrow> False
          | Inr svg \<Rightarrow>
             (case processLayersForPanel br svgText (layerSettings settings)
                     \<lparr> removeOrnamentHole = Some (case removeOrnamentHoleSetting settings of
                                                     None \<Rightarrow> False | Some b \<Rightarrow> b),
                       addRoundBacker = Some (case addRoundBackerSetting settings of
                                                 None \<Rightarrow> False | Some b \<Rightarrow> b),
                       roundBackerStrokeWidth = Some (case roundBackerStrokeWidthSetting settings of
                                                         None \<Rightarrow> 0.5 | Some w \<Rightarrow> w) \<rparr> of
                Inl e \<Rightarrow> False
              | Inr processed \<Rightarrow> True)))"

text \<open>
  A rule list that is closed under its own output. A visible rule whose target colour
  is fixed (an \<open>outputColor\<close>, or black for \<open>show-black\<close>) asks that this colour, when it
  is a visible paint, is itself looked up to a visible rule of the same render mode that
  maps it to itself. A rule that keeps the colour it matched asks nothing.
\<close>

definition fixedTarget :: "LayerConfig \<Rightarrow> string option" where
  "fixedTarget cfg =
     (if truthy (outputColor cfg) then outputColor cfg
      else if visibility cfg = ShowBlack then Some ''#000000'' else None)"

definition reMapped :: "LayerConfig list \<Rightarrow> RenderMode \<Rightarrow> string \<Rightarrow> bool" where
  "reMapped ls mode t \<longleftrightarrow>
     (case findLayerConfig t ls of
        Inr (Some cfg') \<Rightarrow>
          visibility cfg' \<noteq> Hidden \<and> renderMode cfg' = mode \<and> targetColorOf cfg' t = Inr t
      | _ \<Rightarrow> False)"

definition selfMapped :: "LayerConfig list \<Rightarrow> bool" where
  "selfMapped ls \<longleftrightarrow>
     list_all (\<lambda>cfg. visibility cfg = Hidden
                 \<or> (case fixedTarget cfg of
                       None \<Rightarrow> True
                     | Some t \<Rightarrow> \<not> visiblePaint (Some t) \<or> reMapped ls (renderMode cfg) t)) ls"

text \<open>A forest whose unpainted shapes stay unpainted once \<open>class\<close> and \<open>style\<close> are
  taken off (no plain \<open>fill\<close> or \<open>stroke\<close> attribute was hidden behind a class or style
  that said \<open>none\<close>), and the number of elements of a tag in a forest.\<close>

definition stablePaint :: "styleMap \<Rightarrow> node list \<Rightarrow> bool" where
  "stablePaint sm ns \<longleftrightarrow>
     list_all (\<lambda>p. painted sm (snd p) \<or> \<not> painted Map.empty (stripScoping (snd p))) (shapeSigs ns)"

definition countTag :: "string \<Rightarrow> node list \<Rightarrow> nat" where
  "countTag t ns = length (filter (\<lambda>n. tagOf n = t) (elements ns))"

text \<open>\<open>keptShapes sm ns\<close>: the shape nodes of \<open>ns\<close> that have no visible resolved paint
  and do not lie inside a shape node that has one, in document order, each with its
  \<open>class\<close> and \<open>style\<close> attributes taken off.\<close>

fun keptShapes :: "styleMap \<Rightarrow> node list \<Rightarrow> (string \<times> attrs) list" where
  "keptShapes sm [] = []"
| "keptShapes sm (TextNode s # ns) = keptShapes sm ns"
| "keptShapes sm (Element t a cs # ns) =
     (if t \<in> set shapeTags
      then (if painted sm a then [] else (t, stripScoping a) # keptShapes sm cs)
      else keptShapes sm cs) @ keptShapes sm ns"


section \<open>Example inputs\<close>

text \<open>A browser whose \<open>getBBox\<close> reports an empty box: the source then falls back to its
  estimates (0.6 of the size per character wide, 1.2 of the size high).\<close>

definition noBBox :: "string \<Rightarrow> string \<Rightarrow> num \<Rightarrow> Box" where
  "noBBox str fontFamily fsize = \<lparr>boxX = 0, boxY = 0, boxWidth = 0, boxHeight = 0\<rparr>"

text \<open>
  Browsers for the examples: the parser returns one fixed document, the number
  conversions know the decimal numerals and a few fractions, and the bounding boxes are
  given per example. (The examples use numerals of a few digits, which a double holds
  exactly.)
\<close>

definition simpleNumber :: "string \<Rightarrow> num option" where
  "simpleNumber s = (if s = [] then Some 0
                     else if list_all isDigit s then Some (of_nat (decimalValue s)) else None)"

definition simpleString :: "num \<Rightarrow> string" where
  "simpleString x =
     (case map_of [(0, ''0''), (0.5, ''0.5''), (5, ''5''), (6, ''6''), (20, ''20''), (30, ''30''),
                   (40, ''40''), (47.5, ''47.5''), (50, ''50''), (100, ''100'')] x of
        Some s \<Rightarrow> s | None \<Rightarrow> ''?'')"

definition testBrowser :: "node \<Rightarrow> (node \<Rightarrow> Box option) \<Rightarrow> Browser" where
  "testBrowser doc boxes =
     \<lparr> domParse = (\<lambda>t. doc), toNumber = simpleNumber, parseFloatJS = simpleNumber,
       numberToString = simpleString, getBBox = boxes \<rparr>"

definition noBoxes :: "node \<Rightarrow> Box option" where
  "noBoxes n = None"

definition defaultOptions :: ProcessingOptions where
  "defaultOptions = \<lparr> removeOrnamentHole = None, addRoundBacker = None, roundBackerStrokeWidth = None \<rparr>"

text \<open>An open path with a red stroke and no fill, and the rule "red, shown in its
  colour, render mode fill".\<close>

definition openPathText :: string where
  "openPathText = ''<svg viewBox=\"0 0 100 100\"><path d=\"M0 0 L10 10\" stroke=\"#ff0000\"/></svg>''"

definition openPathDoc :: node where
  "openPathDoc = Element ''svg'' [(''viewBox'', ''0 0 100 100'')]
     [Element ''path'' [(''d'', ''M0 0 L10 10''), (''stroke'', ''#ff0000'')] []]"

definition redFillRule :: LayerConfig where
  "redFillRule = \<lparr> color = ''#ff0000'', visibility = ShowColor, renderMode = Fill, outputColor = None \<rparr>"

text \<open>A path without any paint.\<close>

definition barePathText :: string where
  "barePathText = ''<svg><path d=\"M0 0 L10 10\"/></svg>''"

definition barePathDoc :: node where
  "barePathDoc = Element ''svg'' [] [Element ''path'' [(''d'', ''M0 0 L10 10'')] []]"

text \<open>Markup whose root is a group that holds an \<open>svg\<close> element, and the document a
  browser returns for malformed markup.\<close>

definition nestedSvgText :: string where
  "nestedSvgText = ''<g><svg><path d=\"M0 0 L10 10\"/></svg></g>''"

definition nestedSvgDoc :: node where
  "nestedSvgDoc = Element ''g'' [] [Element ''svg'' [] [Element ''path'' [(''d'', ''M0 0 L10 10'')] []]]"

definition errorDoc :: node where
  "errorDoc = Element ''parsererror'' [] [TextNode ''error on line 1'']"

text \<open>A cut-line box with a hanging tab (40 wide, 50 high), a 100 by 100 view box, and
  a red diagonal across the whole view box with the browser that measures it.\<close>

definition tabBox :: Box where
  "tabBox = \<lparr> boxX = 0, boxY = 0, boxWidth = 40, boxHeight = 50 \<rparr>"

definition viewBox100 :: Box where
  "viewBox100 = \<lparr> boxX = 0, boxY = 0, boxWidth = 100, boxHeight = 100 \<rparr>"




definition holeAndBacker :: ProcessingOptions where
  "holeAndBacker = \<lparr> removeOrnamentHole = Some True, addRoundBacker = Some True,
                     roundBackerStrokeWidth = None \<rparr>"

definition holeOnly :: ProcessingOptions where
  "holeOnly = \<lparr> removeOrnamentHole = Some True, addRoundBacker = None,
                roundBackerStrokeWidth = None \<rparr>"

text \<open>Build settings on a 300 by 300 panel with 60 mm cells, one scanned file and the
  map that holds it.\<close>

definition panel300 :: PanelBuildSettings where
  "panel300 = \<lparr> panelWidthMm = 300, panelHeightMm = 300, cellSizeMm = 60, marginMm = 0,
       gutterMm = 0, artWidthMm = None, artHeightMm = None, labelHeightMm = 10, paddingMm = 2,
       showCellBorders = False, removeOrnamentHoleSetting = None, addRoundBackerSetting = None,
       roundBackerStrokeWidthSetting = None, layerSettings = None \<rparr>"

definition overMargin :: PanelBuildSettings where
  "overMargin = \<lparr> panelWidthMm = 10, panelHeightMm = 10, cellSizeMm = 10, marginMm = 20,
       gutterMm = 0, artWidthMm = None, artHeightMm = None, labelHeightMm = 10, paddingMm = 2,
       showCellBorders = False, removeOrnamentHoleSetting = None, addRoundBackerSetting = None,
       roundBackerStrokeWidthSetting = None, layerSettings = None \<rparr>"

definition starFile :: ScannedSvgFile where
  "starFile = \<lparr> filePath = ''stars/star.svg'', fileName = ''star.svg'', parentFolder = ''stars'' \<rparr>"

definition starMap :: "string \<Rightarrow> string option" where
  "starMap p = (if p = ''stars/star.svg'' then Some openPathText else None)"

text \<open>The two presets of the source, a rule that turns green into black without a
  rule for black, and a green rectangle.\<close>

definition standardPreset :: "LayerConfig list" where
  "standardPreset =
     [\<lparr> color = ''#0000ff'', visibility = ShowColor, renderMode = Stroke, outputColor = Some ''#0000ff'' \<rparr>,
      \<lparr> color = ''#00c100'', visibility = ShowColor, renderMode = Fill, outputColor = Some ''#00c100'' \<rparr>,
      \<lparr> color = ''#000000'', visibility = ShowColor, renderMode = Stroke, outputColor = Some ''#000000'' \<rparr>,
      \<lparr> color = ''#ff0000'', visibility = ShowColor, renderMode = Stroke, outputColor = Some ''#ff0000'' \<rparr>]"

definition invertedPreset :: "LayerConfig list" where
  "invertedPreset =
     [\<lparr> color = ''#0000ff'', visibility = Hidden, renderMode = Fill, outputColor = Some ''#000000'' \<rparr>,
      \<lparr> color = ''#00c100'', visibility = ShowColor, renderMode = Fill, outputColor = Some ''#000000'' \<rparr>,
      \<lparr> color = ''#000000'', visibility = ShowColor, renderMode = Fill, outputColor = Some ''#000000'' \<rparr>,
      \<lparr> color = ''#ff0000'', visibility = ShowColor, renderMode = Stroke, outputColor = Some ''#ff0000'' \<rparr>]"

definition greenToBlack :: "LayerConfig list" where
  "greenToBlack =
     [\<lparr> color = ''#00c100'', visibility = ShowColor, renderMode = Fill, outputColor = Some ''#000000'' \<rparr>]"

definition greenRect :: "node list" where
  "greenRect = [Element ''rect'' [(''width'', ''10''), (''height'', ''10''), (''fill'', ''#00c100'')] []]"

text \<open>A browser that parses one markup to one document and every other markup to a
  second document; the green rectangle as a document, and what the rule that turns green
  into black makes of it, put under an \<open>svg\<close> root again.\<close>

definition reparsing :: "string \<Rightarrow> node \<Rightarrow> node \<Rightarrow> Browser" where
  "reparsing firstText firstDoc secondDoc =
     \<lparr> domParse = (\<lambda>t. if t = firstText then firstDoc else secondDoc), toNumber = simpleNumber,
       parseFloatJS = simpleNumber, numberToString = simpleString, getBBox = noBoxes \<rparr>"

definition greenRectText :: string where
  "greenRectText = ''<svg><rect width=\"10\" height=\"10\" fill=\"#00c100\"/></svg>''"

definition greenRectDoc :: node where
  "greenRectDoc = Element ''svg'' [] greenRect"

definition blackRect :: "node list" where
  "blackRect = [Element ''rect'' [(''width'', ''10''), (''height'', ''10''), (''fill'', ''#000000''),
                                  (''stroke'', ''none'')] []]"

definition blackRectText :: string where
  "blackRectText = ''<svg><rect width=\"10\" height=\"10\" fill=\"#000000\" stroke=\"none\"/></svg>''"

definition blackRectDoc :: node where
  "blackRectDoc = Element ''svg'' [] blackRect"

text \<open>A document with a style block, a group with a green rectangle (by class) and an
  open red path, and a group with a blue circle; and what the inverted preset makes of
  it, put under an \<open>svg\<close> root again.\<close>

definition layeredText :: string where
  "layeredText = ''<svg><style>.c{fill:#00c100}</style><g><rect class=\"c\" width=\"4\" height=\"4\"/>''
       @ ''<path d=\"M0 0 L5 5\" stroke=\"#ff0000\"/></g><g><circle r=\"2\" fill=\"#0000ff\"/></g></svg>''"

definition layeredDoc :: node where
  "layeredDoc = Element ''svg'' []
     [Element ''style'' [] [TextNode ''.c{fill:#00c100}''],
      Element ''g'' []
        [Element ''rect'' [(''class'', ''c''), (''width'', ''4''), (''height'', ''4'')] [],
         Element ''path'' [(''d'', ''M0 0 L5 5''), (''stroke'', ''#ff0000'')] []],
      Element ''g'' [] [Element ''circle'' [(''r'', ''2''), (''fill'', ''#0000ff'')] []]]"

definition layeredOut :: "node list" where
  "layeredOut =
     [Element ''g'' []
        [Element ''rect'' [(''width'', ''4''), (''height'', ''4''), (''fill'', ''#000000''),
                           (''stroke'', ''none'')] [],
         Element ''path'' [(''d'', ''M0 0 L5 5''), (''stroke'', ''#ff0000''), (''fill'', ''none''),
                           (''stroke-width'', ''0.5'')] []]]"

definition layeredOutText :: string where
  "layeredOutText = ''<svg><g><rect width=\"4\" height=\"4\" fill=\"#000000\" stroke=\"none\"/>''
       @ ''<path d=\"M0 0 L5 5\" stroke=\"#ff0000\" fill=\"none\" stroke-width=\"0.5\"/></g></svg>''"

definition layeredOutDoc :: node where
  "layeredOutDoc = Element ''svg'' [] layeredOut"





text \<open>A negative gutter, as the gutter field of the page lets one enter: columns and
  rows are both negative.\<close>

definition negativeGutter :: PanelBuildSettings where
  "negativeGutter = \<lparr> panelWidthMm = 300, panelHeightMm = 300, cellSizeMm = 10, marginMm = 0,
       gutterMm = - 20, artWidthMm = None, artHeightMm = None, labelHeightMm = 10, paddingMm = 2,
       showCellBorders = False, removeOrnamentHoleSetting = None, addRoundBackerSetting = None,
       roundBackerStrokeWidthSetting = None, layerSettings = None \<rparr>"

text \<open>A path without paint inside a group, next to a red rectangle.\<close>

definition groupedPathText :: string where
  "groupedPathText = ''<svg><g><path d=\"M0 0 L10 10\"/></g><rect width=\"4\" height=\"4\" fill=\"#ff0000\"/></svg>''"

definition groupedPathDoc :: node where
  "groupedPathDoc = Element ''svg'' []
     [Element ''g'' [] [Element ''path'' [(''d'', ''M0 0 L10 10'')] []],
      Element ''rect'' [(''width'', ''4''), (''height'', ''4''), (''fill'', ''#ff0000'')] []]"



section \<open>Properties of the grid layout\<close>

lemma grid_capacity_max:
  assumes "computeGridLayout settings = Some g"
  shows "capacityPerPanel g = max 0 (cols g * rows g)"
  using assms by (auto simp: computeGridLayout_def Let_def split: if_splits)

lemma max0_nonpos: "(p::int) \<le> 0 \<Longrightarrow> max 0 p = 0"
  by (simp add: max_def)

text \<open>
  The example of the specification: a 300 by 300 panel with 60 mm cells has 5 columns,
  5 rows and capacity 25; with 301 mm cells the capacity is 0.
\<close>

lemma grid_300_60:
  "map_option (\<lambda>g. (cols g, rows g, capacityPerPanel g))
     (computeGridLayout \<lparr>panelWidthMm = 300, panelHeightMm = 300, cellSizeMm = 60,
        marginMm = 0, gutterMm = 0\<rparr>) = Some (5, 5, 25)"
  by (simp add: computeGridLayout_def Let_def)

lemma grid_300_301:
  "map_option capacityPerPanel
     (computeGridLayout \<lparr>panelWidthMm = 300, panelHeightMm = 300, cellSizeMm = 301,
        marginMm = 0, gutterMm = 0\<rparr>) = Some 0"
  by (simp add: computeGridLayout_def Let_def)

text \<open>
  The capacity is the clamped product. It equals \<open>cols * rows\<close> when neither factor is
  negative, and it is zero when one factor is non-positive and the other is not
  negative.
\<close>

lemma capacity_clamped:
  assumes "computeGridLayout settings = Some g"
  shows "(0 \<le> cols g \<and> 0 \<le> rows g \<longrightarrow> capacityPerPanel g = cols g * rows g)
       \<and> ((cols g \<le> 0 \<and> 0 \<le> rows g) \<or> (0 \<le> cols g \<and> rows g \<le> 0)
            \<longrightarrow> capacityPerPanel g = 0)"
proof -
  have m: "capacityPerPanel g = max 0 (cols g * rows g)"
    using assms by (rule grid_capacity_max)
  have a: "0 \<le> cols g \<and> 0 \<le> rows g \<longrightarrow> max 0 (cols g * rows g) = cols g * rows g"
    by (simp add: max_def)
  have b: "cols g \<le> 0 \<and> 0 \<le> rows g \<longrightarrow> max 0 (cols g * rows g) = 0"
    by (auto intro!: max0_nonpos mult_nonpos_nonneg)
  have c: "0 \<le> cols g \<and> rows g \<le> 0 \<longrightarrow> max 0 (cols g * rows g) = 0"
    by (auto intro!: max0_nonpos mult_nonneg_nonpos)
  show ?thesis unfolding m using a b c by blast
qed

lemma grid_120_60:
  "computeGridLayout \<lparr>panelWidthMm = 120, panelHeightMm = 60, cellSizeMm = 60,
      marginMm = 0, gutterMm = 0\<rparr>
   = Some \<lparr>cols = 2, rows = 1, capacityPerPanel = 2,
        placements = [\<lparr>indexInPanel = 0, cellX = 0, cellY = 0, cellSize = 60\<rparr>,
                      \<lparr>indexInPanel = 1, cellX = 60, cellY = 0, cellSize = 60\<rparr>]\<rparr>"
  by (simp add: computeGridLayout_def Let_def upt_rec)

text \<open>One factor negative: the product is negative and the clamp gives the zero that
  the claim asks for.\<close>

lemma grid_one_negative:
  "computeGridLayout \<lparr>panelWidthMm = 10, panelHeightMm = 60, cellSizeMm = 10,
      marginMm = 20, gutterMm = 0\<rparr>
   = Some \<lparr>cols = - 3, rows = 2, capacityPerPanel = 0, placements = []\<rparr>"
  by (simp add: computeGridLayout_def Let_def)

text \<open>
  Both factors negative: the product is positive, \<open>Math.max(0, cols * rows)\<close> lets it
  through, and the capacity is positive although there is no column, no row and no
  placement (the guard of the placement loops is \<open>cols > 0 && rows > 0\<close>).
\<close>

lemma capacity_both_negative:
  assumes "computeGridLayout settings = Some g" and "cols g < 0" and "rows g < 0"
  shows "capacityPerPanel g = cols g * rows g \<and> 0 < capacityPerPanel g \<and> placements g = []"
proof -
  have pos: "0 < cols g * rows g" using assms(2,3) by (rule mult_neg_neg)
  have "capacityPerPanel g = max 0 (cols g * rows g)"
    using assms(1) by (rule grid_capacity_max)
  then have c: "capacityPerPanel g = cols g * rows g" using pos by simp
  have "placements g = []"
    using assms by (auto simp: computeGridLayout_def Let_def split: if_splits)
  with c pos show ?thesis by simp
qed

lemma grid_both_negative:
  "computeGridLayout \<lparr>panelWidthMm = 10, panelHeightMm = 10, cellSizeMm = 10,
      marginMm = 20, gutterMm = 0\<rparr>
   = Some \<lparr>cols = - 3, rows = - 3, capacityPerPanel = 9, placements = []\<rparr>"
  by (simp add: computeGridLayout_def Let_def)

text \<open>
  Claim C2 fails on the code. The claim asks for a capacity of zero whenever \<open>cols \<le> 0\<close>
  or \<open>rows \<le> 0\<close>. On a 300 by 300 panel with 10 mm cells, no margin and a gutter of
  \<open>-20\<close> the pitch is \<open>-10\<close>, so \<open>cols = rows = floor(280 / -10) = -28\<close>, and the capacity
  is \<open>784\<close>, with no placement at all.
\<close>

theorem C2_capacity_both_negative:
  "computeGridLayout \<lparr>panelWidthMm = 300, panelHeightMm = 300, cellSizeMm = 10,
      marginMm = 0, gutterMm = - 20\<rparr>
   = Some \<lparr>cols = - 28, rows = - 28, capacityPerPanel = 784, placements = []\<rparr>"
  by (simp add: computeGridLayout_def Let_def)

section \<open>Properties of the text fit\<close>

lemma fit_fontSize:
  assumes "str \<noteq> []" "0 < boxWidth box" "0 < boxHeight box"
  shows "fontSize (calculateTextFit tb str ff box) =
     (let m = measureTextSvg tb str ff 100;
          mh = (if tmHeight m > 0 then tmHeight m else 100 * 1.2);
          mw = (if tmWidth m > 0 then tmWidth m else of_nat (length str) * 100 * 0.6)
      in max 1 (min (100 * min (boxHeight box * 0.99 / mh) (boxWidth box * 0.99 / mw)) 2000))"
  using assms unfolding calculateTextFit_def Let_def
  by (simp split del: if_split cong: if_weak_cong)

lemma fit_degenerate:
  assumes "boxHeight box \<le> 0"
  shows "fontSize (calculateTextFit tb str ff box) = 12"
  using assms by (simp add: calculateTextFit_def)

lemma fit_empty: "fontSize (calculateTextFit tb [] ff box) = 12"
  by (simp add: calculateTextFit_def)

lemma clamp_mono:
  "(a::real) \<le> b \<Longrightarrow> max 1 (min (100 * min a c) 2000) \<le> max 1 (min (100 * min b c) 2000)"
  by (simp add: max_def min_def)

lemma fit_mono_positive:
  assumes "str \<noteq> []" "0 < w" "0 < h1" "h1 \<le> h2"
  shows "fontSize (calculateTextFit tb str ff \<lparr>boxX = bx, boxY = bz, boxWidth = w, boxHeight = h1\<rparr>)
       \<le> fontSize (calculateTextFit tb str ff \<lparr>boxX = bx, boxY = bz, boxWidth = w, boxHeight = h2\<rparr>)"
proof -
  define mh where "mh = (if tmHeight (measureTextSvg tb str ff 100) > 0
     then tmHeight (measureTextSvg tb str ff 100) else 100 * 1.2)"
  define mw where "mw = (if tmWidth (measureTextSvg tb str ff 100) > 0
     then tmWidth (measureTextSvg tb str ff 100) else of_nat (length str) * 100 * 0.6)"
  have mhpos: "0 < mh" by (simp add: mh_def)
  have le: "h1 * 0.99 / mh \<le> h2 * 0.99 / mh"
    using assms mhpos by (simp add: divide_right_mono)
  have h2: "0 < h2" using assms by simp
  have f: "0 < h \<Longrightarrow>
      fontSize (calculateTextFit tb str ff \<lparr>boxX = bx, boxY = bz, boxWidth = w, boxHeight = h\<rparr>)
     = max 1 (min (100 * min (h * 0.99 / mh) (w * 0.99 / mw)) 2000)" for h
    unfolding mh_def mw_def using assms(1,2)
    by (subst fit_fontSize) (simp_all add: Let_def split del: if_split cong: if_weak_cong)
  show ?thesis unfolding f [OF assms(3)] f [OF h2] by (rule clamp_mono [OF le])
qed

text \<open>
  Claim C9, as amended. For a non-empty text, a fixed font and a fixed positive box
  width, with the browser's measurement a fixed function: the font size does not
  decrease when the box height grows from one positive height to another (and it is the
  constant 12 on the non-positive heights). Across the boundary the claim fails: a box
  of height 0 takes the fallback size 12, a box of small positive height is fitted.
\<close>

theorem C9_fontSize_monotone:
  assumes "str \<noteq> []" and "0 < w" and "h1 \<le> h2" and "0 < h1 \<or> h2 \<le> 0"
  shows "fontSize (calculateTextFit tb str ff \<lparr>boxX = bx, boxY = bz, boxWidth = w, boxHeight = h1\<rparr>)
       \<le> fontSize (calculateTextFit tb str ff \<lparr>boxX = bx, boxY = bz, boxWidth = w, boxHeight = h2\<rparr>)"
proof (cases "0 < h1")
  case True
  then show ?thesis using assms(1,2,3) by (rule_tac fit_mono_positive)
next
  case False
  then have "h2 \<le> 0" and "h1 \<le> 0" using assms(3,4) by auto
  then show ?thesis by (simp add: fit_degenerate)
qed

theorem C9_fontSize_monotone_witness:
  "''A'' \<noteq> [] \<and> (0::real) < 100 \<and> (10::real) \<le> 20 \<and> ((0::real) < 10 \<or> (20::real) \<le> 0)
   \<and> fontSize (calculateTextFit noBBox ''A'' ''Roboto'' \<lparr>boxX = 0, boxY = 0, boxWidth = 100, boxHeight = 10\<rparr>)
       \<le> fontSize (calculateTextFit noBBox ''A'' ''Roboto'' \<lparr>boxX = 0, boxY = 0, boxWidth = 100, boxHeight = 20\<rparr>)"
  using C9_fontSize_monotone [of "''A''" 100 10 20 noBBox "''Roboto''" 0 0]
  by simp

theorem C9_counterexample:
  "(0::real) \<le> 1
   \<and> fontSize (calculateTextFit noBBox ''A'' ''Roboto'' \<lparr>boxX = 0, boxY = 0, boxWidth = 100, boxHeight = 0\<rparr>) = 12
   \<and> fontSize (calculateTextFit noBBox ''A'' ''Roboto'' \<lparr>boxX = 0, boxY = 0, boxWidth = 100, boxHeight = 1\<rparr>) = 1"
  by code_simp

section \<open>Properties of the colour normalizer\<close>

lemma of_char_hexDigit_lt10: "d < 10 \<Longrightarrow> (of_char (char_of (48 + d)) :: nat) = 48 + d"
  by simp

lemma of_char_hexDigit_ge10: "d < 16 \<Longrightarrow> (of_char (char_of (87 + d)) :: nat) = 87 + d"
  by simp

lemma hexDigit_lower: "d < 16 \<Longrightarrow> isLowerHexDigit (hexDigit d)"
  by (auto simp: isLowerHexDigit_def hexDigit_def isDigit_def Let_def)

lemma toHex_small: "n < 16 \<Longrightarrow> toHex n = [hexDigit n]"
  by (subst toHex.simps) simp

lemma toHex_byte: "16 \<le> n \<Longrightarrow> n < 256 \<Longrightarrow> toHex n = [hexDigit (n div 16), hexDigit (n mod 16)]"
  by (subst toHex.simps) (simp add: toHex_small)

lemma pad_toHex:
  assumes "n \<le> 255"
  shows "length (padStart2 (toHex n)) = 2 \<and> list_all isLowerHexDigit (padStart2 (toHex n))"
proof (cases "n < 16")
  case True
  then show ?thesis
    by (simp add: toHex_small padStart2_def hexDigit_lower) (simp add: isLowerHexDigit_def isDigit_def)
next
  case False
  then have "toHex n = [hexDigit (n div 16), hexDigit (n mod 16)]"
    using assms by (intro toHex_byte) auto
  moreover have "n div 16 < 16" using assms by simp
  ultimately show ?thesis
    by (simp add: padStart2_def hexDigit_lower)
qed

lemma normalize_hex3:
  assumes "hashDigits 3 (toLowerCase (trim token))"
  shows "\<exists>h. normalizeString token = Str h \<and> canonicalHex h"
proof -
  let ?c = "toLowerCase (trim token)"
  from assms obtain a b d where c: "?c = [CHR ''#'', a, b, d]"
    and l: "isLowerHexDigit a" "isLowerHexDigit b" "isLowerHexDigit d"
    by (auto simp: hashDigits_def length_Suc_conv numeral_3_eq_3)
  show ?thesis
    using l by (simp add: normalizeString_def Let_def c canonicalHex_def hashDigits_def)
qed

lemma normalize_hex6:
  assumes "hashDigits 6 (toLowerCase (trim token))"
  shows "\<exists>h. normalizeString token = Str h \<and> canonicalHex h"
  using assms by (simp add: normalizeString_def Let_def canonicalHex_def hashDigits_def)

lemma normalize_named:
  assumes "toLowerCase (trim token) \<in> set namedSet"
  shows "\<exists>h. normalizeString token = Str h \<and> (canonicalHex h \<or> h = ''none'')"
proof -
  have n: "c \<in> set namedSet \<Longrightarrow> take 1 c \<noteq> ''#'' \<and>
      (\<exists>h. namedColors c = Some (Str h) \<and> (canonicalHex h \<or> h = ''none''))" for c
    by (auto simp: namedSet_def namedColors_def canonicalHex_def hashDigits_def isLowerHexDigit_def isDigit_def)
  from n [OF assms] show ?thesis
    by (auto simp: normalizeString_def Let_def)
qed

lemma normalize_rgb:
  assumes "take 1 (toLowerCase (trim token)) \<noteq> ''#''"
    and "namedColors (toLowerCase (trim token)) = None"
    and "channelsInRange (matchRgb (toLowerCase (trim token)))"
  shows "\<exists>h. normalizeString token = Str h \<and> canonicalHex h"
proof -
  from assms(3) obtain r g b where m: "matchRgb (toLowerCase (trim token)) = Some (Some r, Some g, Some b)"
    and le: "r \<le> 255" "g \<le> 255" "b \<le> 255"
    by (auto simp: channelsInRange_def inByte_def split: option.splits)
  have "canonicalHex (CHR ''#'' # padStart2 (toHex r) @ padStart2 (toHex g) @ padStart2 (toHex b))"
    using pad_toHex [OF le(1)] pad_toHex [OF le(2)] pad_toHex [OF le(3)]
    by (simp add: canonicalHex_def hashDigits_def)
  then show ?thesis
    using assms(1,2) m by (simp add: normalizeString_def Let_def)
qed

lemma normalize_other:
  assumes "take 1 (toLowerCase (trim token)) \<noteq> ''#''"
    and "namedColors (toLowerCase (trim token)) = None"
    and "matchRgb (toLowerCase (trim token)) = None"
  shows "normalizeString token = Str (toLowerCase (trim token))"
  using assms by (simp add: normalizeString_def Let_def)

text \<open>
  Claim C8, as amended. Let \<open>c\<close> be the token trimmed and lower-cased, and call \<open>c\<close> a key
  when \<open>namedColors[c]\<close> finds something (the eight named colours, and \<open>constructor\<close> and
  \<open>__proto__\<close>).
  \<^item> If \<open>c\<close> is \<open>#\<close> with three or with six hexadecimal digits, or one of the eight
    named colours, or \<open>c\<close> does not start with \<open>#\<close>, is no key, and contains
    \<open>rgb(r, g, b)\<close> with every channel at most 255, then the result is a canonical
    lower-case six-digit colour or \<open>none\<close>.
  \<^item> If \<open>c\<close> does not start with \<open>#\<close>, is no key and contains no \<open>rgb(r, g, b)\<close>, the
    result is \<open>c\<close> itself: the function has no fallback colour, so the claim "every other
    token maps into that codomain" fails.
  Nothing is said here about the remaining tokens (\<open>#\<close> with another number of
  characters, a channel above 255, \<open>constructor\<close> and \<open>__proto__\<close>); the examples after
  the theorem show that they leave the codomain too.
\<close>

theorem C8_normalize_supported:
  assumes "c = toLowerCase (trim token)"
  shows "(hashDigits 3 c \<or> hashDigits 6 c \<or> c \<in> set namedSet
           \<or> (take 1 c \<noteq> ''#'' \<and> namedColors c = None \<and> channelsInRange (matchRgb c))
          \<longrightarrow> (\<exists>h. normalizeString token = Str h \<and> (canonicalHex h \<or> h = ''none'')))
       \<and> (take 1 c \<noteq> ''#'' \<and> namedColors c = None \<and> matchRgb c = None
          \<longrightarrow> normalizeString token = Str c)"
  unfolding assms
  using normalize_hex3 [of token] normalize_hex6 [of token] normalize_named [of token]
        normalize_rgb [of token] normalize_other [of token]
  by blast

lemma normalize_examples:
  "normalizeString ''#0000FF'' = Str ''#0000ff''"
  "normalizeString ''rgb(0,0,255)'' = Str ''#0000ff''"
  "normalizeString ''#abc'' = Str ''#aabbcc''"
  by code_simp+

text \<open>Tokens outside the two cases of the theorem: a \<open>#\<close> form of another length, a
  channel above 255, an inherited member of the table object, and a channel of 16
  digits, which the model of \<open>parseInt\<close> does not read.\<close>

lemma normalize_outside:
  "normalizeString ''#abcd'' = Str ''#abcd''"
  "normalizeString ''rgb(300,0,0)'' = Str ''#12c0000''"
  "normalizeString ''constructor'' = Proto ''constructor''"
  "normalizeString ''rgb(1000000000000000,0,0)'' = Beyond"
  by code_simp+

lemma colorsMatch_examples:
  "colorsMatch (Str ''#000000'') (Str ''#0a0000'') = Inr True"
  "colorsMatch (Str ''#000000'') (Str ''#0b0000'') = Inr False"
  by code_simp+

lemma hex3_example: "hashDigits 3 (toLowerCase (trim '' #ABC''))"
  by code_simp

lemma other_example:
  "take 1 (toLowerCase (trim ''yellow'')) \<noteq> ''#'' \<and> namedColors (toLowerCase (trim ''yellow'')) = None
   \<and> matchRgb (toLowerCase (trim ''yellow'')) = None \<and> toLowerCase (trim ''yellow'') = ''yellow''"
  by code_simp

theorem C8_normalize_supported_witness:
  "hashDigits 3 (toLowerCase (trim '' #ABC''))
   \<and> (\<exists>h. normalizeString '' #ABC'' = Str h \<and> (canonicalHex h \<or> h = ''none''))
   \<and> take 1 (toLowerCase (trim ''yellow'')) \<noteq> ''#'' \<and> namedColors (toLowerCase (trim ''yellow'')) = None
   \<and> matchRgb (toLowerCase (trim ''yellow'')) = None
   \<and> normalizeString ''yellow'' = Str (toLowerCase (trim ''yellow''))"
  using C8_normalize_supported [OF refl, of "'' #ABC''"]
        C8_normalize_supported [OF refl, of "''yellow''"]
        hex3_example other_example
  by blast

text \<open>The token \<open>yellow\<close> is returned as it is: neither a six-digit colour nor \<open>none\<close>.\<close>

theorem C8_counterexample:
  "normalizeString ''yellow'' = Str ''yellow'' \<and> \<not> canonicalHex ''yellow'' \<and> ''yellow'' \<noteq> ''none''"
  by code_simp

section \<open>Properties of the layer transform\<close>

lemma elements_append: "elements (xs @ ys) = elements xs @ elements ys"
  by (induction xs rule: elements.induct) simp_all

lemma toLower_tags:
  "toLowerCase ''path'' = ''path''" "toLowerCase ''rect'' = ''rect''" "toLowerCase ''circle'' = ''circle''"
  "toLowerCase ''ellipse'' = ''ellipse''" "toLowerCase ''polygon'' = ''polygon''"
  "toLowerCase ''polyline'' = ''polyline''" "toLowerCase ''line'' = ''line''"
  "toLowerCase ''text'' = ''text''" "toLowerCase ''use'' = ''use''" "toLowerCase ''g'' = ''g''"
  by code_simp+

lemma isShape_iff: "(t \<in> set candidateTags \<and> toLowerCase t \<noteq> ''g'') \<longleftrightarrow> t \<in> set shapeTags"
  unfolding candidateTags_def shapeTags_def
  using toLower_tags by auto

lemma shapeSigs_Nil [simp]: "shapeSigs [] = []"
  by (simp add: shapeSigs_def shapeNodes_def)

lemma shapeSigs_Text [simp]: "shapeSigs (TextNode s # ns) = shapeSigs ns"
  by (simp add: shapeSigs_def shapeNodes_def)

lemma shapeSigs_Element:
  "shapeSigs (Element t a cs # ns) =
     (if t \<in> set shapeTags then [(t, a)] else []) @ shapeSigs cs @ shapeSigs ns"
  by (simp add: shapeSigs_def shapeNodes_def)

lemma shapeSigs_append: "shapeSigs (xs @ ys) = shapeSigs xs @ shapeSigs ys"
  by (simp add: shapeSigs_def shapeNodes_def elements_append)

lemma processElement_passthrough:
  "processElement sm None t a = Inr (Some (inlineColors (getElementColors sm a) (stripScoping a)))"
  by (simp add: processElement_def Let_def stripScoping_def)

text \<open>Passthrough keeps every node; the shapes come out in the same order with their
  paints inlined.\<close>

lemma passthrough_nodes:
  "layers = None \<Longrightarrow> \<exists>n'. processNode sm layers n = Inr (Some n')
      \<and> shapeSigs [n'] = map (inlined sm) (shapeSigs [n])"
  "layers = None \<Longrightarrow> \<exists>ns'. processNodes sm layers ns = Inr ns'
      \<and> shapeSigs ns' = map (inlined sm) (shapeSigs ns)"
proof (induction sm layers n and sm layers ns rule: processNode_processNodes.induct)
  case (1 sm layers s)
  then show ?case by simp
next
  case (2 sm layers t a cs)
  then obtain cs' where cs: "processNodes sm layers cs = Inr cs'"
    and sig: "shapeSigs cs' = map (inlined sm) (shapeSigs cs)" by blast
  show ?case
    using cs sig 2(2)
    by (simp add: isShape_iff processElement_passthrough shapeSigs_Element inlined_def)
next
  case (3 sm layers)
  then show ?case by simp
next
  case (4 sm layers n ns)
  from 4(1) [OF 4(3)] obtain n' where n: "processNode sm layers n = Inr (Some n')"
    and sn: "shapeSigs [n'] = map (inlined sm) (shapeSigs [n])" by blast
  from 4(2) [OF n 4(3)] obtain ns' where ns: "processNodes sm layers ns = Inr ns'"
    and sns: "shapeSigs ns' = map (inlined sm) (shapeSigs ns)" by blast
  have "shapeSigs (n' # ns') = map (inlined sm) (shapeSigs (n # ns))"
    using sn sns shapeSigs_append [of "[n']" ns'] shapeSigs_append [of "[n]" ns] by simp
  then show ?case using n ns by simp
qed

lemma findLayerConfig_empty: "findLayerConfig c [] = Inr None"
  by (simp add: findLayerConfig_def Let_def)

lemma lookupLayer_empty: "lookupLayer p hs s [] = Inr None"
  by (simp add: lookupLayer_def findLayerConfig_empty split: option.splits bool.splits)

text \<open>With an empty rule list a shape is marked for removal exactly when it has a
  visible resolved paint.\<close>

lemma processElement_empty:
  "processElement sm (Some []) t a = Inr (if painted sm a then None else Some (stripScoping a))"
  by (simp add: processElement_def Let_def painted_def stripScoping_def lookupLayer_empty
        visiblePaint_def split: option.splits)

lemma survivor_iff:
  "survivor sm orig p \<longleftrightarrow> (\<exists>a. (fst p, a) \<in> set orig \<and> \<not> painted sm a \<and> snd p = stripScoping a)"
proof
  assume "survivor sm orig p"
  then obtain q where q: "q \<in> set orig" "fst q = fst p" "\<not> painted sm (snd q)" "snd p = stripScoping (snd q)"
    by (auto simp: survivor_def list_ex_iff)
  have "q = (fst p, snd q)" using q(2) by (metis prod.collapse)
  then have "(fst p, snd q) \<in> set orig" using q(1) by simp
  then show "\<exists>a. (fst p, a) \<in> set orig \<and> \<not> painted sm a \<and> snd p = stripScoping a"
    using q by blast
next
  assume "\<exists>a. (fst p, a) \<in> set orig \<and> \<not> painted sm a \<and> snd p = stripScoping a"
  then obtain a where "(fst p, a) \<in> set orig" "\<not> painted sm a" "snd p = stripScoping a" by blast
  then show "survivor sm orig p"
    unfolding survivor_def list_ex_iff by (intro bexI [of _ "(fst p, a)"]) simp_all
qed

lemma survivor_mono: "survivor sm xs p \<Longrightarrow> set xs \<subseteq> set ys \<Longrightarrow> survivor sm ys p"
  by (auto simp: survivor_iff)

lemma empty_rules_nodes:
  "layers = Some [] \<Longrightarrow> \<exists>r. processNode sm layers n = Inr r \<and>
      (\<forall>p \<in> set (shapeSigs (case r of None \<Rightarrow> [] | Some n' \<Rightarrow> [n'])). survivor sm (shapeSigs [n]) p)"
  "layers = Some [] \<Longrightarrow> \<exists>ns'. processNodes sm layers ns = Inr ns' \<and>
      (\<forall>p \<in> set (shapeSigs ns'). survivor sm (shapeSigs ns) p)"
proof (induction sm layers n and sm layers ns rule: processNode_processNodes.induct)
  case (1 sm layers s)
  then show ?case by simp
next
  case (2 sm layers t a cs)
  then obtain cs' where cs: "processNodes sm layers cs = Inr cs'"
    and sig: "\<forall>p \<in> set (shapeSigs cs'). survivor sm (shapeSigs cs) p" by blast
  have sub: "set (shapeSigs cs) \<subseteq> set (shapeSigs [Element t a cs])"
    by (simp add: shapeSigs_Element)
  have sig': "\<forall>p \<in> set (shapeSigs cs'). survivor sm (shapeSigs [Element t a cs]) p"
    using sig survivor_mono [OF _ sub] by blast
  show ?case
  proof (cases "t \<in> set shapeTags")
    case False
    then show ?thesis using cs sig' 2(2) by (simp add: isShape_iff shapeSigs_Element)
  next
    case True
    show ?thesis
    proof (cases "painted sm a")
      case True
      then show ?thesis using cs \<open>t \<in> set shapeTags\<close> 2(2)
        by (simp add: isShape_iff processElement_empty)
    next
      case False
      have "survivor sm (shapeSigs [Element t a cs]) (t, stripScoping a)"
        using False \<open>t \<in> set shapeTags\<close> by (auto simp: survivor_iff shapeSigs_Element)
      then show ?thesis using cs sig' False \<open>t \<in> set shapeTags\<close> 2(2)
        by (simp add: isShape_iff processElement_empty shapeSigs_Element)
    qed
  qed
next
  case (3 sm layers)
  then show ?case by simp
next
  case (4 sm layers n ns)
  from 4(1) [OF 4(3)] obtain r where n: "processNode sm layers n = Inr r"
    and sn: "\<forall>p \<in> set (shapeSigs (case r of None \<Rightarrow> [] | Some n' \<Rightarrow> [n'])).
               survivor sm (shapeSigs [n]) p" by blast
  from 4(2) [OF n 4(3)] obtain ns' where ns: "processNodes sm layers ns = Inr ns'"
    and sns: "\<forall>p \<in> set (shapeSigs ns'). survivor sm (shapeSigs ns) p" by blast
  have app: "shapeSigs (n # ns) = shapeSigs [n] @ shapeSigs ns"
    using shapeSigs_append [of "[n]" ns] by simp
  have s1: "set (shapeSigs [n]) \<subseteq> set (shapeSigs (n # ns))"
    and s2: "set (shapeSigs ns) \<subseteq> set (shapeSigs (n # ns))"
    by (simp_all add: app)
  have "\<forall>p \<in> set (shapeSigs (case r of None \<Rightarrow> ns' | Some n' \<Rightarrow> n' # ns')).
          survivor sm (shapeSigs (n # ns)) p"
  proof (cases r)
    case None
    then show ?thesis using sns survivor_mono [OF _ s2] by auto
  next
    case (Some n')
    have "shapeSigs (n' # ns') = shapeSigs [n'] @ shapeSigs ns'"
      using shapeSigs_append [of "[n']" ns'] by simp
    then show ?thesis using Some sn sns survivor_mono [OF _ s1] survivor_mono [OF _ s2] by auto
  qed
  then show ?case using n ns by simp
qed

text \<open>A shape without visible paint that is a child of the root is still there
  afterwards.\<close>

lemma empty_rules_keeps_top_level:
  assumes "processNodes sm (Some []) ns = Inr out" and "Element t a cs \<in> set ns"
    and "t \<in> set shapeTags" and "\<not> painted sm a"
  shows "(t, stripScoping a) \<in> set (shapeSigs out)"
  using assms
proof (induction ns arbitrary: out)
  case Nil
  then show ?case by simp
next
  case (Cons n ns)
  from empty_rules_nodes(1) [OF refl, of sm n] obtain r where r: "processNode sm (Some []) n = Inr r"
    by blast
  from empty_rules_nodes(2) [OF refl, of sm ns] obtain ns' where ns': "processNodes sm (Some []) ns = Inr ns'"
    by blast
  have out: "out = (case r of None \<Rightarrow> ns' | Some n' \<Rightarrow> n' # ns')"
    using Cons.prems(1) r ns' by simp
  show ?case
  proof (cases "n = Element t a cs")
    case True
    from empty_rules_nodes(2) [OF refl, of sm cs] obtain cs' where cs': "processNodes sm (Some []) cs = Inr cs'"
      by blast
    have "r = Some (Element t (stripScoping a) cs')"
      using r True cs' Cons.prems(3,4) by (simp add: isShape_iff processElement_empty)
    then show ?thesis using out Cons.prems(3) by (simp add: shapeSigs_Element)
  next
    case False
    then have "Element t a cs \<in> set ns" using Cons.prems(2) by simp
    from Cons.IH [OF ns' this Cons.prems(3,4)] have "(t, stripScoping a) \<in> set (shapeSigs ns')" .
    then show ?thesis
      using out shapeSigs_append [of "[the r]" ns'] by (cases r) auto
  qed
qed

lemma containsShape_iff: "containsShape ns \<longleftrightarrow> shapeSigs ns \<noteq> []"
  by (induction ns rule: containsShape.induct) (auto simp: shapeSigs_Element)

lemma g_not_shape: "''g'' \<notin> set shapeTags"
  by (simp add: shapeTags_def)

lemma shapeSigs_removeEmptyGroups: "shapeSigs (removeEmptyGroups ns) = shapeSigs ns"
  by (induction ns rule: removeEmptyGroups.induct)
     (auto simp: shapeSigs_Element containsShape_iff g_not_shape)

lemma painted_all_none:
  assumes "\<forall>p \<in> set out. survivor sm orig p" and "\<forall>p \<in> set orig. painted sm (snd p)"
  shows "out = []"
proof (cases out)
  case Nil then show ?thesis .
next
  case (Cons p ps)
  then have "survivor sm orig p" using assms(1) by simp
  then show ?thesis using assms(2) by (force simp: survivor_iff)
qed

lemma layerTransform_passthrough:
  "\<exists>out. layerTransform sm None kids = Inr out
     \<and> shapeSigs out = map (inlined sm) (shapeSigs (removeStyleElement kids))"
  using passthrough_nodes(2) [OF refl, of sm "removeStyleElement kids"]
  by (auto simp: layerTransform_def)

lemma layerTransform_empty_rules:
  "\<exists>out. layerTransform sm (Some []) kids = Inr out
     \<and> (\<forall>p \<in> set (shapeSigs out). survivor sm (shapeSigs (removeStyleElement kids)) p)
     \<and> (\<forall>n \<in> set (removeStyleElement kids).
           tagOf n \<in> set shapeTags \<and> \<not> painted sm (attrsOf n)
           \<longrightarrow> (tagOf n, stripScoping (attrsOf n)) \<in> set (shapeSigs out))"
proof -
  from empty_rules_nodes(2) [OF refl, of sm "removeStyleElement kids"]
  obtain ns' where ns': "processNodes sm (Some []) (removeStyleElement kids) = Inr ns'"
    and sv: "\<forall>p \<in> set (shapeSigs ns'). survivor sm (shapeSigs (removeStyleElement kids)) p"
    by blast
  have kept: "(tagOf n, stripScoping (attrsOf n)) \<in> set (shapeSigs ns')"
    if "n \<in> set (removeStyleElement kids)" "tagOf n \<in> set shapeTags" "\<not> painted sm (attrsOf n)" for n
  proof (cases n)
    case (Element t a cs)
    then show ?thesis using empty_rules_keeps_top_level [OF ns', of t a cs] that by simp
  next
    case (TextNode s)
    then show ?thesis using that(2) by (simp add: shapeTags_def)
  qed
  show ?thesis
    using ns' sv kept by (auto simp: layerTransform_def shapeSigs_removeEmptyGroups)
qed

text \<open>With an empty rule list the shapes that come out are exactly the shapes without
  visible paint that do not lie inside a painted shape, at any depth and in order.\<close>

lemma empty_rules_exact:
  "layers = Some [] \<Longrightarrow> \<exists>r. processNode sm layers n = Inr r \<and>
      shapeSigs (case r of None \<Rightarrow> [] | Some n' \<Rightarrow> [n']) = keptShapes sm [n]"
  "layers = Some [] \<Longrightarrow> \<exists>ns'. processNodes sm layers ns = Inr ns' \<and>
      shapeSigs ns' = keptShapes sm ns"
proof (induction sm layers n and sm layers ns rule: processNode_processNodes.induct)
  case (1 sm layers s)
  then show ?case by simp
next
  case (2 sm layers t a cs)
  then obtain cs' where cs: "processNodes sm layers cs = Inr cs'"
    and sig: "shapeSigs cs' = keptShapes sm cs" by blast
  show ?case
  proof (cases "t \<in> set shapeTags")
    case False
    then show ?thesis using cs sig 2(2) by (simp add: isShape_iff shapeSigs_Element)
  next
    case True
    show ?thesis
    proof (cases "painted sm a")
      case True
      then show ?thesis using cs \<open>t \<in> set shapeTags\<close> 2(2)
        by (simp add: isShape_iff processElement_empty)
    next
      case False
      then show ?thesis using cs sig \<open>t \<in> set shapeTags\<close> 2(2)
        by (simp add: isShape_iff processElement_empty shapeSigs_Element)
    qed
  qed
next
  case (3 sm layers)
  then show ?case by simp
next
  case (4 sm layers n ns)
  from 4(1) [OF 4(3)] obtain r where n: "processNode sm layers n = Inr r"
    and sn: "shapeSigs (case r of None \<Rightarrow> [] | Some n' \<Rightarrow> [n']) = keptShapes sm [n]" by blast
  from 4(2) [OF n 4(3)] obtain ns' where ns: "processNodes sm layers ns = Inr ns'"
    and sns: "shapeSigs ns' = keptShapes sm ns" by blast
  have k: "keptShapes sm (n # ns) = keptShapes sm [n] @ keptShapes sm ns"
    by (cases n) simp_all
  have "shapeSigs (case r of None \<Rightarrow> ns' | Some n' \<Rightarrow> n' # ns') = keptShapes sm (n # ns)"
  proof (cases r)
    case None
    then show ?thesis using sn sns k by simp
  next
    case (Some n')
    have "shapeSigs (n' # ns') = shapeSigs [n'] @ shapeSigs ns'"
      using shapeSigs_append [of "[n']" ns'] by simp
    then show ?thesis using Some sn sns k by simp
  qed
  then show ?case using n ns by simp
qed

lemma layerTransform_empty_exact:
  "\<exists>out. layerTransform sm (Some []) kids = Inr out
     \<and> shapeSigs out = keptShapes sm (removeStyleElement kids)"
  using empty_rules_exact(2) [OF refl, of sm "removeStyleElement kids"]
  by (auto simp: layerTransform_def shapeSigs_removeEmptyGroups)

text \<open>With both geometry options off, \<open>processLayersForPanel\<close> is the layer transform
  on the children of the \<open>svg\<close> element.\<close>

lemma plain_run:
  assumes "querySelector ''parsererror'' [domParse br svgText] = None"
    and "querySelector ''svg'' [domParse br svgText] = Some svg"
    and "disabled (removeOrnamentHole options)" and "disabled (addRoundBacker options)"
  shows "processLayersForPanel br svgText layers options =
     (case layerTransform (parseSvgStyleBlock svgText) layers (childrenOf svg) of
        Inl e \<Rightarrow> Inl e | Inr kids \<Rightarrow> Inr (InnerHTML kids))"
  using assms
  by (auto simp: processLayersForPanel_def transformChildren_def Let_def disabled_def
      split: option.splits sum.splits)

text \<open>
  Claim C1 fails on the code. In fill mode the branch for an open shape with a stroke
  and no fill sets \<open>fill="none"\<close>, \<open>stroke=targetColor\<close> and the width, and then the
  statement after the \<open>if\<close> sets \<open>stroke="none"\<close> on every path: whatever the element,
  the stroke of a fill-mode result is \<open>none\<close>. The red open path below, under the rule
  "red, render mode fill", comes out with \<open>stroke="none"\<close> and \<open>fill="none"\<close>, that is,
  invisible, where the claim (and the comment "Keep as stroke for open paths") say
  \<open>stroke="#ff0000"\<close>.
\<close>

lemma fill_mode_stroke_none:
  "getAttribute (applyRenderMode Fill t hasFill hasStroke colors target a) ''stroke'' = Some ''none''"
  by (simp add: applyRenderMode_def getAttribute_def setAttribute_def update_conv')

lemma open_path_is_in_scope:
  "visiblePaint (ecStroke (getElementColors Map.empty [(''d'', ''M0 0 L10 10''), (''stroke'', ''#ff0000'')]))
   \<and> \<not> visiblePaint (ecFill (getElementColors Map.empty [(''d'', ''M0 0 L10 10''), (''stroke'', ''#ff0000'')]))
   \<and> \<not> canFill ''path'' [(''d'', ''M0 0 L10 10''), (''stroke'', ''#ff0000'')]
   \<and> findLayerConfig ''#ff0000'' [redFillRule] = Inr (Some redFillRule)"
  by code_simp

theorem C1_open_path_stroke_lost:
  "processLayersForPanel (testBrowser openPathDoc noBoxes) openPathText (Some [redFillRule]) defaultOptions
   = Inr (InnerHTML [Element ''path''
        [(''d'', ''M0 0 L10 10''), (''stroke'', ''none''), (''fill'', ''none''),
         (''stroke-width'', ''0.5'')] []])"
  by code_simp

text \<open>
  Claim C3, as amended. With ornament-hole removal and round backer disabled, for a
  document that parses and has an \<open>svg\<close> element, and \<open>kids\<close> the children of that
  element after the style block is taken out:
  \<^item> in passthrough mode the call succeeds and the shape nodes of the output are the
    shape nodes of \<open>kids\<close>, one for one and in order, each with its resolved paints
    inlined: none is removed;
  \<^item> in rule mode with an empty rule list the call succeeds and the shape nodes of the
    output are exactly \<open>keptShapes\<close>: the shape nodes of \<open>kids\<close>, at any depth, that have
    no visible resolved paint and do not lie inside a shape node that has one, in order
    and with \<open>class\<close> and \<open>style\<close> taken off. So every shape node of the output is a
    shape node of \<open>kids\<close> without visible paint, every such shape that is a child of the
    root is kept, and when all shape nodes have a visible paint none is left.
  The empty rule list removes every shape node with a visible paint, not every shape
  node: an element without paint takes the early \<open>return\<close> ("keep element as-is").
\<close>

theorem C3_removal:
  assumes "querySelector ''parsererror'' [domParse br svgText] = None"
    and "querySelector ''svg'' [domParse br svgText] = Some svg"
    and "disabled (removeOrnamentHole options)" and "disabled (addRoundBacker options)"
    and "sm = parseSvgStyleBlock svgText"
    and "kids = removeStyleElement (childrenOf svg)"
  shows "(\<exists>out. processLayersForPanel br svgText None options = Inr (InnerHTML out)
            \<and> shapeSigs out = map (inlined sm) (shapeSigs kids))
       \<and> (\<exists>out. processLayersForPanel br svgText (Some []) options = Inr (InnerHTML out)
            \<and> shapeSigs out = keptShapes sm kids
            \<and> (\<forall>p \<in> set (shapeSigs out). survivor sm (shapeSigs kids) p)
            \<and> (\<forall>n \<in> set kids. tagOf n \<in> set shapeTags \<and> \<not> painted sm (attrsOf n)
                  \<longrightarrow> (tagOf n, stripScoping (attrsOf n)) \<in> set (shapeSigs out))
            \<and> ((\<forall>p \<in> set (shapeSigs kids). painted sm (snd p)) \<longrightarrow> shapeSigs out = []))"
proof -
  note run = plain_run [OF assms(1-4)]
  from layerTransform_passthrough [of sm "childrenOf svg"]
  obtain out1 where o1: "layerTransform sm None (childrenOf svg) = Inr out1"
    "shapeSigs out1 = map (inlined sm) (shapeSigs kids)"
    unfolding assms(6) by blast
  from layerTransform_empty_rules [of sm "childrenOf svg"]
  obtain out2 where o2: "layerTransform sm (Some []) (childrenOf svg) = Inr out2"
    "\<forall>p \<in> set (shapeSigs out2). survivor sm (shapeSigs kids) p"
    "\<forall>n \<in> set kids. tagOf n \<in> set shapeTags \<and> \<not> painted sm (attrsOf n)
        \<longrightarrow> (tagOf n, stripScoping (attrsOf n)) \<in> set (shapeSigs out2)"
    unfolding assms(6) by blast
  from layerTransform_empty_exact [of sm "childrenOf svg"] o2(1)
  have o3: "shapeSigs out2 = keptShapes sm kids"
    unfolding assms(6) by auto
  have a: "processLayersForPanel br svgText None options = Inr (InnerHTML out1)"
    using run [of None] o1(1) by (simp add: assms(5))
  have b: "processLayersForPanel br svgText (Some []) options = Inr (InnerHTML out2)"
    using run [of "Some []"] o2(1) by (simp add: assms(5))
  have c: "(\<forall>p \<in> set (shapeSigs kids). painted sm (snd p)) \<longrightarrow> shapeSigs out2 = []"
    using painted_all_none [OF o2(2)] by blast
  show ?thesis using a b c o1(2) o2(2,3) o3 by blast
qed

text \<open>A path without paint inside a group, next to a red rectangle: passthrough keeps
  both shapes, the empty rule list keeps the path in its group and removes the
  rectangle.\<close>

lemma groupedPath_setup:
  "querySelector ''parsererror'' [domParse (testBrowser groupedPathDoc noBoxes) groupedPathText] = None"
  "querySelector ''svg'' [domParse (testBrowser groupedPathDoc noBoxes) groupedPathText] = Some groupedPathDoc"
  "disabled (removeOrnamentHole defaultOptions)"
  "disabled (addRoundBacker defaultOptions)"
  by code_simp+

lemma groupedPath_shapes:
  "map fst (map (inlined (parseSvgStyleBlock groupedPathText))
       (shapeSigs (removeStyleElement (childrenOf groupedPathDoc)))) = [''path'', ''rect'']"
  "keptShapes (parseSvgStyleBlock groupedPathText) (removeStyleElement (childrenOf groupedPathDoc))
     = [(''path'', [(''d'', ''M0 0 L10 10'')])]"
  by code_simp+

lemma groupedPath_run:
  "processLayersForPanel (testBrowser groupedPathDoc noBoxes) groupedPathText (Some []) defaultOptions
   = Inr (InnerHTML [Element ''g'' [] [Element ''path'' [(''d'', ''M0 0 L10 10'')] []]])"
  by code_simp

theorem C3_removal_witness:
  "querySelector ''parsererror'' [domParse (testBrowser groupedPathDoc noBoxes) groupedPathText] = None
   \<and> querySelector ''svg'' [domParse (testBrowser groupedPathDoc noBoxes) groupedPathText]
       = Some groupedPathDoc
   \<and> disabled (removeOrnamentHole defaultOptions) \<and> disabled (addRoundBacker defaultOptions)
   \<and> (\<exists>out. processLayersForPanel (testBrowser groupedPathDoc noBoxes) groupedPathText None defaultOptions
               = Inr (InnerHTML out)
          \<and> map fst (shapeSigs out) = [''path'', ''rect''])
   \<and> (\<exists>out. processLayersForPanel (testBrowser groupedPathDoc noBoxes) groupedPathText (Some [])
                 defaultOptions = Inr (InnerHTML out)
          \<and> shapeSigs out = [(''path'', [(''d'', ''M0 0 L10 10'')])])"
proof -
  note p = groupedPath_setup
  from C3_removal [OF p refl refl]
  obtain out1 out2 where
    o1: "processLayersForPanel (testBrowser groupedPathDoc noBoxes) groupedPathText None defaultOptions
           = Inr (InnerHTML out1)"
      "shapeSigs out1 = map (inlined (parseSvgStyleBlock groupedPathText))
           (shapeSigs (removeStyleElement (childrenOf groupedPathDoc)))"
    and o2: "processLayersForPanel (testBrowser groupedPathDoc noBoxes) groupedPathText (Some [])
               defaultOptions = Inr (InnerHTML out2)"
      "shapeSigs out2 = keptShapes (parseSvgStyleBlock groupedPathText)
           (removeStyleElement (childrenOf groupedPathDoc))"
    by blast
  have a: "map fst (shapeSigs out1) = [''path'', ''rect'']"
    unfolding o1(2) by (rule groupedPath_shapes(1))
  have b: "shapeSigs out2 = [(''path'', [(''d'', ''M0 0 L10 10'')])]"
    unfolding o2(2) by (rule groupedPath_shapes(2))
  have e1: "\<exists>out. processLayersForPanel (testBrowser groupedPathDoc noBoxes) groupedPathText None
                defaultOptions = Inr (InnerHTML out)
          \<and> map fst (shapeSigs out) = [''path'', ''rect'']"
    by (rule exI [of _ out1]) (rule conjI [OF o1(1) a])
  have e2: "\<exists>out. processLayersForPanel (testBrowser groupedPathDoc noBoxes) groupedPathText (Some [])
                defaultOptions = Inr (InnerHTML out)
          \<and> shapeSigs out = [(''path'', [(''d'', ''M0 0 L10 10'')])]"
    by (rule exI [of _ out2]) (rule conjI [OF o2(1) b])
  show ?thesis by (intro conjI p e1 e2)
qed

text \<open>A path without fill and stroke survives the empty rule list.\<close>

theorem C3_counterexample:
  "processLayersForPanel (testBrowser barePathDoc noBoxes) barePathText (Some []) defaultOptions
   = Inr (InnerHTML [Element ''path'' [(''d'', ''M0 0 L10 10'')] []])
   \<and> shapeSigs (childrenOf barePathDoc) = [(''path'', [(''d'', ''M0 0 L10 10'')])]"
  by code_simp

section \<open>The two early returns\<close>

text \<open>
  Claim C10, as amended. When the parsed document contains a \<open>parsererror\<close> element
  (the markup failed to parse) or contains no \<open>svg\<close> element at all, the function
  returns the input text as it is, without an exception, for every rule list and every
  combination of options. The lookup is \<open>doc.querySelector('svg')\<close>, which finds an
  \<open>svg\<close> element anywhere in the document; so a document whose root is not \<open>svg\<close> but
  which holds one further down is processed, and the claim as written ("lacks an
  \<open>svg\<close> root element") fails there.
\<close>

theorem C10_unparsed_input_returned:
  assumes "querySelector ''parsererror'' [domParse br svgText] \<noteq> None
           \<or> querySelector ''svg'' [domParse br svgText] = None"
  shows "processLayersForPanel br svgText layers options = Inr (Source svgText)"
  using assms by (auto simp: processLayersForPanel_def Let_def)

lemma errorDoc_fails:
  "querySelector ''parsererror'' [domParse (testBrowser errorDoc noBoxes) ''<svg''] \<noteq> None"
  by code_simp

lemma barePath_no_svg:
  "querySelector ''svg'' [domParse (testBrowser (Element ''path'' [] []) noBoxes) ''<path/>''] = None"
  by code_simp

theorem C10_unparsed_input_returned_witness:
  "querySelector ''parsererror'' [domParse (testBrowser errorDoc noBoxes) ''<svg''] \<noteq> None
   \<and> processLayersForPanel (testBrowser errorDoc noBoxes) ''<svg'' (Some [redFillRule]) holeAndBacker
      = Inr (Source ''<svg'')
   \<and> querySelector ''svg'' [domParse (testBrowser (Element ''path'' [] []) noBoxes) ''<path/>''] = None
   \<and> processLayersForPanel (testBrowser (Element ''path'' [] []) noBoxes) ''<path/>'' None holeOnly
      = Inr (Source ''<path/>'')"
proof -
  have a: "processLayersForPanel (testBrowser errorDoc noBoxes) ''<svg'' (Some [redFillRule]) holeAndBacker
      = Inr (Source ''<svg'')"
    by (rule C10_unparsed_input_returned) (rule disjI1 [OF errorDoc_fails])
  have b: "processLayersForPanel (testBrowser (Element ''path'' [] []) noBoxes) ''<path/>'' None holeOnly
      = Inr (Source ''<path/>'')"
    by (rule C10_unparsed_input_returned) (rule disjI2 [OF barePath_no_svg])
  show ?thesis by (intro conjI errorDoc_fails a barePath_no_svg b)
qed

text \<open>The root of the parsed document is a \<open>g\<close>; the \<open>svg\<close> inside it is found and
  its content is returned, not the input.\<close>

theorem C10_counterexample:
  "querySelector ''parsererror'' [domParse (testBrowser nestedSvgDoc noBoxes) nestedSvgText] = None
   \<and> tagOf (domParse (testBrowser nestedSvgDoc noBoxes) nestedSvgText) \<noteq> ''svg''
   \<and> processLayersForPanel (testBrowser nestedSvgDoc noBoxes) nestedSvgText None defaultOptions
      = Inr (InnerHTML [Element ''path'' [(''d'', ''M0 0 L10 10'')] []])"
  by code_simp

section \<open>Properties of the round backer\<close>









text \<open>The example of the specification: the cut-line box 0, 0, 40, 50 gives a circle
  of diameter 40 (radius 20) with centre y = 30; and the fallback on a 100 by 100 view
  box has radius 47.5 and centre (50, 50).\<close>

lemma backer_example_found:
  "addRoundBackerOutline (testBrowser openPathDoc noBoxes) [] viewBox100 Map.empty 0.5 (Some tabBox)
     = Inr [Element ''circle'' [(''cx'', ''20''), (''cy'', ''30''), (''r'', ''20''),
             (''fill'', ''none''), (''stroke'', ''#000000''), (''stroke-width'', ''0.5'')] []]"
  by code_simp

lemma backer_example_fallback:
  "addRoundBackerOutline (testBrowser openPathDoc noBoxes) [] viewBox100 Map.empty 0.5 None
     = Inr [Element ''circle'' [(''cx'', ''50''), (''cy'', ''50''), (''r'', ''47.5''),
             (''fill'', ''none''), (''stroke'', ''#000000''), (''stroke-width'', ''0.5'')] []]"
  by code_simp













section \<open>Properties of the hole cover\<close>






section \<open>Properties of the panel composer\<close>

lemma renderCell_ok:
  assumes "itemRenders br fm settings f"
  shows "\<exists>c. renderCell br fm settings p f = Inr c \<and> cellFile c = f \<and> cellPlacement c = p"
  using assms unfolding itemRenders_def renderCell_def Let_def
  by (auto split: sum.splits)

lemma renderCells_ok:
  assumes "list_all (itemRenders br fm settings) fs"
  shows "\<exists>cells. renderCells br fm settings ps fs = Inr cells
           \<and> map cellFile cells = take (length ps) fs"
  using assms
proof (induction br fm settings ps fs rule: renderCells.induct)
  case (1 br fm settings ps)
  then show ?case by simp
next
  case (2 br fm settings f fs)
  then show ?case by simp
next
  case (3 br fm settings p ps f fs)
  from 3(2) have f: "itemRenders br fm settings f" and fs: "list_all (itemRenders br fm settings) fs"
    by simp_all
  from renderCell_ok [OF f, of p] obtain c where c: "renderCell br fm settings p f = Inr c" "cellFile c = f"
    by blast
  from "3.IH" [OF c(1) fs] obtain cells where cells: "renderCells br fm settings ps fs = Inr cells"
     "map cellFile cells = take (length ps) fs" by blast
  show ?case using c cells by simp
qed

lemma list_all_slice: "list_all P xs \<Longrightarrow> list_all P (slice xs a b)"
  by (auto simp: slice_def list_all_iff dest: in_set_takeD in_set_dropD)

lemma length_slice: "length (slice xs a b) \<le> b - a"
  by (simp add: slice_def)

lemma buildPanels_ok:
  assumes "list_all (itemRenders br fm settings) selected"
  shows "\<exists>panels. buildPanels br fm settings grid selected idxs = Inr panels
     \<and> length panels = length idxs
     \<and> (\<forall>k < length idxs. map cellFile (panels ! k) =
           take (length (placements grid))
             (slice selected (idxs ! k * nat (capacityPerPanel grid))
                (min (length selected) (idxs ! k * nat (capacityPerPanel grid) + nat (capacityPerPanel grid)))))"
proof (induction idxs)
  case Nil
  then show ?case by simp
next
  case (Cons i idxs)
  let ?items = "slice selected (i * nat (capacityPerPanel grid))
                (min (length selected) (i * nat (capacityPerPanel grid) + nat (capacityPerPanel grid)))"
  have la: "list_all (itemRenders br fm settings) ?items"
    by (rule list_all_slice [OF assms])
  from renderCells_ok [OF la, where ps = "placements grid"]
  obtain cells where cells: "renderCells br fm settings (placements grid) ?items = Inr cells"
    "map cellFile cells = take (length (placements grid)) ?items" by blast
  from Cons obtain panels where panels: "buildPanels br fm settings grid selected idxs = Inr panels"
    "length panels = length idxs"
    "\<forall>k < length idxs. map cellFile (panels ! k) =
           take (length (placements grid))
             (slice selected (idxs ! k * nat (capacityPerPanel grid))
                (min (length selected) (idxs ! k * nat (capacityPerPanel grid) + nat (capacityPerPanel grid))))"
    by blast
  have b: "buildPanels br fm settings grid selected (i # idxs) = Inr (cells # panels)"
    using cells(1) panels(1) by (simp add: Let_def)
  have "\<forall>k < length (i # idxs). map cellFile ((cells # panels) ! k) =
           take (length (placements grid))
             (slice selected ((i # idxs) ! k * nat (capacityPerPanel grid))
                (min (length selected) ((i # idxs) ! k * nat (capacityPerPanel grid) + nat (capacityPerPanel grid))))"
  proof (intro allI impI)
    fix k assume "k < length (i # idxs)"
    then show "map cellFile ((cells # panels) ! k) =
           take (length (placements grid))
             (slice selected ((i # idxs) ! k * nat (capacityPerPanel grid))
                (min (length selected) ((i # idxs) ! k * nat (capacityPerPanel grid) + nat (capacityPerPanel grid))))"
      using cells(2) panels(3) by (cases k) simp_all
  qed
  then show ?case using b panels(2) by simp
qed

text \<open>With columns and rows both positive there is one placement per unit of
  capacity.\<close>

lemma placements_length:
  assumes "computeGridLayout s = Some g" and "0 < cols g" and "0 < rows g"
  shows "length (placements g) = nat (capacityPerPanel g)"
proof -
  have len: "length (concat (map (\<lambda>r. map (f r) [0 ..< a]) [0 ..< b])) = b * a"
    for f :: "nat \<Rightarrow> nat \<Rightarrow> Placement" and a b
    by (induction b) (simp_all add: algebra_simps)
  have pos: "0 < cols g * rows g" using assms(2,3) by simp
  show ?thesis
    using assms pos
    by (auto simp: computeGridLayout_def Let_def len nat_mult_distrib mult.commute split: if_splits)
qed

lemma computePanelCount_nonneg: "0 \<le> computePanelCount n c"
proof (cases "c \<le> 0")
  case True
  then show ?thesis by (simp add: computePanelCount_def)
next
  case False
  then have "0 \<le> real n / real_of_int c" by simp
  then have "- 1 < real n / real_of_int c" by linarith
  then show ?thesis using False by (simp add: computePanelCount_def)
qed

lemma panelCount_examples:
  "computePanelCount 57 25 = 3" "computePanelCount 0 25 = 0" "computePanelCount 5 0 = 0"
  "computePanelCount 27 25 = 2"
  by (simp_all add: computePanelCount_def)

text \<open>
  Where the claim holds. Let the grid be finite, and let every selected item render
  (its file is in the map, parses, and is processed without exception). Then
  \<open>buildPanelSvgs\<close> resolves with exactly \<open>panelCount(n, c)\<close> panel documents, where
  \<open>panelCount(n, c)\<close> is 0 for \<open>c \<le> 0\<close> and \<open>ceil(n / c)\<close> otherwise; and when the grid
  has at least one column and one row, panel \<open>idx\<close> holds exactly the items of the
  slice from \<open>idx * c\<close> to \<open>min(n, (idx + 1) * c)\<close>, in order.
\<close>

lemma panels_of_rendering_items:
  assumes "computeGridLayout (PanelLayoutSettings.truncate settings) = Some grid"
    and "list_all (itemRenders br fileMap settings) selected"
  shows "\<exists>built. buildPanelSvgs br selected settings fileMap = Some (Inr built)
     \<and> int (length (panelSvgs built)) = computePanelCount (length selected) (capacityPerPanel grid)
     \<and> computePanelCount (length selected) (capacityPerPanel grid)
         = (if capacityPerPanel grid \<le> 0 then 0
            else \<lceil>real (length selected) / real_of_int (capacityPerPanel grid)\<rceil>)
     \<and> (0 < cols grid \<and> 0 < rows grid \<longrightarrow>
          (\<forall>idx < length (panelSvgs built).
             map cellFile (panelSvgs built ! idx)
               = slice selected (idx * nat (capacityPerPanel grid))
                   (min (length selected) ((idx + 1) * nat (capacityPerPanel grid)))))"
proof -
  let ?c = "capacityPerPanel grid"
  let ?pc = "computePanelCount (length selected) ?c"
  have def: "?pc = (if ?c \<le> 0 then 0 else \<lceil>real (length selected) / real_of_int ?c\<rceil>)"
    by (simp add: computePanelCount_def)
  show ?thesis
  proof (cases "?pc \<le> 0")
    case True
    then have z: "?pc = 0" using computePanelCount_nonneg [of "length selected" ?c] by simp
    have "buildPanelSvgs br selected settings fileMap
        = Some (Inr \<lparr> panelSvgs = [], builtCols = cols grid, builtRows = rows grid,
                       builtCapacityPerPanel = ?c \<rparr>)"
      using assms(1) True by (simp add: buildPanelSvgs_def Let_def)
    then show ?thesis using z def by simp
  next
    case False
    from buildPanels_ok [OF assms(2), of grid "[0 ..< nat ?pc]"]
    obtain panels where p: "buildPanels br fileMap settings grid selected [0 ..< nat ?pc] = Inr panels"
      "length panels = nat ?pc"
      "\<forall>k < nat ?pc. map cellFile (panels ! k) =
           take (length (placements grid))
             (slice selected (k * nat ?c) (min (length selected) (k * nat ?c + nat ?c)))"
      by auto
    have b: "buildPanelSvgs br selected settings fileMap
        = Some (Inr \<lparr> panelSvgs = panels, builtCols = cols grid, builtRows = rows grid,
                       builtCapacityPerPanel = ?c \<rparr>)"
      using assms(1) False p(1) by (simp add: buildPanelSvgs_def Let_def)
    have len: "int (length panels) = ?pc" using p(2) False by simp
    have sl: "map cellFile (panels ! idx)
               = slice selected (idx * nat ?c) (min (length selected) ((idx + 1) * nat ?c))"
      if pos: "0 < cols grid" "0 < rows grid" and idx: "idx < length panels" for idx
    proof -
      have pl: "length (placements grid) = nat ?c"
        by (rule placements_length [OF assms(1) pos])
      have "length (slice selected (idx * nat ?c) (min (length selected) (idx * nat ?c + nat ?c))) \<le> nat ?c"
        using length_slice [of selected "idx * nat ?c" "min (length selected) (idx * nat ?c + nat ?c)"]
        by linarith
      then have "take (length (placements grid))
             (slice selected (idx * nat ?c) (min (length selected) (idx * nat ?c + nat ?c)))
           = slice selected (idx * nat ?c) (min (length selected) (idx * nat ?c + nat ?c))"
        using pl by simp
      then show ?thesis using p(3) idx p(2) by (simp add: algebra_simps)
    qed
    show ?thesis
      using b len def sl by auto
  qed
qed

lemma panel300_grid:
  "\<exists>g. computeGridLayout (PanelLayoutSettings.truncate panel300) = Some g
      \<and> cols g = 5 \<and> rows g = 5 \<and> capacityPerPanel g = 25"
  by (simp add: computeGridLayout_def Let_def panel300_def PanelLayoutSettings.truncate_def)

lemma star_renders: "itemRenders (testBrowser openPathDoc noBoxes) starMap panel300 starFile"
  by code_simp

text \<open>The end-to-end example: 27 items on a 300 by 300 panel with 60 mm cells make two
  panels, of 25 and of 2 items.\<close>

lemma panels_of_27_items:
  "(\<exists>g. computeGridLayout (PanelLayoutSettings.truncate panel300) = Some g
        \<and> 0 < cols g \<and> 0 < rows g \<and> capacityPerPanel g = 25)
   \<and> list_all (itemRenders (testBrowser openPathDoc noBoxes) starMap panel300) (replicate 27 starFile)
   \<and> (\<exists>built. buildPanelSvgs (testBrowser openPathDoc noBoxes) (replicate 27 starFile) panel300 starMap
                  = Some (Inr built)
         \<and> map length (panelSvgs built) = [25, 2])"
proof -
  from panel300_grid obtain g where g: "computeGridLayout (PanelLayoutSettings.truncate panel300) = Some g"
    "cols g = 5" "rows g = 5" "capacityPerPanel g = 25" by blast
  have ok: "list_all (itemRenders (testBrowser openPathDoc noBoxes) starMap panel300) (replicate 27 starFile)"
    using star_renders by (simp add: list_all_iff)
  from panels_of_rendering_items [OF g(1) ok]
  obtain built where b: "buildPanelSvgs (testBrowser openPathDoc noBoxes) (replicate 27 starFile) panel300 starMap
                  = Some (Inr built)"
    "int (length (panelSvgs built)) = computePanelCount (length (replicate 27 starFile)) (capacityPerPanel g)"
    "0 < cols g \<and> 0 < rows g \<longrightarrow>
          (\<forall>idx < length (panelSvgs built).
             map cellFile (panelSvgs built ! idx)
               = slice (replicate 27 starFile) (idx * nat (capacityPerPanel g))
                   (min (length (replicate 27 starFile)) ((idx + 1) * nat (capacityPerPanel g))))"
    by blast
  have l2: "length (panelSvgs built) = 2"
    using b(2) g(4) by (simp add: panelCount_examples)
  have f: "\<forall>idx < 2. map cellFile (panelSvgs built ! idx)
               = slice (replicate 27 starFile) (idx * 25) (min 27 ((idx + 1) * 25))"
    using b(3) g l2 by simp
  have "length (map cellFile (panelSvgs built ! 0)) = 25"
    using f by (simp add: slice_def)
  moreover have "length (map cellFile (panelSvgs built ! 1)) = 2"
    using f by (simp add: slice_def)
  ultimately have "map length (panelSvgs built) = [25, 2]"
    using l2 by (cases "panelSvgs built"; cases "tl (panelSvgs built)") auto
  then have e: "\<exists>built. buildPanelSvgs (testBrowser openPathDoc noBoxes) (replicate 27 starFile) panel300 starMap
                  = Some (Inr built) \<and> map length (panelSvgs built) = [25, 2]"
    by (intro exI [of _ built] conjI b(1))
  have gg: "\<exists>g. computeGridLayout (PanelLayoutSettings.truncate panel300) = Some g
        \<and> 0 < cols g \<and> 0 < rows g \<and> capacityPerPanel g = 25"
    using g by auto
  show ?thesis by (intro conjI gg ok e)
qed

text \<open>One selected item whose file is not in the map: the build is rejected.\<close>

lemma missing_file_rejects:
  "buildPanelSvgs (testBrowser openPathDoc noBoxes) [starFile] panel300 Map.empty
   = Some (Inl (FileNotFound ''stars/star.svg''))"
  by code_simp

text \<open>
  Where it fails. When columns and rows are both negative the capacity is positive
  (\<open>capacity_both_negative\<close>), so \<open>panelCount(n, c)\<close> panels are emitted for \<open>n > 0\<close> items,
  but there is no placement and the loop over the items of a panel stops at once
  (\<open>if (!placement) break\<close>): every panel is empty, and no file is read.
\<close>

lemma buildPanels_no_placements:
  assumes "placements grid = []"
  shows "buildPanels br fm settings grid selected idxs = Inr (map (\<lambda>i. []) idxs)"
proof (induction idxs)
  case Nil
  then show ?case by simp
next
  case (Cons i idxs)
  have "renderCells br fm settings [] items = Inr []" for items
    by (cases items) simp_all
  then show ?case using Cons assms by (simp add: Let_def)
qed

lemma panels_empty_when_both_negative:
  assumes "computeGridLayout (PanelLayoutSettings.truncate settings) = Some grid"
    and "cols grid < 0" and "rows grid < 0"
  shows "\<exists>built. buildPanelSvgs br selected settings fileMap = Some (Inr built)
     \<and> int (length (panelSvgs built)) = computePanelCount (length selected) (capacityPerPanel grid)
     \<and> (\<forall>panel \<in> set (panelSvgs built). panel = [])"
proof -
  let ?c = "capacityPerPanel grid"
  let ?pc = "computePanelCount (length selected) ?c"
  from capacity_both_negative [OF assms] have pl: "placements grid = []" by simp
  show ?thesis
  proof (cases "?pc \<le> 0")
    case True
    then have z: "?pc = 0" using computePanelCount_nonneg [of "length selected" ?c] by simp
    have "buildPanelSvgs br selected settings fileMap
        = Some (Inr \<lparr> panelSvgs = [], builtCols = cols grid, builtRows = rows grid,
                       builtCapacityPerPanel = ?c \<rparr>)"
      using assms(1) True by (simp add: buildPanelSvgs_def Let_def)
    then show ?thesis using z by simp
  next
    case False
    have "buildPanelSvgs br selected settings fileMap
        = Some (Inr \<lparr> panelSvgs = map (\<lambda>i. []) [0 ..< nat ?pc], builtCols = cols grid,
                       builtRows = rows grid, builtCapacityPerPanel = ?c \<rparr>)"
      using assms(1) False buildPanels_no_placements [OF pl, of br fileMap settings selected "[0 ..< nat ?pc]"]
      by (simp add: buildPanelSvgs_def Let_def)
    then show ?thesis using False by auto
  qed
qed

lemma panels_without_cells:
  "buildPanelSvgs (testBrowser openPathDoc noBoxes) [starFile, starFile] overMargin starMap
   = Some (Inr \<lparr> panelSvgs = [[]], builtCols = - 3, builtRows = - 3, builtCapacityPerPanel = 9 \<rparr>)"
  by code_simp

text \<open>
  Claim C7 fails on the code. On a 300 by 300 panel with 10 mm cells and a gutter of
  \<open>-20\<close> (columns and rows are \<open>-28\<close>, the capacity is \<open>784\<close>) one selected item gives
  \<open>panelCount(1, 784) = 1\<close> panel; the claim puts the slice from 0 to \<open>min(1, 784)\<close>, that
  is, the item, into it, but the panel that \<open>buildPanelSvgs\<close> emits holds no item.
\<close>

theorem C7_panel_without_its_item:
  "buildPanelSvgs (testBrowser openPathDoc noBoxes) [starFile] negativeGutter starMap
   = Some (Inr \<lparr> panelSvgs = [[]], builtCols = - 28, builtRows = - 28, builtCapacityPerPanel = 784 \<rparr>)
   \<and> computePanelCount (length [starFile]) 784 = 1
   \<and> slice [starFile] (0 * 784) (min (length [starFile]) ((0 + 1) * 784)) = [starFile]"
  by code_simp

section \<open>The layer transform, applied twice\<close>

subsection \<open>Normalizing twice\<close>

lemma lowerChar_idem: "lowerChar (lowerChar c) = lowerChar c"
  by (simp add: lowerChar_def isUpper_def Let_def)

lemma isSpace_lowerChar: "isSpace (lowerChar c) = isSpace c"
  by (auto simp: lowerChar_def isUpper_def isSpace_def Let_def)

lemma toLowerCase_idem: "toLowerCase (toLowerCase s) = toLowerCase s"
  by (simp add: toLowerCase_def lowerChar_idem)

lemma dropWhile_lower: "dropWhile isSpace (map lowerChar s) = map lowerChar (dropWhile isSpace s)"
  by (induction s) (simp_all add: isSpace_lowerChar)

lemma trim_toLowerCase: "trim (toLowerCase s) = toLowerCase (trim s)"
proof -
  have "dropWhile isSpace (rev (map lowerChar (dropWhile isSpace s)))
        = map lowerChar (dropWhile isSpace (rev (dropWhile isSpace s)))"
    by (subst rev_map) (rule dropWhile_lower)
  then show ?thesis
    by (simp add: trim_def toLowerCase_def dropWhile_lower rev_map)
qed

lemma trim_id:
  assumes "s = [] \<or> (\<not> isSpace (hd s) \<and> \<not> isSpace (last s))"
  shows "trim s = s"
proof (cases s)
  case Nil
  then show ?thesis by (simp add: trim_def)
next
  case (Cons x xs)
  with assms have h: "\<not> isSpace (hd s)" and l: "\<not> isSpace (last s)" by auto
  have 1: "dropWhile isSpace s = s" using h Cons by simp
  have "hd (rev s) = last s" using Cons by (simp add: hd_rev)
  then have 2: "dropWhile isSpace (rev s) = rev s"
    using l Cons by (cases "rev s") auto
  show ?thesis by (simp add: trim_def 1 2)
qed

lemma trimmed_trim: "trim s = [] \<or> (\<not> isSpace (hd (trim s)) \<and> \<not> isSpace (last (trim s)))"
proof (cases "trim s = []")
  case True
  then show ?thesis by simp
next
  case False
  let ?u = "dropWhile isSpace s"
  let ?v = "dropWhile isSpace (rev ?u)"
  have t: "trim s = rev ?v" by (simp add: trim_def)
  from False t have v: "?v \<noteq> []" by simp
  then have "\<not> isSpace (hd ?v)" by (rule hd_dropWhile)
  then have l: "\<not> isSpace (last (trim s))" using v by (simp add: t last_rev)
  have u: "?u \<noteq> []"
  proof
    assume "?u = []"
    then have "rev ?u = []" by (simp only: rev.simps)
    then have "?v = []" by (simp only: dropWhile.simps)
    with v show False by (simp only: not_True_eq_False simp_thms)
  qed
  have "rev ?u = takeWhile isSpace (rev ?u) @ ?v" by simp
  then have "?u = rev ?v @ rev (takeWhile isSpace (rev ?u))"
    by (metis rev_append rev_rev_ident)
  then have "hd ?u = hd (rev ?v)" using v by (metis hd_append2 rev_is_Nil_conv)
  moreover have "\<not> isSpace (hd ?u)" using u by (rule hd_dropWhile)
  ultimately have "\<not> isSpace (hd (trim s))" by (simp add: t)
  with l show ?thesis by simp
qed

lemma trim_idem: "trim (trim s) = trim s"
  by (rule trim_id) (rule trimmed_trim)

lemma lowered_trimmed:
  "toLowerCase (trim (toLowerCase (trim s))) = toLowerCase (trim s)"
  by (simp add: trim_toLowerCase trim_idem toLowerCase_idem)

lemma isLowerHexDigit_plain: "isLowerHexDigit c \<Longrightarrow> lowerChar c = c \<and> \<not> isSpace c"
  by (auto simp: isLowerHexDigit_def isDigit_def lowerChar_def isUpper_def isSpace_def Let_def)

lemma toHex_digits: "list_all isLowerHexDigit (toHex n)"
proof (induction n rule: toHex.induct)
  case (1 n)
  show ?case
  proof (cases "n < 16")
    case True
    then show ?thesis by (simp add: toHex_small hexDigit_lower)
  next
    case False
    then have "toHex n = toHex (n div 16) @ [hexDigit (n mod 16)]"
      by (subst toHex.simps) (simp del: toHex.simps)
    moreover have "list_all isLowerHexDigit (toHex (n div 16))" using 1 False by simp
    ultimately show ?thesis by (simp add: hexDigit_lower del: toHex.simps)
  qed
qed

lemma padStart2_digits: "list_all isLowerHexDigit (padStart2 (toHex n)) \<and> 2 \<le> length (padStart2 (toHex n))"
proof -
  have "isLowerHexDigit (CHR ''0'')" by (simp add: isLowerHexDigit_def isDigit_def)
  then show ?thesis
    using toHex_digits [of n] by (auto simp: padStart2_def list_all_iff simp del: toHex.simps)
qed

lemma hex_string_fixed:
  assumes "list_all isLowerHexDigit ds" and "ds \<noteq> []"
  shows "toLowerCase (trim (CHR ''#'' # ds)) = CHR ''#'' # ds"
proof -
  have "last ds \<in> set ds" using assms(2) by simp
  then have "\<not> isSpace (last ds)" using assms(1) isLowerHexDigit_plain by (auto simp: list_all_iff)
  moreover have "\<not> isSpace (CHR ''#'')" by (simp add: isSpace_def)
  ultimately have "trim (CHR ''#'' # ds) = CHR ''#'' # ds"
    using assms(2) by (intro trim_id) simp
  moreover have "map lowerChar ds = ds"
    using assms(1) isLowerHexDigit_plain by (induction ds) auto
  moreover have "lowerChar (CHR ''#'') = CHR ''#''" by (simp add: lowerChar_def isUpper_def)
  ultimately show ?thesis by (simp add: toLowerCase_def)
qed

lemma named_values_fixed:
  assumes "namedColors c = Some (Str t)"
  shows "normalizeString t = Str t"
proof -
  from assms have "t \<in> {''#000000'', ''#ffffff'', ''#ff0000'', ''#00ff00'', ''#0000ff'', ''none''}"
    by (auto simp: namedColors_def split: option.splits if_splits)
  moreover have "normalizeString ''#000000'' = Str ''#000000''" by code_simp
  moreover have "normalizeString ''#ffffff'' = Str ''#ffffff''" by code_simp
  moreover have "normalizeString ''#ff0000'' = Str ''#ff0000''" by code_simp
  moreover have "normalizeString ''#00ff00'' = Str ''#00ff00''" by code_simp
  moreover have "normalizeString ''#0000ff'' = Str ''#0000ff''" by code_simp
  moreover have "normalizeString ''none'' = Str ''none''" by code_simp
  ultimately show ?thesis by auto
qed

text \<open>A colour that \<open>normalizeColorToHex\<close> has produced is left as it is by a second
  call.\<close>

lemma normalizeString_idem:
  assumes "normalizeString p = Str t"
  shows "normalizeString t = Str t"
proof -
  let ?c = "toLowerCase (trim p)"
  have cc: "toLowerCase (trim ?c) = ?c" by (rule lowered_trimmed)
  have same: "normalizeString ?c = normalizeString p"
    by (simp add: normalizeString_def cc)
  show ?thesis
  proof (cases "take 1 ?c = ''#''")
    case hash: True
    show ?thesis
    proof (cases "length ?c = 4")
      case True
      then have "length ?c = Suc (Suc (Suc (Suc 0)))" by simp
      then obtain x a b d where c: "?c = [x, a, b, d]"
        by (auto simp: length_Suc_conv)
      have t: "t = [CHR ''#'', a, a, b, b, d, d]"
        using assms hash by (simp add: normalizeString_def Let_def c)
      have "map lowerChar ?c = ?c" using toLowerCase_idem [of "trim p"] by (simp add: toLowerCase_def)
      then have low: "lowerChar a = a" "lowerChar b = b" "lowerChar d = d" by (simp_all add: c)
      have "?c = [] \<or> (\<not> isSpace (hd ?c) \<and> \<not> isSpace (last ?c))"
        using trimmed_trim [of "toLowerCase p"] by (simp only: trim_toLowerCase)
      then have sp: "\<not> isSpace d" by (simp add: c)
      have "\<not> isSpace (CHR ''#'')" by (simp add: isSpace_def)
      then have "trim t = t" using sp by (intro trim_id) (simp add: t)
      moreover have "lowerChar (CHR ''#'') = CHR ''#''" by (simp add: lowerChar_def isUpper_def)
      ultimately have "toLowerCase (trim t) = t" using low by (simp add: toLowerCase_def t)
      then show ?thesis by (simp add: normalizeString_def Let_def) (simp add: t)
    next
      case False
      then have "t = ?c" using assms hash by (simp add: normalizeString_def Let_def)
      then show ?thesis using same assms by simp
    qed
  next
    case nohash: False
    show ?thesis
    proof (cases "namedColors ?c")
      case (Some v)
      then have "namedColors ?c = Some (Str t)"
        using assms nohash by (simp add: normalizeString_def Let_def)
      then show ?thesis by (rule named_values_fixed)
    next
      case None
      show ?thesis
      proof (cases "matchRgb ?c")
        case none: None
        then have "t = ?c" using assms nohash None by (simp add: normalizeString_def Let_def)
        then show ?thesis using same assms by simp
      next
        case (Some rgb)
        obtain r' g' b' where rgb: "rgb = (r', g', b')" by (cases rgb) auto
        have ex: "r' \<noteq> None \<and> g' \<noteq> None \<and> b' \<noteq> None"
          using assms nohash None Some rgb
          by (auto simp: normalizeString_def Let_def simp del: toHex.simps split: if_splits)
        define r g b where "r = the r'" and "g = the g'" and "b = the b'"
        let ?ds = "padStart2 (toHex r) @ padStart2 (toHex g) @ padStart2 (toHex b)"
        have t: "t = CHR ''#'' # ?ds"
          using assms nohash None Some rgb ex
          by (simp add: normalizeString_def Let_def r_def g_def b_def del: toHex.simps)
        have d: "list_all isLowerHexDigit ?ds" "6 \<le> length ?ds"
          using padStart2_digits [of r] padStart2_digits [of g] padStart2_digits [of b]
          by (simp_all del: toHex.simps)
        then have "?ds \<noteq> []" by (auto simp del: toHex.simps)
        with d(1) have "toLowerCase (trim (CHR ''#'' # ?ds)) = CHR ''#'' # ?ds"
          by (rule hex_string_fixed)
        moreover have "length (CHR ''#'' # ?ds) \<noteq> 4" using d(2) by (simp del: toHex.simps)
        ultimately have "normalizeString (CHR ''#'' # ?ds) = Str (CHR ''#'' # ?ds)"
          by (simp add: normalizeString_def Let_def del: toHex.simps)
        then show ?thesis by (simp only: t)
      qed
    qed
  qed
qed

subsection \<open>Attributes\<close>

lemma get_set: "getAttribute (setAttribute k v a) k' = (if k' = k then Some v else getAttribute a k')"
  by (simp add: getAttribute_def setAttribute_def update_conv')

lemma get_remove: "getAttribute (removeAttribute k a) k' = (if k' = k then None else getAttribute a k')"
  by (simp add: getAttribute_def removeAttribute_def delete_conv')

lemma set_same: "getAttribute a k = Some v \<Longrightarrow> setAttribute k v a = a"
  by (simp add: getAttribute_def setAttribute_def update_triv)

lemma remove_absent: "getAttribute a k = None \<Longrightarrow> removeAttribute k a = a"
  by (simp add: getAttribute_def removeAttribute_def delete_id map_of_eq_None_iff)

lemma strip_plain:
  assumes "getAttribute a ''class'' = None" and "getAttribute a ''style'' = None"
  shows "removeAttribute ''style'' (removeAttribute ''class'' a) = a"
  using assms by (simp add: remove_absent)

lemma plain_strip:
  "getAttribute (removeAttribute ''style'' (removeAttribute ''class'' a)) ''class'' = None"
  "getAttribute (removeAttribute ''style'' (removeAttribute ''class'' a)) ''style'' = None"
  by (simp_all add: get_remove)

text \<open>Without \<open>class\<close> and \<open>style\<close> the resolved paints are the plain attributes.\<close>

lemma colours_plain:
  assumes "getAttribute a ''class'' = None" and "getAttribute a ''style'' = None"
  shows "getElementColors sm a =
     \<lparr> ecFill = (if truthy (getAttribute a ''fill'') then getAttribute a ''fill'' else None),
       ecStroke = (if truthy (getAttribute a ''stroke'') then getAttribute a ''stroke'' else None),
       ecStrokeWidth = (if truthy (getAttribute a ''stroke-width'')
                        then getAttribute a ''stroke-width'' else None) \<rparr>"
  using assms by (simp add: getElementColors_def Let_def orAttribute_def truthy_def)

lemma visible_truthy: "visiblePaint v \<Longrightarrow> truthy v"
  by (simp add: visiblePaint_def truthy_def split: option.splits)

lemma none_invisible: "\<not> visiblePaint (Some ''none'')"
proof -
  have "toLowerCase ''none'' = ''none''" by code_simp
  then show ?thesis by (simp add: visiblePaint_def)
qed

lemma painted_plain:
  assumes "getAttribute a ''class'' = None" and "getAttribute a ''style'' = None"
  shows "painted sm a \<longleftrightarrow> visiblePaint (getAttribute a ''fill'') \<or> visiblePaint (getAttribute a ''stroke'')"
proof -
  have "visiblePaint (if truthy v then v else None) = visiblePaint v" for v
    using visible_truthy [of v] by (auto simp: visiblePaint_def)
  then show ?thesis
    by (simp add: painted_def colours_plain [OF assms])
qed

subsection \<open>Elements that the rules leave alone\<close>

lemma fixed_paintless:
  assumes "getAttribute a ''class'' = None" and "getAttribute a ''style'' = None"
    and "\<not> painted sm a"
  shows "processElement sm (Some ls) t a = Inr (Some a)"
  using assms(3)
  by (simp add: processElement_def Let_def painted_def strip_plain [OF assms(1,2)])

lemma fixed_fill:
  assumes pl: "getAttribute a ''class'' = None" "getAttribute a ''style'' = None"
    and f: "getAttribute a ''fill'' = Some c" and s: "getAttribute a ''stroke'' = Some ''none''"
    and v: "visiblePaint (Some c)"
    and r: "reMapped ls Fill c"
  shows "processElement sm (Some ls) t a = Inr (Some a)"
proof -
  from r obtain cfg where cfg: "findLayerConfig c ls = Inr (Some cfg)" "visibility cfg \<noteq> Hidden"
      "renderMode cfg = Fill" "targetColorOf cfg c = Inr c"
    by (auto simp: reMapped_def split: sum.splits option.splits)
  have tc: "truthy (Some c)" using v by (rule visible_truthy)
  have col: "getElementColors sm a =
      \<lparr> ecFill = Some c, ecStroke = Some ''none'',
        ecStrokeWidth = (if truthy (getAttribute a ''stroke-width'')
                         then getAttribute a ''stroke-width'' else None) \<rparr>"
    using tc by (simp add: colours_plain [OF pl] f s truthy_def)
  have look: "lookupLayer c False (Some ''none'') ls = Inr (Some (cfg, c))"
    by (simp add: lookupLayer_def cfg(1))
  have app: "applyRenderMode Fill t True False colors c a = a" for colors
    by (simp add: applyRenderMode_def set_same [OF f] set_same [OF s])
  show ?thesis
    by (simp add: processElement_def Let_def col v none_invisible look cfg(2,3,4) app
          strip_plain [OF pl])
qed

lemma fixed_stroke:
  assumes pl: "getAttribute a ''class'' = None" "getAttribute a ''style'' = None"
    and f: "getAttribute a ''fill'' = Some ''none''" and s: "getAttribute a ''stroke'' = Some c"
    and w: "getAttribute a ''stroke-width'' = Some w" "w \<noteq> []"
    and v: "visiblePaint (Some c)"
    and r: "reMapped ls Stroke c"
  shows "processElement sm (Some ls) t a = Inr (Some a)"
proof -
  from r obtain cfg where cfg: "findLayerConfig c ls = Inr (Some cfg)" "visibility cfg \<noteq> Hidden"
      "renderMode cfg = Stroke" "targetColorOf cfg c = Inr c"
    by (auto simp: reMapped_def split: sum.splits option.splits)
  have tc: "truthy (Some c)" using v by (rule visible_truthy)
  have col: "getElementColors sm a =
      \<lparr> ecFill = Some ''none'', ecStroke = Some c, ecStrokeWidth = Some w \<rparr>"
    using tc w(2) by (simp add: colours_plain [OF pl] f s w(1) truthy_def)
  have look: "lookupLayer c True (Some c) ls = Inr (Some (cfg, c))"
    by (simp add: lookupLayer_def cfg(1))
  have od: "orDefault (Some w) d = w" for d using w(2) by (simp add: orDefault_def)
  have app: "applyRenderMode Stroke t False True
       \<lparr> ecFill = Some ''none'', ecStroke = Some c, ecStrokeWidth = Some w \<rparr> c a = a"
    by (simp add: applyRenderMode_def od set_same [OF f] set_same [OF s] set_same [OF w(1)])
  show ?thesis
    by (simp add: processElement_def Let_def col v none_invisible look cfg(2,3,4) app
          strip_plain [OF pl])
qed

text \<open>The attribute lists that fill mode and stroke mode write are fixed, provided the
  colour written is not visible or is mapped to itself by the rules.\<close>

lemma after_fill:
  assumes pl: "getAttribute a ''class'' = None" "getAttribute a ''style'' = None"
    and r: "\<not> visiblePaint (Some c) \<or> reMapped ls Fill c"
  shows "processElement sm (Some ls) t (setAttribute ''stroke'' ''none'' (setAttribute ''fill'' c a))
         = Inr (Some (setAttribute ''stroke'' ''none'' (setAttribute ''fill'' c a)))"
proof -
  let ?a = "setAttribute ''stroke'' ''none'' (setAttribute ''fill'' c a)"
  have pl': "getAttribute ?a ''class'' = None" "getAttribute ?a ''style'' = None"
    using pl by (simp_all add: get_set)
  have f: "getAttribute ?a ''fill'' = Some c" and s: "getAttribute ?a ''stroke'' = Some ''none''"
    by (simp_all add: get_set)
  show ?thesis
  proof (cases "visiblePaint (Some c)")
    case True
    with r have "reMapped ls Fill c" by simp
    with pl' f s True show ?thesis by (rule fixed_fill)
  next
    case False
    then have "\<not> painted sm ?a"
      using none_invisible by (simp add: painted_plain [OF pl'] f s)
    with pl' show ?thesis by (rule fixed_paintless)
  qed
qed

lemma after_stroke:
  assumes pl: "getAttribute a ''class'' = None" "getAttribute a ''style'' = None"
    and w: "w \<noteq> []"
    and r: "\<not> visiblePaint (Some c) \<or> reMapped ls Stroke c"
  shows "processElement sm (Some ls) t
           (setAttribute ''stroke-width'' w (setAttribute ''stroke'' c (setAttribute ''fill'' ''none'' a)))
         = Inr (Some (setAttribute ''stroke-width'' w
                        (setAttribute ''stroke'' c (setAttribute ''fill'' ''none'' a))))"
proof -
  let ?a = "setAttribute ''stroke-width'' w (setAttribute ''stroke'' c (setAttribute ''fill'' ''none'' a))"
  have pl': "getAttribute ?a ''class'' = None" "getAttribute ?a ''style'' = None"
    using pl by (simp_all add: get_set)
  have f: "getAttribute ?a ''fill'' = Some ''none''" and s: "getAttribute ?a ''stroke'' = Some c"
    and sw: "getAttribute ?a ''stroke-width'' = Some w"
    by (simp_all add: get_set)
  show ?thesis
  proof (cases "visiblePaint (Some c)")
    case True
    with r have "reMapped ls Stroke c" by simp
    with pl' f s sw w True show ?thesis by (rule fixed_stroke)
  next
    case False
    then have "\<not> painted sm ?a"
      using none_invisible by (simp add: painted_plain [OF pl'] f s)
    with pl' show ?thesis by (rule fixed_paintless)
  qed
qed

text \<open>The branch of fill mode that keeps an open shape as a stroke ends with both
  paints \<open>none\<close>, so a second pass finds nothing to look up.\<close>

lemma after_open_fill:
  assumes pl: "getAttribute a ''class'' = None" "getAttribute a ''style'' = None"
  shows "processElement sm (Some ls) t
           (setAttribute ''stroke'' ''none'' (setAttribute ''stroke-width'' w
              (setAttribute ''stroke'' c (setAttribute ''fill'' ''none'' a))))
         = Inr (Some (setAttribute ''stroke'' ''none'' (setAttribute ''stroke-width'' w
              (setAttribute ''stroke'' c (setAttribute ''fill'' ''none'' a)))))"
proof -
  let ?a = "setAttribute ''stroke'' ''none'' (setAttribute ''stroke-width'' w
              (setAttribute ''stroke'' c (setAttribute ''fill'' ''none'' a)))"
  have pl': "getAttribute ?a ''class'' = None" "getAttribute ?a ''style'' = None"
    using pl by (simp_all add: get_set)
  have f: "getAttribute ?a ''fill'' = Some ''none''" and s: "getAttribute ?a ''stroke'' = Some ''none''"
    by (simp_all add: get_set)
  have "\<not> painted sm ?a"
    using none_invisible by (simp add: painted_plain [OF pl'] f s)
  with pl' show ?thesis by (rule fixed_paintless)
qed

subsection \<open>A rule that was found\<close>

lemma firstMatching_mem: "firstMatching v ls = Inr (Some cfg) \<Longrightarrow> cfg \<in> set ls"
  by (induction ls) (auto split: sum.splits bool.splits)

lemma firstMatching_Proto: "firstMatching (Proto k) ls \<noteq> Inr (Some cfg)"
  by (cases ls) (simp_all add: colorsMatch_def normalizeColorToHex_def)

lemma firstMatching_Beyond: "firstMatching Beyond ls \<noteq> Inr (Some cfg)"
  by (cases ls) (simp_all add: colorsMatch_def normalizeColorToHex_def)

lemma findLayerConfig_found:
  assumes "findLayerConfig p ls = Inr (Some cfg)"
  shows "cfg \<in> set ls
     \<and> (\<exists>c. normalizeString p = Str c \<and> c \<noteq> ''none'' \<and> c \<noteq> [] \<and> firstMatching (Str c) ls = Inr (Some cfg))"
proof -
  from assms have n: "normalizeString p \<noteq> Str ''none''" "normalizeString p \<noteq> Str []"
    and fm: "firstMatching (normalizeString p) ls = Inr (Some cfg)"
    by (auto simp: findLayerConfig_def Let_def split: if_splits)
  from fm have "cfg \<in> set ls" by (rule firstMatching_mem)
  moreover obtain c where c: "normalizeString p = Str c"
    using fm firstMatching_Proto firstMatching_Beyond by (cases "normalizeString p") auto
  ultimately show ?thesis using n fm by simp
qed

text \<open>A colour that matched a rule normalizes to a string, so \<open>targetColorOf\<close> does not
  fail on it.\<close>

lemma findLayerConfig_Str:
  assumes "findLayerConfig p ls = Inr (Some cfg)"
  shows "\<exists>c. targetColorOf cfg p = Inr c"
  using findLayerConfig_found [OF assms] by (auto simp: targetColorOf_def)

lemma lookupLayer_found:
  assumes "lookupLayer p hs sc ls = Inr (Some (cfg, q))"
  shows "findLayerConfig q ls = Inr (Some cfg)"
  using assms
  by (auto simp: lookupLayer_def split: sum.splits option.splits bool.splits)

text \<open>With a rule list closed under its own output, the colour that a visible rule
  writes is either not a visible paint or is mapped to itself, in the same mode.\<close>

lemma target_remapped:
  assumes sm: "selfMapped ls"
    and found: "findLayerConfig p ls = Inr (Some cfg)"
    and vis: "visibility cfg \<noteq> Hidden"
    and tgt: "targetColorOf cfg p = Inr c"
  shows "\<not> visiblePaint (Some c) \<or> reMapped ls (renderMode cfg) c"
proof (cases "fixedTarget cfg")
  case (Some t)
  then have "targetColorOf cfg p = Inr t"
    by (auto simp: fixedTarget_def targetColorOf_def truthy_def split: if_splits)
  with tgt have "t = c" by simp
  moreover from findLayerConfig_found [OF found] have "cfg \<in> set ls" by simp
  ultimately show ?thesis
    using sm vis Some by (auto simp: selfMapped_def list_all_iff)
next
  case None
  then have no: "\<not> truthy (outputColor cfg)" "visibility cfg \<noteq> ShowBlack"
    by (auto simp: fixedTarget_def truthy_def split: if_splits)
  from findLayerConfig_found [OF found] obtain c' where c': "normalizeString p = Str c'"
      "c' \<noteq> ''none''" "c' \<noteq> []" "firstMatching (Str c') ls = Inr (Some cfg)"
    by auto
  from tgt no c'(1) have "c' = c" by (simp add: targetColorOf_def)
  with c' have c: "normalizeString p = Str c" "c \<noteq> ''none''" "c \<noteq> []"
      "firstMatching (Str c) ls = Inr (Some cfg)"
    by simp_all
  have idem: "normalizeString c = Str c" using c(1) by (rule normalizeString_idem)
  have "findLayerConfig c ls = Inr (Some cfg)"
    by (simp add: findLayerConfig_def Let_def idem c)
  moreover have "targetColorOf cfg c = Inr c"
    using no by (simp add: targetColorOf_def idem)
  ultimately have "reMapped ls (renderMode cfg) c"
    using vis by (simp add: reMapped_def)
  then show ?thesis by simp
qed

subsection \<open>One element, processed twice\<close>

lemma orDefault_nonempty: "d \<noteq> [] \<Longrightarrow> orDefault v d \<noteq> []"
  by (simp add: orDefault_def split: option.splits)

lemma processElement_twice:
  assumes first: "processElement sm (Some ls) t a = Inr (Some a')"
    and closed: "selfMapped ls"
    and stable: "painted sm a \<or> \<not> painted Map.empty (stripScoping a)"
  shows "processElement sm' (Some ls) t a' = Inr (Some a')"
proof -
  let ?colors = "getElementColors sm a"
  let ?a0 = "removeAttribute ''style'' (removeAttribute ''class'' a)"
  let ?hf = "visiblePaint (ecFill ?colors)"
  let ?hs = "visiblePaint (ecStroke ?colors)"
  have pl: "getAttribute ?a0 ''class'' = None" "getAttribute ?a0 ''style'' = None"
    by (rule plain_strip)+
  show ?thesis
  proof (cases "?hf \<or> ?hs")
    case False
    then have np: "\<not> painted sm a" by (simp add: painted_def)
    from False first have a': "a' = ?a0"
      by (auto simp: processElement_def Let_def)
    from np stable have "\<not> painted Map.empty ?a0" by (simp add: stripScoping_def)
    then have "\<not> painted sm' ?a0" by (simp add: painted_plain [OF pl])
    with pl show ?thesis unfolding a' by (rule fixed_paintless)
  next
    case True
    define p where "p = (if ?hf then ecFill ?colors else ecStroke ?colors)"
    from True have "truthy p" by (auto simp: p_def intro: visible_truthy)
    then obtain pc where pc: "p = Some pc" by (cases p) (auto simp: truthy_def)
    have prim: "(if ?hf then ecFill ?colors else if ?hs then ecStroke ?colors else None) = Some pc"
      using True pc by (auto simp: p_def)
    from first obtain cfg q c where
        look: "lookupLayer pc ?hs (ecStroke ?colors) ls = Inr (Some (cfg, q))"
      and vis: "visibility cfg \<noteq> Hidden"
      and tgt: "targetColorOf cfg q = Inr c"
      and a': "a' = applyRenderMode (renderMode cfg) t ?hf ?hs ?colors c ?a0"
      unfolding processElement_def Let_def prim
      by (auto split: sum.splits option.splits if_splits)
    have found: "findLayerConfig q ls = Inr (Some cfg)" using look by (rule lookupLayer_found)
    have re: "\<not> visiblePaint (Some c) \<or> reMapped ls (renderMode cfg) c"
      using closed found vis tgt by (rule target_remapped)
    show ?thesis
    proof (cases "renderMode cfg")
      case Fill
      show ?thesis
      proof (cases "?hf \<or> canFill (toLowerCase t) ?a0")
        case yes: True
        then have "a' = setAttribute ''stroke'' ''none'' (setAttribute ''fill'' c ?a0)"
          using True by (auto simp: a' Fill applyRenderMode_def)
        moreover from re Fill have "\<not> visiblePaint (Some c) \<or> reMapped ls Fill c" by simp
        ultimately show ?thesis using after_fill [OF pl] by simp
      next
        case no: False
        then have "a' = setAttribute ''stroke'' ''none''
            (setAttribute ''stroke-width'' (orDefault (ecStrokeWidth ?colors) ''0.5'')
               (setAttribute ''stroke'' c (setAttribute ''fill'' ''none'' ?a0)))"
          using True by (auto simp: a' Fill applyRenderMode_def)
        then show ?thesis using after_open_fill [OF pl] by simp
      qed
    next
      case Stroke
      define w where "w = (if ?hf then orDefault (ecStrokeWidth ?colors) ''1''
                           else orDefault (ecStrokeWidth ?colors) ''0.5'')"
      have w: "w \<noteq> []" by (simp add: w_def orDefault_nonempty)
      have "a' = setAttribute ''stroke-width'' w (setAttribute ''stroke'' c (setAttribute ''fill'' ''none'' ?a0))"
        by (simp add: a' Stroke applyRenderMode_def w_def)
      moreover from re Stroke have "\<not> visiblePaint (Some c) \<or> reMapped ls Stroke c" by simp
      ultimately show ?thesis using after_stroke [OF pl w] by simp
    qed
  qed
qed

subsection \<open>A forest, processed twice\<close>

lemma stablePaint_Cons: "stablePaint sm (n # ns) \<longleftrightarrow> stablePaint sm [n] \<and> stablePaint sm ns"
  using shapeSigs_append [of "[n]" ns] by (simp add: stablePaint_def)

lemma stablePaint_Element:
  "stablePaint sm [Element t a cs] \<longleftrightarrow>
     (t \<in> set shapeTags \<longrightarrow> painted sm a \<or> \<not> painted Map.empty (stripScoping a)) \<and> stablePaint sm cs"
  by (simp add: stablePaint_def shapeSigs_Element)

text \<open>Every shape that comes out of a first pass is left as it is by a second pass.\<close>

lemma first_pass_fixed:
  "(\<exists>ls. layers = Some ls \<and> selfMapped ls) \<Longrightarrow> stablePaint sm [n] \<Longrightarrow> processNode sm layers n = Inr r
     \<Longrightarrow> \<forall>p \<in> set (shapeSigs (case r of None \<Rightarrow> [] | Some n' \<Rightarrow> [n'])).
           processElement sm' layers (fst p) (snd p) = Inr (Some (snd p))"
  "(\<exists>ls. layers = Some ls \<and> selfMapped ls) \<Longrightarrow> stablePaint sm ns \<Longrightarrow> processNodes sm layers ns = Inr out
     \<Longrightarrow> \<forall>p \<in> set (shapeSigs out). processElement sm' layers (fst p) (snd p) = Inr (Some (snd p))"
proof (induction sm layers n and sm layers ns arbitrary: r and out rule: processNode_processNodes.induct)
  case (1 sm layers s)
  then show ?case by auto
next
  case (2 sm layers t a cs)
  from 2(2) obtain ls where ls: "layers = Some ls" "selfMapped ls" by blast
  from 2(3) have st: "t \<in> set shapeTags \<longrightarrow> painted sm a \<or> \<not> painted Map.empty (stripScoping a)"
    and stc: "stablePaint sm cs"
    by (simp_all add: stablePaint_Element)
  from 2(4) obtain cs' where cs: "processNodes sm layers cs = Inr cs'"
    by (auto split: sum.splits)
  note fc = 2(1) [OF 2(2) stc cs]
  show ?case
  proof (cases "t \<in> set shapeTags")
    case False
    then have "r = Some (Element t a cs')" using 2(4) cs by (simp add: isShape_iff)
    then show ?thesis using fc False by (simp add: shapeSigs_Element)
  next
    case True
    show ?thesis
    proof (cases r)
      case None
      then show ?thesis by simp
    next
      case (Some n')
      then obtain a' where a': "processElement sm layers t a = Inr (Some a')" and n': "n' = Element t a' cs'"
        using 2(4) cs True by (auto simp: isShape_iff split: sum.splits option.splits)
      have "processElement sm' (Some ls) t a' = Inr (Some a')"
        using a' ls(2) st True unfolding ls(1) by (intro processElement_twice) auto
      then show ?thesis using fc Some n' True ls(1) by (simp add: shapeSigs_Element)
    qed
  qed
next
  case (3 sm layers)
  then show ?case by auto
next
  case (4 sm layers n ns)
  from 4(4) have s1: "stablePaint sm [n]" and s2: "stablePaint sm ns"
    by (simp_all add: stablePaint_Cons [of sm n ns])
  from 4(5) obtain r ns' where r: "processNode sm layers n = Inr r"
    and ns': "processNodes sm layers ns = Inr ns'"
    and out: "out = (case r of None \<Rightarrow> ns' | Some n' \<Rightarrow> n' # ns')"
    by (auto split: sum.splits)
  note f1 = 4(1) [OF 4(3) s1 r]
  note f2 = 4(2) [OF r 4(3) s2 ns']
  show ?case
  proof (cases r)
    case None
    then show ?thesis using f2 out by simp
  next
    case (Some n')
    have "shapeSigs (n' # ns') = shapeSigs [n'] @ shapeSigs ns'"
      using shapeSigs_append [of "[n']" ns'] by simp
    then show ?thesis using f1 f2 out Some by auto
  qed
qed

text \<open>A forest whose shapes are all left as they are is returned unchanged.\<close>

lemma fixed_forest:
  "\<forall>p \<in> set (shapeSigs [n]). processElement sm layers (fst p) (snd p) = Inr (Some (snd p))
     \<Longrightarrow> processNode sm layers n = Inr (Some n)"
  "\<forall>p \<in> set (shapeSigs ns). processElement sm layers (fst p) (snd p) = Inr (Some (snd p))
     \<Longrightarrow> processNodes sm layers ns = Inr ns"
proof (induction sm layers n and sm layers ns rule: processNode_processNodes.induct)
  case (1 sm layers s)
  then show ?case by simp
next
  case (2 sm layers t a cs)
  from 2(2) have "\<forall>p \<in> set (shapeSigs cs). processElement sm layers (fst p) (snd p) = Inr (Some (snd p))"
    by (simp add: shapeSigs_Element)
  from 2(1) [OF this] have cs: "processNodes sm layers cs = Inr cs" .
  show ?case
  proof (cases "t \<in> set shapeTags")
    case False
    then show ?thesis using cs by (simp add: isShape_iff)
  next
    case True
    then have "processElement sm layers t a = Inr (Some a)" using 2(2) by (simp add: shapeSigs_Element)
    then show ?thesis using cs True by (simp add: isShape_iff)
  qed
next
  case (3 sm layers)
  then show ?case by simp
next
  case (4 sm layers n ns)
  have app: "shapeSigs (n # ns) = shapeSigs [n] @ shapeSigs ns"
    using shapeSigs_append [of "[n]" ns] by simp
  from 4(3) have p1: "\<forall>p \<in> set (shapeSigs [n]). processElement sm layers (fst p) (snd p) = Inr (Some (snd p))"
    and p2: "\<forall>p \<in> set (shapeSigs ns). processElement sm layers (fst p) (snd p) = Inr (Some (snd p))"
    by (simp_all add: app)
  from 4(1) [OF p1] have n: "processNode sm layers n = Inr (Some n)" .
  from 4(2) [OF n p2] have "processNodes sm layers ns = Inr ns" .
  with n show ?case by simp
qed

subsection \<open>The style block and the empty groups\<close>

lemma countTag_Nil [simp]: "countTag t [] = 0"
  by (simp add: countTag_def)

lemma countTag_Text [simp]: "countTag t (TextNode s # ns) = countTag t ns"
  by (simp add: countTag_def)

lemma countTag_Element:
  "countTag t (Element t' a cs # ns) = (if t' = t then 1 else 0) + countTag t cs + countTag t ns"
  by (simp add: countTag_def)

lemma removeFirst_none: "countTag t ns = 0 \<Longrightarrow> removeFirst t ns = None"
  by (induction t ns rule: removeFirst.induct) (auto simp: countTag_Element split: if_splits)

lemma removeFirst_less: "removeFirst t ns = Some ns' \<Longrightarrow> countTag t ns' < countTag t ns"
proof (induction t ns arbitrary: ns' rule: removeFirst.induct)
  case (1 t)
  then show ?case by simp
next
  case (2 t s ns)
  then show ?case by auto
next
  case (3 t t' a cs ns)
  show ?case
  proof (cases "t' = t")
    case True
    then show ?thesis using 3(3) by (simp add: countTag_Element)
  next
    case False
    show ?thesis
    proof (cases "removeFirst t cs")
      case (Some cs')
      then have "ns' = Element t' a cs' # ns" using 3(3) False by simp
      moreover have "countTag t cs' < countTag t cs" using 3(1) [OF False Some] .
      ultimately show ?thesis using False by (simp add: countTag_Element)
    next
      case None
      then obtain ms where ms: "removeFirst t ns = Some ms" and ns': "ns' = Element t' a cs # ms"
        using 3(3) False by auto
      have "countTag t ms < countTag t ns" using 3(2) [OF False None ms] .
      then show ?thesis using False ns' by (simp add: countTag_Element)
    qed
  qed
qed

lemma removeFirst_shapes: "removeFirst t ns = Some ns' \<Longrightarrow> set (shapeSigs ns') \<subseteq> set (shapeSigs ns)"
proof (induction t ns arbitrary: ns' rule: removeFirst.induct)
  case (1 t)
  then show ?case by simp
next
  case (2 t s ns)
  then show ?case by auto
next
  case (3 t t' a cs ns)
  show ?case
  proof (cases "t' = t")
    case True
    then show ?thesis using 3(3) by (auto simp: shapeSigs_Element)
  next
    case False
    show ?thesis
    proof (cases "removeFirst t cs")
      case (Some cs')
      then have "ns' = Element t' a cs' # ns" using 3(3) False by simp
      moreover have "set (shapeSigs cs') \<subseteq> set (shapeSigs cs)" using 3(1) [OF False Some] .
      ultimately show ?thesis by (auto simp: shapeSigs_Element)
    next
      case None
      then obtain ms where ms: "removeFirst t ns = Some ms" and ns': "ns' = Element t' a cs # ms"
        using 3(3) False by auto
      have "set (shapeSigs ms) \<subseteq> set (shapeSigs ns)" using 3(2) [OF False None ms] .
      then show ?thesis using ns' by (auto simp: shapeSigs_Element)
    qed
  qed
qed

lemma stablePaint_removeStyleElement: "stablePaint sm ns \<Longrightarrow> stablePaint sm (removeStyleElement ns)"
proof (cases "removeFirst ''style'' ns")
  case None
  assume "stablePaint sm ns"
  then show ?thesis using None by (simp add: removeStyleElement_def)
next
  case (Some ns')
  assume "stablePaint sm ns"
  then show ?thesis
    using removeFirst_shapes [OF Some] Some
    by (auto simp: removeStyleElement_def stablePaint_def list_all_iff)
qed

lemma countTag_removeStyleElement:
  "countTag ''style'' ns \<le> 1 \<Longrightarrow> countTag ''style'' (removeStyleElement ns) = 0"
proof (cases "removeFirst ''style'' ns")
  case None
  assume "countTag ''style'' ns \<le> 1"
  moreover have "countTag ''style'' ns = 0"
  proof (rule ccontr)
    assume "countTag ''style'' ns \<noteq> 0"
    then show False using None
      by (induction "''style''" ns rule: removeFirst.induct) (auto simp: countTag_Element split: if_splits option.splits)
  qed
  ultimately show ?thesis using None by (simp add: removeStyleElement_def)
next
  case (Some ns')
  assume "countTag ''style'' ns \<le> 1"
  then show ?thesis using removeFirst_less [OF Some] Some by (simp add: removeStyleElement_def)
qed

text \<open>Processing removes nodes and rewrites attributes; it adds no element.\<close>

lemma countTag_process:
  "processNode sm layers n = Inr r \<Longrightarrow> countTag t (case r of None \<Rightarrow> [] | Some n' \<Rightarrow> [n']) \<le> countTag t [n]"
  "processNodes sm layers ns = Inr out \<Longrightarrow> countTag t out \<le> countTag t ns"
proof (induction sm layers n and sm layers ns arbitrary: r and out rule: processNode_processNodes.induct)
  case (1 sm layers s)
  then show ?case by auto
next
  case (2 sm layers t' a cs)
  from 2(2) obtain cs' where cs: "processNodes sm layers cs = Inr cs'"
    by (auto split: sum.splits)
  note le = 2(1) [OF cs]
  show ?case
  proof (cases r)
    case None
    then show ?thesis by simp
  next
    case (Some n')
    then obtain a' where "n' = Element t' a' cs'"
      using 2(2) cs by (auto split: sum.splits option.splits if_splits)
    then show ?thesis using le Some by (simp add: countTag_Element)
  qed
next
  case (3 sm layers)
  then show ?case by auto
next
  case (4 sm layers n ns)
  from 4(3) obtain r ns' where r: "processNode sm layers n = Inr r"
    and ns': "processNodes sm layers ns = Inr ns'"
    and out: "out = (case r of None \<Rightarrow> ns' | Some n' \<Rightarrow> n' # ns')"
    by (auto split: sum.splits)
  note l1 = 4(1) [OF r]
  note l2 = 4(2) [OF r ns']
  have split: "countTag t (m # ms) = countTag t [m] + countTag t ms" for m ms
    by (cases m) (simp_all add: countTag_Element)
  show ?case using l1 l2 out split [of n ns] split [of _ ns'] by (cases r) auto
qed

lemma countTag_removeEmptyGroups: "countTag t (removeEmptyGroups ns) \<le> countTag t ns"
  by (induction ns rule: removeEmptyGroups.induct) (auto simp: countTag_Element)

lemma removeEmptyGroups_idem: "removeEmptyGroups (removeEmptyGroups ns) = removeEmptyGroups ns"
  by (induction ns rule: removeEmptyGroups.induct)
     (auto simp: containsShape_iff shapeSigs_removeEmptyGroups)

subsection \<open>The transform, applied twice\<close>

lemma layerTransform_twice:
  assumes first: "layerTransform sm (Some ls) kids = Inr out"
    and closed: "selfMapped ls"
    and stable: "stablePaint sm kids"
    and one: "countTag ''style'' kids \<le> 1"
  shows "layerTransform sm' (Some ls) out = Inr out"
proof -
  from first obtain mid where mid: "processNodes sm (Some ls) (removeStyleElement kids) = Inr mid"
    and out: "out = removeEmptyGroups mid"
    by (auto simp: layerTransform_def split: sum.splits)
  have "\<exists>l. Some ls = Some l \<and> selfMapped l" using closed by simp
  from first_pass_fixed(2) [OF this stablePaint_removeStyleElement [OF stable] mid]
  have "\<forall>p \<in> set (shapeSigs mid). processElement sm' (Some ls) (fst p) (snd p) = Inr (Some (snd p))" .
  then have "\<forall>p \<in> set (shapeSigs out). processElement sm' (Some ls) (fst p) (snd p) = Inr (Some (snd p))"
    by (simp add: out shapeSigs_removeEmptyGroups)
  then have again: "processNodes sm' (Some ls) out = Inr out" by (rule fixed_forest(2))
  have "countTag ''style'' out \<le> countTag ''style'' mid"
    unfolding out by (rule countTag_removeEmptyGroups)
  also have "\<dots> \<le> countTag ''style'' (removeStyleElement kids)"
    using mid by (rule countTag_process(2))
  also have "\<dots> = 0" using one by (rule countTag_removeStyleElement)
  finally have "removeFirst ''style'' out = None" by (intro removeFirst_none) simp
  then have "removeStyleElement out = out" by (simp add: removeStyleElement_def)
  moreover have "removeEmptyGroups out = out" by (simp add: out removeEmptyGroups_idem)
  ultimately show ?thesis by (simp add: layerTransform_def again)
qed

subsection \<open>Two runs of \<open>processLayersForPanel\<close>\<close>

text \<open>The two presets of the source are closed under their own output; a single rule
  that turns green into black is not, since nothing matches black.\<close>

lemma presets_closed:
  "selfMapped standardPreset \<and> selfMapped invertedPreset \<and> \<not> selfMapped greenToBlack"
  by code_simp

text \<open>A colour with a channel that the model of \<open>parseInt\<close> does not read takes the run
  out of the model as soon as it is compared with a rule: nothing below speaks of such
  a run.\<close>

lemma long_channel_not_modelled:
  "findLayerConfig ''rgb(1000000000000000,0,0)'' greenToBlack = Inl NotModelled"
  by code_simp

text \<open>
  Claim C5, as amended. \<open>processLayersForPanel\<close> returns the markup inside the \<open>svg\<close>
  element, so "its own output" is read as a document whose \<open>svg\<close> element holds that
  output (as the panel composer embeds it). Let a first run in rule mode, without hole
  removal and without round backer, return \<open>out\<close> (in the model this says that the run
  ended without exception and that every \<open>rgb(...)\<close> channel it compared with a rule has
  at most 15 significant digits). If the rule list is closed under its own output
  (\<open>selfMapped\<close>), the input has at most one \<open>style\<close> element, and no shape without
  visible resolved paint carries a visible plain \<open>fill\<close> or \<open>stroke\<close> attribute
  (\<open>stablePaint\<close>), then a second run with the same rules on a document whose \<open>svg\<close>
  element has the children \<open>out\<close> returns \<open>out\<close> again. For an arbitrary rule list this fails:
  the second run looks up the colours that the first run wrote, not the original ones.
\<close>

theorem C5_second_run_unchanged:
  assumes "querySelector ''parsererror'' [domParse br svgText] = None"
    and "querySelector ''svg'' [domParse br svgText] = Some svg"
    and "disabled (removeOrnamentHole options)" and "disabled (addRoundBacker options)"
    and "selfMapped ls"
    and "stablePaint (parseSvgStyleBlock svgText) (childrenOf svg)"
    and "countTag ''style'' (childrenOf svg) \<le> 1"
    and "processLayersForPanel br svgText (Some ls) options = Inr (InnerHTML out)"
    and "querySelector ''parsererror'' [domParse br outText] = None"
    and "querySelector ''svg'' [domParse br outText] = Some svg'"
    and "childrenOf svg' = out"
  shows "processLayersForPanel br outText (Some ls) options = Inr (InnerHTML out)"
proof -
  have "layerTransform (parseSvgStyleBlock svgText) (Some ls) (childrenOf svg) = Inr out"
    using plain_run [OF assms(1,2,3,4), of "Some ls"] assms(8) by (auto split: sum.splits)
  then have "layerTransform (parseSvgStyleBlock outText) (Some ls) out = Inr out"
    using assms(5,6,7) by (rule layerTransform_twice)
  then show ?thesis
    using plain_run [OF assms(9,10,3,4), of "Some ls"] assms(11) by simp
qed

lemma layered_setup:
  "querySelector ''parsererror'' [domParse (reparsing layeredText layeredDoc layeredOutDoc) layeredText] = None"
  "querySelector ''svg'' [domParse (reparsing layeredText layeredDoc layeredOutDoc) layeredText] = Some layeredDoc"
  "disabled (removeOrnamentHole defaultOptions)"
  "disabled (addRoundBacker defaultOptions)"
  "selfMapped invertedPreset"
  "stablePaint (parseSvgStyleBlock layeredText) (childrenOf layeredDoc)"
  "countTag ''style'' (childrenOf layeredDoc) \<le> 1"
  "processLayersForPanel (reparsing layeredText layeredDoc layeredOutDoc) layeredText
     (Some invertedPreset) defaultOptions = Inr (InnerHTML layeredOut)"
  "querySelector ''parsererror'' [domParse (reparsing layeredText layeredDoc layeredOutDoc) layeredOutText] = None"
  "querySelector ''svg'' [domParse (reparsing layeredText layeredDoc layeredOutDoc) layeredOutText]
     = Some layeredOutDoc"
  "childrenOf layeredOutDoc = layeredOut"
  by code_simp+

theorem C5_second_run_unchanged_witness:
  "selfMapped invertedPreset
   \<and> stablePaint (parseSvgStyleBlock layeredText) (childrenOf layeredDoc)
   \<and> countTag ''style'' (childrenOf layeredDoc) \<le> 1
   \<and> processLayersForPanel (reparsing layeredText layeredDoc layeredOutDoc) layeredText
        (Some invertedPreset) defaultOptions = Inr (InnerHTML layeredOut)
   \<and> childrenOf (domParse (reparsing layeredText layeredDoc layeredOutDoc) layeredOutText) = layeredOut
   \<and> processLayersForPanel (reparsing layeredText layeredDoc layeredOutDoc) layeredOutText
        (Some invertedPreset) defaultOptions = Inr (InnerHTML layeredOut)"
proof -
  have "processLayersForPanel (reparsing layeredText layeredDoc layeredOutDoc) layeredOutText
        (Some invertedPreset) defaultOptions = Inr (InnerHTML layeredOut)"
    by (rule C5_second_run_unchanged [OF layered_setup])
  moreover have "childrenOf (domParse (reparsing layeredText layeredDoc layeredOutDoc) layeredOutText)
      = layeredOut"
    by code_simp
  ultimately show ?thesis
    using layered_setup(5,6,7,8) by (intro conjI)
qed

text \<open>
  The claim as stated fails. With the single rule "green, shown, fill, output black" a
  green rectangle comes out black with \<open>stroke="none"\<close>; run on that output under an
  \<open>svg\<close> root, the same rule list matches black to no rule and removes the rectangle.
\<close>

theorem C5_counterexample:
  "processLayersForPanel (reparsing greenRectText greenRectDoc blackRectDoc) greenRectText
     (Some greenToBlack) defaultOptions = Inr (InnerHTML blackRect)
   \<and> domParse (reparsing greenRectText greenRectDoc blackRectDoc) blackRectText
       = Element ''svg'' [] blackRect
   \<and> processLayersForPanel (reparsing greenRectText greenRectDoc blackRectDoc) blackRectText
       (Some greenToBlack) defaultOptions = Inr (InnerHTML [])
   \<and> blackRect \<noteq> []"
  by code_simp

text \<open>The two conditions on the document are needed as well: a plain \<open>fill\<close> hidden
  behind \<open>style="fill:none"\<close> is looked up only by the second pass, and of two \<open>style\<close>
  elements each pass removes one.\<close>

lemma hidden_paint_changes:
  "layerTransform Map.empty (Some standardPreset)
     [Element ''rect'' [(''style'', ''fill:none''), (''fill'', ''#00c100'')] []]
   = Inr [Element ''rect'' [(''fill'', ''#00c100'')] []]
   \<and> layerTransform Map.empty (Some standardPreset) [Element ''rect'' [(''fill'', ''#00c100'')] []]
   = Inr [Element ''rect'' [(''fill'', ''#00c100''), (''stroke'', ''none'')] []]"
  by code_simp

lemma second_style_changes:
  "layerTransform Map.empty (Some standardPreset)
     [Element ''style'' [] [], Element ''style'' [] [], Element ''rect'' [] []]
   = Inr [Element ''style'' [] [], Element ''rect'' [] []]
   \<and> layerTransform Map.empty (Some standardPreset) [Element ''style'' [] [], Element ''rect'' [] []]
   = Inr [Element ''rect'' [] []]"
  by code_simp

end
